(* ===== verification/Prelude.thy ===== *)
theory Prelude
  imports Complex_Main "HOL-Library.List_Lexorder" "HOL-Library.Char_ord" "HOL-Library.Multiset"
begin

text \<open>
  Shared vocabulary of the task-manager model: the Python values the two scripts
  \<^verbatim>\<open>src/scripts/task_manager_phase1.py\<close> and \<^verbatim>\<open>src/scripts/task_manager_phase2.py\<close>
  manipulate, written once.
  \<^item> \<open>'a jfield\<close> is one key of a JSON object (a Python dict): absent, present with
    \<open>null\<close> (Python \<open>None\<close>), or present with a value. The scripts distinguish the
    three (\<open>"recurring" not in task\<close>, \<open>task["blocked_reason"] = None\<close>, \<open>pop\<close>).
  \<^item> \<open>find_first\<close> is the linear search \<open>for x in xs: if p(x): return x\<close> and
    \<open>next((x for x in xs if p(x)), None)\<close>, returning the index of the first match, so
    that the in-place mutation of the found dict is a list update at that index.
  \<^item> \<open>py_round\<close> is Python's \<open>round(x, n)\<close> (round half to even) on exact rationals.
  \<^item> strings are compared as Python compares them: lexicographically, a proper prefix
    first (\<open>HOL-Library.List_Lexorder\<close> on \<open>char\<close>).
\<close>

named_theorems py_simps "evaluation rules of the modelled Python builtins"

section \<open>JSON object slots\<close>

datatype 'a jfield = Missing | JNull | Has 'a

text \<open>\<open>d.get(k)\<close>: \<open>None\<close> both for an absent key and for a \<open>null\<close> value.\<close>

fun jget :: "'a jfield \<Rightarrow> 'a option" where
  "jget Missing = None"
| "jget JNull = None"
| "jget (Has v) = Some v"

text \<open>\<open>k in d\<close>: the key is present, whatever its value.\<close>

fun jin :: "'a jfield \<Rightarrow> bool" where
  "jin Missing = False"
| "jin JNull = True"
| "jin (Has v) = True"

text \<open>Truth value of an optional string (\<open>None\<close> and \<open>""\<close> are false).\<close>

definition truthy_str :: "string option \<Rightarrow> bool" where
  "truthy_str v = (case v of None \<Rightarrow> False | Some s \<Rightarrow> s \<noteq> [])"

text \<open>\<open>d.get(k, default)\<close> for a key the scripts never set to \<open>null\<close>.\<close>

definition get_or :: "'a option \<Rightarrow> 'a \<Rightarrow> 'a" where
  "get_or v d = (case v of None \<Rightarrow> d | Some x \<Rightarrow> x)"

section \<open>Linear search\<close>

fun find_first :: "('a \<Rightarrow> bool) \<Rightarrow> 'a list \<Rightarrow> nat option" where
  "find_first P [] = None"
| "find_first P (x # xs) = (if P x then Some 0 else map_option Suc (find_first P xs))"

section \<open>Rounding\<close>

text \<open>
  \<open>round(x, n)\<close> rounds half to even at the \<open>n\<close>-th decimal. The model computes on the
  exact rational the float stands for; the binary representation error of a float is
  not modelled.
\<close>

definition round_half_even :: "rat \<Rightarrow> int" where
  "round_half_even y =
     (let f = \<lfloor>y\<rfloor>; d = y - of_int f
      in if d < 1/2 then f else if 1/2 < d then f + 1 else if even f then f else f + 1)"

definition py_round :: "nat \<Rightarrow> rat \<Rightarrow> rat" where
  "py_round n x = of_int (round_half_even (x * 10 ^ n)) / 10 ^ n"

section \<open>Python integers and strings\<close>

text \<open>\<open>str(n)\<close> of a non-negative Python int: its decimal digits.\<close>

definition digit_char :: "nat \<Rightarrow> char" where
  "digit_char d = ''0123456789'' ! d"

fun digits_nat :: "nat \<Rightarrow> string" where
  "digits_nat n = (if n < 10 then [digit_char n]
                   else digits_nat (n div 10) @ [digit_char (n mod 10)])"

declare digits_nat.simps [simp del]

definition show_int :: "int \<Rightarrow> string" where
  "show_int i = (if i < 0 then ''-'' @ digits_nat (nat (- i)) else digits_nat (nat i))"

text \<open>\<open>s.split("T")[0]\<close>: the part of \<open>s\<close> before its first \<open>T\<close>.\<close>

definition split_T_head :: "string \<Rightarrow> string" where
  "split_T_head s = takeWhile (\<lambda>c. c \<noteq> CHR ''T'') s"


text \<open>
  \<open>int(s)\<close> of a string, as the scripts apply it to command-line arguments: surrounding
  whitespace is ignored, a sign may lead, and the digits may be grouped by single
  underscores (\<open>1_000\<close>); anything else raises \<open>ValueError\<close> (\<open>None\<close> here). Only ASCII
  whitespace and digits are modelled; Python also accepts other Unicode digits.
\<close>

definition py_space :: "char \<Rightarrow> bool" where
  "py_space c \<longleftrightarrow> c = CHR 0x20 \<or> (CHR 0x09 \<le> c \<and> c \<le> CHR 0x0D) \<or> (CHR 0x1C \<le> c \<and> c \<le> CHR 0x1F)"

text \<open>\<open>s.strip()\<close> for the ASCII whitespace \<open>int()\<close> skips.\<close>

definition py_strip :: "string \<Rightarrow> string" where
  "py_strip s = rev (dropWhile py_space (rev (dropWhile py_space s)))"

definition digit_val :: "char \<Rightarrow> nat option" where
  "digit_val c = (if CHR ''0'' \<le> c \<and> c \<le> CHR ''9'' then Some (of_char c - 48) else None)"

text \<open>The digits after the first, each optionally preceded by one underscore.\<close>

fun digits_us :: "nat \<Rightarrow> string \<Rightarrow> nat option" where
  "digits_us acc [] = Some acc"
| "digits_us acc (c # cs) =
     (case digit_val c of
        Some v \<Rightarrow> digits_us (10 * acc + v) cs
      | None \<Rightarrow>
          if c = CHR ''_'' then
            (case cs of
               [] \<Rightarrow> None
             | d # ds \<Rightarrow> (case digit_val d of None \<Rightarrow> None | Some v \<Rightarrow> digits_us (10 * acc + v) ds))
          else None)"

definition py_uint :: "string \<Rightarrow> nat option" where
  "py_uint s = (case s of [] \<Rightarrow> None | c # cs \<Rightarrow> (case digit_val c of None \<Rightarrow> None | Some v \<Rightarrow> digits_us v cs))"

definition py_int :: "string \<Rightarrow> int option" where
  "py_int s =
     (case py_strip s of
        [] \<Rightarrow> None
      | c # r \<Rightarrow>
          if c = CHR ''-'' then map_option (\<lambda>n. - int n) (py_uint r)
          else if c = CHR ''+'' then map_option int (py_uint r)
          else map_option int (py_uint (c # r)))"


section \<open>Lemmas\<close>

lemma truthy_str_simps [simp, py_simps]:
  "truthy_str None = False"
  "truthy_str (Some s) = (s \<noteq> [])"
  by (simp_all add: truthy_str_def)

lemma get_or_simps [simp, py_simps]:
  "get_or None d = d"
  "get_or (Some x) d = x"
  by (simp_all add: get_or_def)

lemma find_first_None_iff [simp]:
  "find_first P xs = None \<longleftrightarrow> (\<forall>x \<in> set xs. \<not> P x)"
  by (induction xs) auto

lemma find_first_Some_iff:
  "find_first P xs = Some i \<longleftrightarrow> i < length xs \<and> P (xs ! i) \<and> (\<forall>j < i. \<not> P (xs ! j))"
proof (induction xs arbitrary: i)
  case Nil
  then show ?case by simp
next
  case (Cons x xs)
  show ?case
  proof (cases i)
    case 0
    then show ?thesis by auto
  next
    case (Suc k)
    then show ?thesis
      using Cons.IH [of k] by (auto simp: less_Suc_eq_0_disj)
  qed
qed

lemma find_first_SomeD [dest]:
  "find_first P xs = Some i \<Longrightarrow> i < length xs \<and> P (xs ! i)"
  by (simp add: find_first_Some_iff)

lemma find_first_map_eq:
  "map f xs = map f ys \<Longrightarrow> find_first (\<lambda>x. f x = i) xs = find_first (\<lambda>x. f x = i) ys"
proof (induction xs arbitrary: ys)
  case Nil
  then show ?case by simp
next
  case (Cons x xs)
  then show ?case by (cases ys) auto
qed

lemma find_first_append_absent:
  "find_first P xs = Some i \<Longrightarrow> find_first P (xs @ ys) = Some i"
  by (induction xs arbitrary: i) auto

lemma find_first_shadowed:
  "j < length xs \<Longrightarrow> P (xs ! j) \<Longrightarrow> find_first P (xs @ ys) \<noteq> Some (length xs)"
  by (auto simp: find_first_Some_iff nth_append)

lemma find_first_update_same:
  "find_first P xs = Some i \<Longrightarrow> P y \<Longrightarrow> find_first P (xs[i := y]) = Some i"
  by (auto simp: find_first_Some_iff nth_list_update)

lemma length_map_filter_le: "length (List.map_filter f xs) \<le> length xs"
  by (induction xs) (auto simp: map_filter_simps split: option.split)

lemma distinct_map_sort_key: "distinct (map f xs) \<Longrightarrow> distinct (map f (sort_key g xs))"
  by (simp add: distinct_map)

lemma sum_list_map_sort_key:
  fixes f :: "'a \<Rightarrow> 'b :: comm_monoid_add"
  shows "sum_list (map f (sort_key g xs)) = sum_list (map f xs)"
proof -
  have "mset (map f (sort_key g xs)) = mset (map f xs)"
    by simp
  then show ?thesis
    by (metis sum_mset_sum_list)
qed

lemma round_half_even_dist: "\<bar>of_int (round_half_even y) - y\<bar> \<le> 1/2"
proof -
  have "of_int \<lfloor>y\<rfloor> \<le> y" "y < of_int \<lfloor>y\<rfloor> + 1"
    using floor_correct [of y] by simp_all
  then show ?thesis
    by (auto simp: round_half_even_def Let_def)
qed

lemma round_half_even_int [simp]: "round_half_even (of_int k) = k"
  by (simp add: round_half_even_def)

lemmas py_int_unfold [py_simps] = py_int_def py_strip_def py_space_def py_uint_def digit_val_def

lemma digit_val_digit_char: "d < 10 \<Longrightarrow> digit_val (digit_char d) = Some d"
proof -
  assume "d < 10"
  then have "d \<in> {0,1,2,3,4,5,6,7,8,9}" by auto
  then show ?thesis by (auto simp: digit_val_def digit_char_def)
qed


lemma digit_val_Some_iff: "digit_val c = Some v \<longleftrightarrow> CHR ''0'' \<le> c \<and> c \<le> CHR ''9'' \<and> v = of_char c - 48"
  by (auto simp: digit_val_def)

lemma digits_us_append:
  "\<forall>c \<in> set xs. digit_val c \<noteq> None \<Longrightarrow>
   digits_us acc (xs @ ys) = digits_us (fold (\<lambda>c a. 10 * a + the (digit_val c)) xs acc) ys"
  by (induction xs arbitrary: acc) auto

lemma digit_char_digit: "d < 10 \<Longrightarrow> digit_val (digit_char d) \<noteq> None"
  by (simp add: digit_val_digit_char)

lemma digits_nat_digits: "\<forall>c \<in> set (digits_nat n). digit_val c \<noteq> None"
proof (induction n rule: digits_nat.induct)
  case (1 n)
  then show ?case by (subst digits_nat.simps) (auto simp: digit_val_digit_char)
qed

lemma digits_nat_not_Nil: "digits_nat n \<noteq> []"
  by (subst digits_nat.simps) simp

lemma fold_digits_nat:
  "fold (\<lambda>c a. 10 * a + the (digit_val c)) (digits_nat n) 0 = n"
proof (induction n rule: digits_nat.induct)
  case (1 n)
  show ?case
  proof (cases "n < 10")
    case True
    then show ?thesis by (subst digits_nat.simps) (simp add: digit_val_digit_char)
  next
    case False
    then have "digits_nat n = digits_nat (n div 10) @ [digit_char (n mod 10)]"
      by (subst digits_nat.simps) simp
    with 1 False show ?thesis by (simp add: digit_val_digit_char)
  qed
qed

lemma py_uint_digits_nat: "py_uint (digits_nat n) = Some n"
proof -
  obtain c cs where cs: "digits_nat n = c # cs"
    using digits_nat_not_Nil by (cases "digits_nat n") auto
  have dig: "\<forall>c \<in> set (digits_nat n). digit_val c \<noteq> None"
    by (rule digits_nat_digits)
  then obtain v where v: "digit_val c = Some v" using cs by auto
  have "digits_us v cs = digits_us (fold (\<lambda>c a. 10 * a + the (digit_val c)) cs v) []"
    using digits_us_append [of cs v "[]"] dig cs by simp
  also have "fold (\<lambda>c a. 10 * a + the (digit_val c)) cs v = n"
    using fold_digits_nat [of n] cs v by simp
  finally show ?thesis using cs v by (simp add: py_uint_def)
qed

lemma dropWhile_none: "\<forall>c \<in> set s. \<not> P c \<Longrightarrow> dropWhile P s = s"
  by (induction s) auto

lemma py_strip_id: "\<forall>c \<in> set s. \<not> py_space c \<Longrightarrow> py_strip s = s"
  by (simp add: py_strip_def dropWhile_none)

lemma digit_not_space: "digit_val c \<noteq> None \<Longrightarrow> \<not> py_space c \<and> c \<noteq> CHR ''-'' \<and> c \<noteq> CHR ''+''"
  by (auto simp: digit_val_def py_space_def less_eq_char_def split: if_splits)

text \<open>\<open>int(str(n)) == n\<close> for every Python int.\<close>

lemma py_int_show_int: "py_int (show_int i) = Some i"
proof -
  have nd: "\<forall>c \<in> set (digits_nat n). \<not> py_space c" for n
    using digits_nat_digits digit_not_space by blast
  obtain c cs where cs: "digits_nat (nat \<bar>i\<bar>) = c # cs"
    using digits_nat_not_Nil by (cases "digits_nat (nat \<bar>i\<bar>)") auto
  have c: "c \<noteq> CHR ''-'' \<and> c \<noteq> CHR ''+''"
    using digits_nat_digits [of "nat \<bar>i\<bar>"] digit_not_space cs by auto
  show ?thesis
  proof (cases "i < 0")
    case True
    have "py_strip (show_int i) = show_int i"
      using nd True by (intro py_strip_id) (simp add: show_int_def py_space_def)
    with True show ?thesis by (simp add: py_int_def show_int_def py_uint_digits_nat)
  next
    case False
    have "py_strip (show_int i) = show_int i"
      using nd False by (intro py_strip_id) (simp add: show_int_def)
    moreover have ci: "digits_nat (nat i) = c # cs" using cs False by simp
    moreover have "py_uint (c # cs) = Some (nat i)" using py_uint_digits_nat [of "nat i"] ci by simp
    ultimately show ?thesis using False c by (simp add: py_int_def show_int_def)
  qed
qed

end
