(* ===== verification/Store.thy ===== *)
theory Store
  imports Prelude
begin

text \<open>
  The data model and the Store Accessor: goals and tasks as the JSON file
  \<^verbatim>\<open>data/tasks.json\<close> holds them, the two versions of \<open>load_data\<close>, and the lookups
  \<open>find_task_by_id\<close> and \<open>find_goal_by_id\<close> (\<^verbatim>\<open>task_manager_phase1.py\<close> lines 24--65,
  \<^verbatim>\<open>task_manager_phase2.py\<close> lines 28--55).
  A task is a Python dict; its keys become record fields. A key the scripts may leave
  out is an \<open>option\<close>; a key they set to \<open>None\<close> as well
  (\<open>blocked_reason\<close>, \<open>recurring\<close>) is a \<open>jfield\<close>. Timestamps are kept as the
  strings the scripts store.
\<close>

section \<open>Data\<close>

datatype status = Pending | In_progress | Blocked | Completed

text \<open>The strings the scripts store for the four statuses.\<close>

fun status_str :: "status \<Rightarrow> string" where
  "status_str Pending = ''pending''"
| "status_str In_progress = ''in_progress''"
| "status_str Blocked = ''blocked''"
| "status_str Completed = ''completed''"

record goal =
  g_id :: string
  g_title :: string
  g_priority :: "string option"

record task =
  t_id :: string
  goal_id :: "string option"
  title :: string
  priority :: string
  status :: status
  progress :: "int option"
  estimate_minutes :: "int option"
  actual_minutes :: "int option"
  time_variance_percent :: "rat option"
  blocked_reason :: "string jfield"
  recurring :: "string jfield"
  next_due_at :: "string option"
  created_at :: "string option"
  updated_at :: "string option"
  completed_at :: "string option"
  t_notes :: "string option"
  last_error :: "string option"
  retry_count :: "int option"

record store =
  goals :: "goal list"
  tasks :: "task list"

text \<open>
  What \<open>json.load\<close> returns for a parseable \<^verbatim>\<open>tasks.json\<close>: a value that is not a
  JSON object (a list, a string, a number), an object without a \<open>tasks\<close> key, or an
  object with one, read as a store.
\<close>

datatype json_top = NotObject | NoTasks | Obj store

text \<open>
  The file \<^verbatim>\<open>tasks.json\<close>: absent, present but not readable (\<open>open\<close> or the read
  raises \<open>IOError\<close>), not parseable as JSON (\<open>json.JSONDecodeError\<close>; also the state a
  crash between truncation and write leaves), or parsed.
\<close>

datatype store_file = NoFile | Unreadable | Corrupt | Parsed json_top

abbreviation Valid :: "store \<Rightarrow> store_file" where
  "Valid d \<equiv> Parsed (Obj d)"

definition empty_store :: store where
  "empty_store = \<lparr>goals = [], tasks = []\<rparr>"

section \<open>Errors\<close>

text \<open>
  Every \<open>sys.exit(1)\<close> of the scripts and every exception they do not catch. An
  uncaught exception ends the process as an exit does, before any later write.
\<close>

datatype error =
    TaskNotFound string
  | GoalNotFound string
  | ProgressOutOfRange
  | NotRecurring
  | IncompleteTask int
  | KeyError string
  | TypeError
  | ValueError string
  | Usage
  | UnknownCommand string
  | ArgparseError
  | JSONDecodeError
  | IOError
  | ZeroDivisionError

text \<open>
  \<open>int(s)\<close> on a command-line string (phase 1 lines 76, 137 and 188, phase 2 lines
  425 and 434): \<open>ValueError\<close> when the string is not an integer literal.
\<close>

definition int_of_arg :: "string \<Rightarrow> error + int" where
  "int_of_arg s = (case py_int s of None \<Rightarrow> Inl (ValueError s) | Some n \<Rightarrow> Inr n)"

section \<open>Loading\<close>

text \<open>
  Phase 1 (\<open>load_data\<close>, lines 24--49) never fails: a corrupt file is copied to
  \<^verbatim>\<open>tasks.json.bak\<close> (the \<open>bool\<close> says so) and the empty store is used; an unreadable
  file (the \<open>except IOError\<close> of lines 47--49) and a parsed value that is not an object
  with a \<open>tasks\<close> key are replaced by the empty store without a backup.
\<close>

fun load_data1 :: "store_file \<Rightarrow> store \<times> bool" where
  "load_data1 NoFile = (empty_store, False)"
| "load_data1 Unreadable = (empty_store, False)"
| "load_data1 Corrupt = (empty_store, True)"
| "load_data1 (Parsed (Obj d)) = (d, False)"
| "load_data1 (Parsed NotObject) = (empty_store, False)"
| "load_data1 (Parsed NoTasks) = (empty_store, False)"

text \<open>
  Phase 2 (\<open>load_data\<close>, lines 28--33) catches nothing and does not validate: a
  missing file gives the empty store, an unreadable one raises \<open>IOError\<close> from the
  \<open>open\<close> or the read, a corrupt one raises \<open>JSONDecodeError\<close>, and any parsed value
  is returned as it is.
\<close>

fun load_data2 :: "store_file \<Rightarrow> error + json_top" where
  "load_data2 NoFile = Inr (Obj empty_store)"
| "load_data2 Unreadable = Inl IOError"
| "load_data2 Corrupt = Inl JSONDecodeError"
| "load_data2 (Parsed v) = Inr v"

text \<open>
  \<open>data["tasks"]\<close>, the first thing every phase-2 caller does with the loaded value
  (through \<open>find_task_by_id\<close>, line 44, or the loop of \<open>health_check\<close>, line 329):
  \<open>KeyError\<close> on an object without the key, \<open>TypeError\<close> on a list, string or number.
\<close>

fun tasks_of :: "json_top \<Rightarrow> error + store" where
  "tasks_of (Obj d) = Inr d"
| "tasks_of NoTasks = Inl (KeyError ''tasks'')"
| "tasks_of NotObject = Inl TypeError"

text \<open>A phase-2 command's start: load, then the first subscript.\<close>

definition load2 :: "store_file \<Rightarrow> error + store" where
  "load2 f = (case load_data2 f of Inl err \<Rightarrow> Inl err | Inr v \<Rightarrow> tasks_of v)"

section \<open>Lookup\<close>

text \<open>
  \<open>find_task_by_id\<close> returns the first task with the id; the callers mutate that dict
  in place, which the model writes as an update of the list at the returned index.
\<close>

definition find_task_by_id :: "store \<Rightarrow> string \<Rightarrow> nat option" where
  "find_task_by_id d i = find_first (\<lambda>t. t_id t = i) (tasks d)"

definition find_goal_by_id :: "store \<Rightarrow> string \<Rightarrow> goal option" where
  "find_goal_by_id d i = map_option (\<lambda>k. goals d ! k) (find_first (\<lambda>g. g_id g = i) (goals d))"

text \<open>Replacing the found task, as the in-place mutation does.\<close>

definition set_task :: "store \<Rightarrow> nat \<Rightarrow> task \<Rightarrow> store" where
  "set_task d k t = d\<lparr>tasks := (tasks d)[k := t]\<rparr>"

section \<open>Lemmas\<close>

lemma load_data1_Valid_iff: "fst (load_data1 f) = d \<and> \<not> snd (load_data1 f) \<longleftrightarrow>
    f = Valid d \<or> (d = empty_store \<and> f \<in> {NoFile, Unreadable, Parsed NotObject, Parsed NoTasks})"
  by (cases f rule: load_data1.cases) auto

lemma int_of_arg_simps [simp]:
  "py_int s = Some n \<Longrightarrow> int_of_arg s = Inr n"
  "py_int s = None \<Longrightarrow> int_of_arg s = Inl (ValueError s)"
  by (simp_all add: int_of_arg_def)

lemma int_of_arg_Inr_iff: "int_of_arg s = Inr n \<longleftrightarrow> py_int s = Some n"
  by (simp add: int_of_arg_def split: option.split)

lemma int_of_arg_Inl_iff: "int_of_arg s = Inl err \<longleftrightarrow> py_int s = None \<and> err = ValueError s"
  by (auto simp: int_of_arg_def split: option.split)

lemma load2_simps [simp]:
  "load2 NoFile = Inr empty_store"
  "load2 Unreadable = Inl IOError"
  "load2 Corrupt = Inl JSONDecodeError"
  "load2 (Parsed v) = tasks_of v"
  by (simp_all add: load2_def)

lemma find_task_by_id_Some:
  "find_task_by_id d i = Some k \<Longrightarrow> k < length (tasks d) \<and> t_id (tasks d ! k) = i"
  by (auto simp: find_task_by_id_def)

lemma find_task_by_id_None:
  "find_task_by_id d i = None \<longleftrightarrow> (\<forall>t \<in> set (tasks d). t_id t \<noteq> i)"
  by (simp add: find_task_by_id_def)

lemma find_goal_by_id_Some:
  "find_goal_by_id d i = Some g \<Longrightarrow> g \<in> set (goals d) \<and> g_id g = i"
  by (auto simp: find_goal_by_id_def)

lemma find_goal_by_id_None:
  "find_goal_by_id d i = None \<longleftrightarrow> (\<forall>g \<in> set (goals d). g_id g \<noteq> i)"
  by (simp add: find_goal_by_id_def)

lemma set_task_simps [simp]:
  "goals (set_task d k t) = goals d"
  "tasks (set_task d k t) = (tasks d)[k := t]"
  by (simp_all add: set_task_def)

lemma find_task_by_id_set_task:
  "find_task_by_id d i = Some k \<Longrightarrow> t_id t = i \<Longrightarrow> find_task_by_id (set_task d k t) i = Some k"
  by (simp add: find_task_by_id_def find_first_update_same)

lemma find_goal_by_id_set_task [simp]:
  "find_goal_by_id (set_task d k t) i = find_goal_by_id d i"
  by (simp add: find_goal_by_id_def)

end
