(* ===== verification/World.thy ===== *)
theory World
  imports Store
begin

text \<open>
  The world the scripts act on: the files they write, the clock they read and the
  identifiers they draw, with the primitives that touch them.
  \<^item> \<open>env\<close> fixes what the process reads from outside: \<open>clock e n\<close> is the value (in
    microseconds since the epoch, UTC) of the \<open>n\<close>-th call of
    \<open>datetime.now(timezone.utc)\<close>, \<open>iso e t\<close> its \<open>isoformat()\<close>, and \<open>uuid_hex e n\<close>
    the \<open>uuid4().hex\<close> of the \<open>n\<close>-th identifier.
  \<^item> \<open>disk\<close> is the content of the files: \<^verbatim>\<open>tasks.json\<close>, its backup, the WAL files
    \<^verbatim>\<open>memory/WAL-<day>.log\<close> (one list of day-tagged lines in append order), the
    working buffer, the daily memory files and \<^verbatim>\<open>SESSION-STATE.md\<close>.
  \<^item> \<open>io\<close> is one write; \<open>world\<close> carries the disk, the number of clock reads and of
    identifiers used so far, and the trace of writes performed. Every write goes
    through \<open>perform\<close>, so the disk is always the replay of the trace: a crash after
    any number of writes leaves the disk that replaying the written prefix gives.
  \<open>save_data\<close> is two writes, since \<open>open(DATA_FILE, 'w')\<close> truncates the file before
  \<open>json.dump\<close> writes it. The session file is written as the text
  \<open>update_session_state\<close> renders; the last section proves what its velocity phrase says.
\<close>

section \<open>Environment\<close>

type_synonym instant = int

record env =
  clock :: "nat \<Rightarrow> instant"
  iso :: "instant \<Rightarrow> string"
  uuid_hex :: "nat \<Rightarrow> string"

text \<open>\<open>strftime("%Y-%m-%d")\<close>: the date part of the ISO form.\<close>

definition ymd :: "env \<Rightarrow> instant \<Rightarrow> string" where
  "ymd e t = split_T_head (iso e t)"

text \<open>What the scripts store: \<open>datetime.now(timezone.utc).isoformat() + "Z"\<close>.\<close>

definition stamp :: "env \<Rightarrow> instant \<Rightarrow> string" where
  "stamp e t = iso e t @ ''Z''"

section \<open>Files\<close>

datatype wal_content =
    ProgressContent string int int string
  | TimeContent string int int int string
  | StatusContent string status status string string
  | HealthContent nat nat string

record wal_entry =
  w_timestamp :: string
  w_event :: string
  w_content :: wal_content

record disk =
  tasks_json :: store_file
  tasks_bak :: "store_file option"
  wal_log :: "(string \<times> wal_entry) list"
  buffer_md :: "string option"
  daily_md :: "(string \<times> string) list"
  session_md :: "string option"

datatype io =
    Truncate
  | WriteStore store
  | Backup
  | WalAppend string wal_entry
  | BufferAppend string
  | SessionWrite string
  | DailyAppend string string
  | BufferClear

fun apply_io :: "io \<Rightarrow> disk \<Rightarrow> disk" where
  "apply_io Truncate f = f\<lparr>tasks_json := Corrupt\<rparr>"
| "apply_io (WriteStore d) f = f\<lparr>tasks_json := Valid d\<rparr>"
| "apply_io Backup f = f\<lparr>tasks_bak := Some (tasks_json f)\<rparr>"
| "apply_io (WalAppend day w) f = f\<lparr>wal_log := wal_log f @ [(day, w)]\<rparr>"
| "apply_io (BufferAppend l) f = f\<lparr>buffer_md := Some (get_or (buffer_md f) [] @ l)\<rparr>"
| "apply_io (SessionWrite s) f = f\<lparr>session_md := Some s\<rparr>"
| "apply_io (DailyAppend day s) f = f\<lparr>daily_md := daily_md f @ [(day, s)]\<rparr>"
| "apply_io BufferClear f = f\<lparr>buffer_md := Some []\<rparr>"

definition replay :: "disk \<Rightarrow> io list \<Rightarrow> disk" where
  "replay f ios = fold apply_io ios f"

record world =
  fs :: disk
  reads :: nat
  uuids :: nat
  trace :: "io list"

section \<open>Primitives\<close>

definition perform :: "io \<Rightarrow> world \<Rightarrow> world" where
  "perform a w = w\<lparr>fs := apply_io a (fs w), trace := trace w @ [a]\<rparr>"

text \<open>One call of \<open>datetime.now(timezone.utc)\<close>.\<close>

definition now :: "env \<Rightarrow> world \<Rightarrow> instant \<times> world" where
  "now e w = (clock e (reads w), w\<lparr>reads := Suc (reads w)\<rparr>)"

text \<open>\<open>generate_id(prefix)\<close>, phase 1 lines 56--58.\<close>

definition generate_id :: "env \<Rightarrow> string \<Rightarrow> world \<Rightarrow> string \<times> world" where
  "generate_id e prefix w =
     (prefix @ ''_'' @ take 8 (uuid_hex e (uuids w)), w\<lparr>uuids := Suc (uuids w)\<rparr>)"

text \<open>\<open>save_data\<close> (phase 1 lines 51--54, phase 2 lines 36--39).\<close>

definition save_data :: "store \<Rightarrow> world \<Rightarrow> world" where
  "save_data d w = perform (WriteStore d) (perform Truncate w)"

text \<open>
  \<open>log_to_wal\<close> (phase 2 lines 58--82): the entry's timestamp and the file's day come
  from two successive clock reads; the entry is appended as one line.
\<close>

text \<open>The WAL line written when the clock has been read \<open>r\<close> times before the call.\<close>

definition wal_io :: "env \<Rightarrow> string \<Rightarrow> wal_content \<Rightarrow> nat \<Rightarrow> io" where
  "wal_io e ev c r =
     WalAppend (ymd e (clock e (Suc r))) \<lparr>w_timestamp = iso e (clock e r), w_event = ev, w_content = c\<rparr>"

definition log_to_wal :: "env \<Rightarrow> string \<Rightarrow> wal_content \<Rightarrow> world \<Rightarrow> world" where
  "log_to_wal e ev c w =
     (let (t1, w1) = now e w;
          (t2, w2) = now e w1
      in perform (WalAppend (ymd e t2)
           \<lparr>w_timestamp = iso e t1, w_event = ev, w_content = c\<rparr>) w2)"

definition newline :: string where
  "newline = [CHR 0x0A]"

definition arrow :: string where
  "arrow = [CHR 0xE2, CHR 0x86, CHR 0x92]"

text \<open>\<open>append_to_buffer\<close> (phase 2 lines 85--100).\<close>

definition append_to_buffer :: "env \<Rightarrow> string \<Rightarrow> string \<Rightarrow> world \<Rightarrow> world" where
  "append_to_buffer e ev details w =
     (let (t, w1) = now e w
      in perform (BufferAppend (''- '' @ ev @ '' ('' @ iso e t @ ''): '' @ details @ newline)) w1)"

text \<open>
  The velocity phrase of \<open>update_session_state\<close> (phase 2 lines 115--124): the ratio of
  logged to estimated minutes, as a percentage faster or slower, truncated by \<open>int()\<close>.
  Both truncated values are positive, where \<open>int()\<close> is the floor. The ratio is
  computed on exact rationals, not on floats.
\<close>

definition session_velocity :: "int \<Rightarrow> int \<Rightarrow> string" where
  "session_velocity actual estimate =
     (if 0 < estimate
      then let ratio = (of_int actual / of_int estimate :: rat)
           in if ratio < 1 then show_int \<lfloor>(1 - ratio) * 100\<rfloor> @ ''% faster than estimate''
              else if 1 < ratio then show_int \<lfloor>(ratio - 1) * 100\<rfloor> @ ''% slower than estimate''
              else ''on pace with estimate''
      else [])"

text \<open>How the f-string prints a block reason: the string, or \<open>None\<close> for a \<open>null\<close> or absent key.\<close>

fun reason_str :: "string jfield \<Rightarrow> string" where
  "reason_str (Has r) = r"
| "reason_str _ = ''None''"

text \<open>The text of \<^verbatim>\<open>SESSION-STATE.md\<close> (lines 110--152), line by line.\<close>

definition render_session :: "string \<Rightarrow> task \<Rightarrow> goal \<Rightarrow> string \<Rightarrow> string" where
  "render_session updated t g action =
     (let p = get_or (progress t) 0; est = get_or (estimate_minutes t) 0;
          act = get_or (actual_minutes t) 0; vel = session_velocity act est
      in concat (map (\<lambda>l. l @ newline)
         [''# SESSION-STATE.md - Active Working Memory'',
          ''Last updated: '' @ updated,
          [],
          ''## Current Task'',
          ''- ID: '' @ t_id t,
          ''- Title: '' @ title t,
          ''- Status: '' @ status_str (status t),
          ''- Progress: '' @ show_int p @ ''%'',
          ''- Estimated: '' @ show_int est @ '' min'',
          ''- Actual logged: '' @ show_int act @ '' min '' @ (if vel \<noteq> [] then ''('' @ vel @ '')'' else []),
          [],
          ''## Goal Context'',
          ''- ID: '' @ g_id g,
          ''- Title: '' @ g_title g,
          ''- Priority: '' @ get_or (g_priority g) ''medium'',
          [],
          ''## Task Details'',
          ''- Created: '' @ get_or (created_at t) ''N/A'',
          ''- Updated: '' @ get_or (updated_at t) ''N/A'',
          ''- Notes: '' @ get_or (t_notes t) ''None'',
          [],
          ''## Blockers'',
          ''- '' @ reason_str (blocked_reason t),
          [],
          ''## Next Action'',
          (if action = [] then ''Continue with current task or mark as complete'' else action)]))"

text \<open>\<open>update_session_state\<close> (phase 2 lines 103--155): one clock read, then the file is
  overwritten with the rendered text.\<close>

definition update_session_state :: "env \<Rightarrow> task \<Rightarrow> goal \<Rightarrow> string \<Rightarrow> world \<Rightarrow> world" where
  "update_session_state e t g action w =
     (let (c, w1) = now e w
      in perform (SessionWrite (render_session (iso e c) t g action)) w1)"

section \<open>Kinds of writes\<close>

fun touches_store :: "io \<Rightarrow> bool" where
  "touches_store Truncate = True"
| "touches_store (WriteStore d) = True"
| "touches_store _ = False"

fun is_wal :: "io \<Rightarrow> bool" where
  "is_wal (WalAppend day x) = True"
| "is_wal _ = False"

text \<open>
  The write-ahead discipline of a sequence of writes: no write to \<^verbatim>\<open>tasks.json\<close>
  before the first WAL append.
\<close>

fun wal_before_save :: "io list \<Rightarrow> bool" where
  "wal_before_save [] = True"
| "wal_before_save (a # as) = (is_wal a \<or> (\<not> touches_store a \<and> wal_before_save as))"

text \<open>
  A clock whose readings the scripts' string comparisons order correctly: the ISO
  forms of later readings are not smaller, and a stored stamp (the ISO form with
  \<open>Z\<close> appended) is smaller than the ISO form of any strictly later reading. Real
  \<open>isoformat()\<close> strings satisfy this when successive readings differ; a clock that
  returns the same reading twice does not.
\<close>

definition clock_sound :: "env \<Rightarrow> bool" where
  "clock_sound e \<longleftrightarrow>
     (\<forall>n m. n \<le> m \<longrightarrow> iso e (clock e n) \<le> iso e (clock e m)) \<and>
     (\<forall>n m. n < m \<longrightarrow> stamp e (clock e n) < iso e (clock e m))"

section \<open>Lemmas\<close>

named_theorems world_defs "primitives of the world, unfolded by the command proofs"

declare now_def [world_defs] generate_id_def [world_defs] save_data_def [world_defs]
  log_to_wal_def [world_defs] append_to_buffer_def [world_defs]
  update_session_state_def [world_defs] perform_def [world_defs]

lemma replay_Nil [simp]: "replay f [] = f"
  by (simp add: replay_def)

lemma replay_append [simp]: "replay f (xs @ ys) = replay (replay f xs) ys"
  by (simp add: replay_def)

lemma replay_Cons [simp]: "replay f (a # xs) = replay (apply_io a f) xs"
  by (simp add: replay_def)

text \<open>
  \<open>extends w w'\<close>: \<open>w'\<close> arises from \<open>w\<close> by writes only, those of
  \<open>new_io w w'\<close>, in that order.
\<close>

definition new_io :: "world \<Rightarrow> world \<Rightarrow> io list" where
  "new_io w w' = drop (length (trace w)) (trace w')"

definition extends :: "world \<Rightarrow> world \<Rightarrow> bool" where
  "extends w w' \<longleftrightarrow> trace w' = trace w @ new_io w w' \<and> fs w' = replay (fs w) (new_io w w')"

lemma extends_refl [simp, intro]: "extends w w"
  by (simp add: extends_def new_io_def)

lemma extends_perform [simp, intro]: "extends w (perform a w)"
  by (simp add: extends_def new_io_def perform_def)

lemma new_io_refl [simp]: "new_io w w = []"
  by (simp add: new_io_def)

lemma new_io_perform [simp]: "new_io w (perform a w) = [a]"
  by (simp add: new_io_def perform_def)

lemma new_io_eq: "trace w' = trace w @ ios \<Longrightarrow> new_io w w' = ios"
  by (simp add: new_io_def)

lemma extends_iff:
  "extends w w' \<longleftrightarrow> (\<exists>ios. trace w' = trace w @ ios \<and> fs w' = replay (fs w) ios)"
  by (auto simp: extends_def new_io_eq)

lemma extends_trans [trans]:
  assumes "extends w1 w2" and "extends w2 w3"
  shows "extends w1 w3 \<and> new_io w1 w3 = new_io w1 w2 @ new_io w2 w3"
proof -
  from assms obtain a b where
    "trace w2 = trace w1 @ a" "fs w2 = replay (fs w1) a"
    "trace w3 = trace w2 @ b" "fs w3 = replay (fs w2) b"
    by (auto simp: extends_iff)
  then show ?thesis
    by (auto simp: extends_iff new_io_eq)
qed

lemma extends_now_world [simp, intro]: "extends w (snd (now e w))"
  by (simp add: extends_def new_io_def now_def)

lemma perform_fs [simp]: "fs (perform a w) = apply_io a (fs w)"
  and perform_trace [simp]: "trace (perform a w) = trace w @ [a]"
  and perform_reads [simp]: "reads (perform a w) = reads w"
  and perform_uuids [simp]: "uuids (perform a w) = uuids w"
  by (simp_all add: perform_def)

lemma reads_now [simp]: "reads (snd (now e w)) = Suc (reads w)"
  and fs_now [simp]: "fs (snd (now e w)) = fs w"
  and trace_now [simp]: "trace (snd (now e w)) = trace w"
  and fst_now [simp]: "fst (now e w) = clock e (reads w)"
  by (simp_all add: now_def)

lemma log_to_wal_eq:
  "log_to_wal e ev c w = perform (wal_io e ev c (reads w)) (w\<lparr>reads := Suc (Suc (reads w))\<rparr>)"
  by (simp add: log_to_wal_def wal_io_def now_def perform_def)

lemma append_to_buffer_eq:
  "append_to_buffer e ev details w =
     perform (BufferAppend (''- '' @ ev @ '' ('' @ iso e (clock e (reads w)) @ ''): '' @ details @ newline))
       (w\<lparr>reads := Suc (reads w)\<rparr>)"
  by (simp add: append_to_buffer_def now_def)

lemma touches_store_apply_io [simp]:
  "\<not> touches_store a \<Longrightarrow> tasks_json (apply_io a f) = tasks_json f"
  by (cases a) simp_all

lemma wal_log_apply_io_mono: "set (wal_log f) \<subseteq> set (wal_log (apply_io a f))"
  by (cases a) auto

lemma wal_log_replay_mono: "set (wal_log f) \<subseteq> set (wal_log (replay f ios))"
  by (induction ios arbitrary: f) (auto dest: subsetD [OF wal_log_apply_io_mono])

text \<open>
  Crash consistency of the discipline: whatever prefix of the writes a crash lets
  through, if \<^verbatim>\<open>tasks.json\<close> differs from before, a WAL line of the sequence is on disk.
\<close>

lemma wal_before_save_crash:
  assumes "wal_before_save ios"
    and "tasks_json (replay f (take k ios)) \<noteq> tasks_json f"
  shows "\<exists>day x. WalAppend day x \<in> set (take k ios) \<and> (day, x) \<in> set (wal_log (replay f (take k ios)))"
  using assms
proof (induction ios arbitrary: f k)
  case Nil
  then show ?case by simp
next
  case (Cons a as)
  show ?case
  proof (cases k)
    case 0
    with Cons.prems show ?thesis by simp
  next
    case (Suc j)
    show ?thesis
    proof (cases "is_wal a")
      case True
      then obtain day x where a: "a = WalAppend day x"
        by (cases a) auto
      have "(day, x) \<in> set (wal_log (apply_io a f))"
        by (simp add: a)
      then have "(day, x) \<in> set (wal_log (replay (apply_io a f) (take j as)))"
        using wal_log_replay_mono by blast
      with a Suc show ?thesis by auto
    next
      case False
      with Cons.prems(1) have nt: "\<not> touches_store a" and w: "wal_before_save as"
        by simp_all
      from Cons.prems(2) Suc nt
      have "tasks_json (replay (apply_io a f) (take j as)) \<noteq> tasks_json (apply_io a f)"
        by simp
      from Cons.IH [OF w this] Suc show ?thesis by auto
    qed
  qed
qed

lemma tasks_json_apply_io:
  "tasks_json (apply_io a f) =
     (case a of Truncate \<Rightarrow> Corrupt | WriteStore d \<Rightarrow> Valid d | _ \<Rightarrow> tasks_json f)"
  by (cases a) simp_all

lemma wal_log_apply_io:
  "wal_log (apply_io a f) =
     (case a of WalAppend day x \<Rightarrow> wal_log f @ [(day, x)] | _ \<Rightarrow> wal_log f)"
  by (cases a) simp_all


lemma tasks_json_log_to_wal [simp]: "tasks_json (fs (log_to_wal e ev c w)) = tasks_json (fs w)"
  and reads_log_to_wal [simp]: "reads (log_to_wal e ev c w) = Suc (Suc (reads w))"
  by (simp_all add: log_to_wal_eq wal_io_def)

lemma save_data_simps [simp]:
  "tasks_json (fs (save_data d w)) = Valid d" "reads (save_data d w) = reads w"
  "uuids (save_data d w) = uuids w"
  by (simp_all add: save_data_def)

lemma replay_no_store_write:
  "list_all (\<lambda>a. \<not> touches_store a) ios \<Longrightarrow> tasks_json (replay f ios) = tasks_json f"
  by (induction ios arbitrary: f) simp_all

section \<open>The session file\<close>

lemma session_velocity_pct:
  fixes a est :: int
  assumes "0 < est"
  shows "\<lfloor>(1 - of_int a / of_int est) * 100 :: rat\<rfloor> = ((est - a) * 100) div est"
    and "\<lfloor>(of_int a / of_int est - 1) * 100 :: rat\<rfloor> = ((a - est) * 100) div est"
proof -
  have "(1 - of_int a / of_int est) * 100 = (of_int ((est - a) * 100) / of_int est :: rat)"
    "(of_int a / of_int est - 1) * 100 = (of_int ((a - est) * 100) / of_int est :: rat)"
    using assms by (simp_all add: field_simps)
  then show "\<lfloor>(1 - of_int a / of_int est) * 100 :: rat\<rfloor> = ((est - a) * 100) div est"
    and "\<lfloor>(of_int a / of_int est - 1) * 100 :: rat\<rfloor> = ((a - est) * 100) div est"
    by (simp_all only: floor_divide_of_int_eq)
qed


text \<open>
  C40. Below the estimate, with no negative time logged, the percentage faster is
  between 0 and 100, and it is 0, so that the file reads "0\<percent> faster than
  estimate", exactly when the logged time is within 1\<percent> of the estimate.
\<close>

theorem session_velocity_faster_bounds:
  assumes "0 < est" and "0 \<le> a" and "a < est"
  shows "\<exists>n. session_velocity a est = show_int n @ ''% faster than estimate'' \<and> 0 \<le> n \<and> n \<le> 100 \<and>
     (n = 0 \<longleftrightarrow> (est - a) * 100 < est)"
proof -
  let ?n = "((est - a) * 100) div est"
  have b: "?n \<le> (est * 100) div est"
    by (rule zdiv_mono1) (use assms in auto)
  have "session_velocity a est = show_int ?n @ ''% faster than estimate''"
    using assms session_velocity_pct [OF assms(1), of a] unfolding session_velocity_def Let_def
    by (simp add: divide_less_eq)
  moreover have "0 \<le> ?n" using assms by (simp add: pos_imp_zdiv_nonneg_iff)
  moreover have "?n \<le> 100" using b assms by simp
  moreover have "0 < ?n \<longleftrightarrow> est \<le> (est - a) * 100"
    using assms(1) by (rule pos_imp_zdiv_pos_iff)
  ultimately show ?thesis by auto
qed

end
