(* ===== verification/Phase1.thy ===== *)
theory Phase1
  imports World
begin

text \<open>
  The phase-1 commands of \<^verbatim>\<open>src/scripts/task_manager_phase1.py\<close>: \<open>mark_progress\<close>
  (lines 67--92), \<open>mark_blocked\<close> (94--109), \<open>unblock_task\<close> (111--126), \<open>log_time\<close>
  (128--163), \<open>create_recurring\<close> (165--193), \<open>next_recurring\<close> (195--253) and
  \<open>show_velocity\<close> (255--294). They load the store with the forgiving phase-1
  \<open>load_data\<close> (which backs up a corrupt file), write no WAL, and save once at the end.
\<close>

section \<open>Loading\<close>

text \<open>\<open>load_data\<close> with its side effect: the copy to \<^verbatim>\<open>tasks.json.bak\<close>.\<close>

definition load1 :: "world \<Rightarrow> store \<times> world" where
  "load1 w = (case load_data1 (tasks_json (fs w)) of (d, b) \<Rightarrow> (d, if b then perform Backup w else w))"

section \<open>mark\_progress\<close>

definition mark_progress1 :: "env \<Rightarrow> string \<Rightarrow> string \<Rightarrow> world \<Rightarrow> (error + task) \<times> world" where
  "mark_progress1 e tid ps w =
     (let (d, w0) = load1 w
      in case find_task_by_id d tid of
           None \<Rightarrow> (Inl (TaskNotFound tid), w0)
         | Some k \<Rightarrow>
           (case int_of_arg ps of
              Inl err \<Rightarrow> (Inl err, w0)
            | Inr p \<Rightarrow>
             if \<not> (0 \<le> p \<and> p \<le> 100) then (Inl ProgressOutOfRange, w0)
             else
               let t = tasks d ! k;
                   (u, w1) = now e w0;
                   t1 = t\<lparr>progress := Some p, updated_at := Some (stamp e u)\<rparr>;
                   (t2, w2) = (if p = 100 \<and> status t1 = In_progress
                               then let (c, w2) = now e w1
                                    in (t1\<lparr>status := Completed, completed_at := Some (stamp e c)\<rparr>, w2)
                               else if 0 < p \<and> status t1 = Pending
                               then (t1\<lparr>status := In_progress\<rparr>, w1)
                               else (t1, w1));
                   w3 = save_data (set_task d k t2) w2
               in (Inr t2, w3)))"

section \<open>mark\_blocked and unblock\_task\<close>

definition mark_blocked1 :: "env \<Rightarrow> string \<Rightarrow> string \<Rightarrow> world \<Rightarrow> (error + task) \<times> world" where
  "mark_blocked1 e tid r w =
     (let (d, w0) = load1 w
      in case find_task_by_id d tid of
           None \<Rightarrow> (Inl (TaskNotFound tid), w0)
         | Some k \<Rightarrow>
             let (u, w1) = now e w0;
                 t1 = (tasks d ! k)\<lparr>status := Blocked, blocked_reason := Has r,
                                    updated_at := Some (stamp e u)\<rparr>
             in (Inr t1, save_data (set_task d k t1) w1))"

definition unblock_task :: "env \<Rightarrow> string \<Rightarrow> world \<Rightarrow> (error + task) \<times> world" where
  "unblock_task e tid w =
     (let (d, w0) = load1 w
      in case find_task_by_id d tid of
           None \<Rightarrow> (Inl (TaskNotFound tid), w0)
         | Some k \<Rightarrow>
             let (u, w1) = now e w0;
                 t1 = (tasks d ! k)\<lparr>status := Pending, blocked_reason := JNull,
                                    updated_at := Some (stamp e u)\<rparr>
             in (Inr t1, save_data (set_task d k t1) w1))"

section \<open>log\_time\<close>

text \<open>
  Lines 144--149: the variance is recomputed whenever an estimate is present;
  a non-positive estimate gives 0.
\<close>

definition variance :: "int \<Rightarrow> int \<Rightarrow> rat" where
  "variance actual est =
     py_round 1 (if 0 < est then (of_int (actual - est) / of_int est) * 100 else 0)"

definition log_time1 :: "env \<Rightarrow> string \<Rightarrow> string \<Rightarrow> world \<Rightarrow> (error + task) \<times> world" where
  "log_time1 e tid ms w =
     (let (d, w0) = load1 w
      in case find_task_by_id d tid of
           None \<Rightarrow> (Inl (TaskNotFound tid), w0)
         | Some k \<Rightarrow>
           (case int_of_arg ms of
              Inl err \<Rightarrow> (Inl err, w0)
            | Inr m \<Rightarrow>
             let t = tasks d ! k;
                 a = get_or (actual_minutes t) 0 + m;
                 (u, w1) = now e w0;
                 t1 = t\<lparr>actual_minutes := Some a, updated_at := Some (stamp e u)\<rparr>;
                 t2 = (case estimate_minutes t1 of
                         None \<Rightarrow> t1
                       | Some est \<Rightarrow> t1\<lparr>time_variance_percent := Some (variance a est)\<rparr>)
             in (Inr t2, save_data (set_task d k t2) w1)))"

section \<open>create\_recurring\<close>

text \<open>
  Lines 187--188: \<open>if args.estimate: task["estimate_minutes"] = int(args.estimate)\<close>. An
  absent or empty \<open>--estimate\<close> leaves the key out; anything else must parse.
\<close>

definition estimate_arg :: "string option \<Rightarrow> error + int option" where
  "estimate_arg a =
     (if truthy_str a then (case int_of_arg (the a) of Inl err \<Rightarrow> Inl err | Inr n \<Rightarrow> Inr (Some n))
      else Inr None)"

text \<open>
  Lines 165--193. The dict literal is evaluated in order: the identifier first, then
  the two clock reads for \<open>next_due_at\<close> and \<open>created_at\<close>; the estimate is parsed
  after them, before the save. \<open>--priority\<close> defaults to \<open>medium\<close>.
\<close>

definition create_recurring ::
  "env \<Rightarrow> string \<Rightarrow> string \<Rightarrow> string \<Rightarrow> string option \<Rightarrow> string option \<Rightarrow> world \<Rightarrow>
     (error + task) \<times> world" where
  "create_recurring e gid ttl rec prio est w =
     (let (d, w0) = load1 w
      in case find_goal_by_id d gid of
           None \<Rightarrow> (Inl (GoalNotFound gid), w0)
         | Some g \<Rightarrow>
             let (i, w1) = generate_id e ''task'' w0;
                 (c1, w2) = now e w1;
                 (c2, w3) = now e w2;
                 t = \<lparr>t_id = i, goal_id = Some gid, title = ttl, priority = get_or prio ''medium'',
                      status = Pending, progress = Some 0, estimate_minutes = None,
                      actual_minutes = None, time_variance_percent = None,
                      blocked_reason = Missing, recurring = Has rec,
                      next_due_at = Some (stamp e c1), created_at = Some (stamp e c2),
                      updated_at = None, completed_at = None, t_notes = Some [],
                      last_error = None, retry_count = None\<rparr>
             in case estimate_arg est of
                  Inl err \<Rightarrow> (Inl err, w3)
                | Inr em \<Rightarrow>
                    let t' = t\<lparr>estimate_minutes := em\<rparr>
                    in (Inr t', save_data (d\<lparr>tasks := tasks d @ [t']\<rparr>) w3))"

section \<open>next\_recurring\<close>

text \<open>
  Lines 229--238: the interval to the next occurrence, in microseconds. Any other
  value of \<open>task["recurring"]\<close> (\<open>after_completion\<close>, \<open>None\<close>, an unknown string)
  gives the current time.
\<close>

definition day_us :: int where
  "day_us = 86400 * 1000000"

definition recur_delta :: "string jfield \<Rightarrow> int" where
  "recur_delta r =
     (if r = Has ''daily'' then day_us
      else if r = Has ''weekly'' then 7 * day_us
      else if r = Has ''monthly'' then 30 * day_us
      else 0)"

text \<open>
  Lines 204--206: a task is refused as not recurring only when its \<open>recurring\<close> key is
  absent or holds the string \<open>none\<close>.
\<close>

definition is_recurring1 :: "task \<Rightarrow> bool" where
  "is_recurring1 t \<longleftrightarrow> \<not> (jget (recurring t) = Some ''none'' \<or> \<not> jin (recurring t))"

definition next_recurring ::
  "env \<Rightarrow> string \<Rightarrow> world \<Rightarrow> (error + task \<times> task) \<times> world" where
  "next_recurring e tid w =
     (let (d, w0) = load1 w
      in case find_task_by_id d tid of
           None \<Rightarrow> (Inl (TaskNotFound tid), w0)
         | Some k \<Rightarrow>
             let t = tasks d ! k
             in if \<not> is_recurring1 t then (Inl NotRecurring, w0)
                else if get_or (progress t) 0 < 100 then (Inl (IncompleteTask (get_or (progress t) 0)), w0)
                else
                  let (c1, w1) = now e w0;
                      t1 = t\<lparr>status := Completed, completed_at := Some (stamp e c1), progress := Some 100\<rparr>;
                      (i, w2) = generate_id e ''task'' w1;
                      (c2, w3) = now e w2;
                      n1 = t1\<lparr>t_id := i, status := Pending, progress := Some 0,
                              created_at := Some (stamp e c2), actual_minutes := Some 0\<rparr>;
                      (c3, w4) = now e w3;
                      n2 = n1\<lparr>next_due_at := Some (stamp e (c3 + recur_delta (recurring t1))),
                              completed_at := None, last_error := None, retry_count := None,
                              blocked_reason := Missing\<rparr>;
                      d' = (set_task d k t1)\<lparr>tasks := (tasks d)[k := t1] @ [n2]\<rparr>
                  in (Inr (t1, n2), save_data d' w4))"

section \<open>show\_velocity\<close>

text \<open>\<open>by_day[date] += 1\<close> on a dict that keeps first-insertion order.\<close>

fun bump_day :: "(string \<times> nat) list \<Rightarrow> string \<Rightarrow> (string \<times> nat) list" where
  "bump_day [] day = [(day, 1)]"
| "bump_day ((k, n) # xs) day = (if k = day then (k, Suc n) # xs else (k, n) # bump_day xs day)"

text \<open>One pass of the loop over the completed tasks (lines 274--277).\<close>

definition tally_day :: "task \<Rightarrow> (string \<times> nat) list \<Rightarrow> (string \<times> nat) list" where
  "tally_day t acc = (case completed_at t of None \<Rightarrow> acc | Some ca \<Rightarrow> bump_day acc (split_T_head ca))"

definition count_by_day :: "task list \<Rightarrow> (string \<times> nat) list" where
  "count_by_day ts = fold tally_day ts []"

record velocity_report =
  v_completed :: nat
  v_remaining :: nat
  v_days_tracked :: nat
  v_velocity :: rat
  v_days_to_completion :: rat
  v_by_day :: "(string \<times> nat) list"

definition show_velocity :: "string \<Rightarrow> world \<Rightarrow> (error + velocity_report) \<times> world" where
  "show_velocity gid w =
     (let (d, w0) = load1 w
      in case find_goal_by_id d gid of
           None \<Rightarrow> (Inl (GoalNotFound gid), w0)
         | Some g \<Rightarrow>
             if \<exists>t \<in> set (tasks d). goal_id t = None then (Inl (KeyError ''goal_id''), w0)
             else
               let completed = filter (\<lambda>t. goal_id t = Some gid \<and> status t = Completed) (tasks d);
                   by_day = count_by_day completed;
                   remaining = filter (\<lambda>t. goal_id t = Some gid \<and> status t \<noteq> Completed) (tasks d);
                   vel = (if by_day \<noteq> [] then of_nat (length completed) / of_nat (length by_day) else 0);
                   days = (if 0 < vel then of_nat (length remaining) / vel else 0)
               in (Inr \<lparr>v_completed = length completed, v_remaining = length remaining,
                        v_days_tracked = length by_day, v_velocity = py_round 2 vel,
                        v_days_to_completion = py_round 1 days, v_by_day = sort_key fst by_day\<rparr>, w0))"

section \<open>Lemmas\<close>

lemma load1_Valid [simp]: "tasks_json (fs w) = Valid d \<Longrightarrow> load1 w = (d, w)"
  by (simp add: load1_def)

lemma load1_world:
  "tasks_json (fs (snd (load1 w))) = tasks_json (fs w) \<and> reads (snd (load1 w)) = reads w \<and>
   uuids (snd (load1 w)) = uuids w \<and> extends w (snd (load1 w)) \<and>
   list_all (\<lambda>a. \<not> touches_store a) (new_io w (snd (load1 w)))"
  by (cases "tasks_json (fs w)" rule: load_data1.cases) (simp_all add: load1_def)

lemma py_round_dist: "\<bar>py_round n x - x\<bar> \<le> 1 / (2 * 10 ^ n)"
proof -
  define y where "y = x * 10 ^ n"
  have pos: "(0::rat) < 10 ^ n" by simp
  have "py_round n x - x = (of_int (round_half_even y) - y) / 10 ^ n"
    by (simp add: py_round_def y_def diff_divide_distrib)
  then have "\<bar>py_round n x - x\<bar> = \<bar>of_int (round_half_even y) - y\<bar> / 10 ^ n"
    by (simp add: abs_divide)
  also have "\<dots> \<le> (1 / 2) / 10 ^ n"
    by (intro divide_right_mono round_half_even_dist) simp
  finally show ?thesis by simp
qed

text \<open>Each command on a store that holds the task, branch by branch: the clock reads, the
  identifier drawn, the task written and the one save at the end.\<close>

lemma mark_progress1_eq:
  assumes "load1 w = (d, w0)" "find_task_by_id d tid = Some k" "py_int ps = Some p" "0 \<le> p" "p \<le> 100"
  shows "mark_progress1 e tid ps w =
     (let t1 = (tasks d ! k)\<lparr>progress := Some p, updated_at := Some (stamp e (clock e (reads w0)))\<rparr>
      in if p = 100 \<and> status t1 = In_progress
         then let t2 = t1\<lparr>status := Completed, completed_at := Some (stamp e (clock e (Suc (reads w0))))\<rparr>
              in (Inr t2, save_data (set_task d k t2) (w0\<lparr>reads := Suc (Suc (reads w0))\<rparr>))
         else let t2 = if 0 < p \<and> status t1 = Pending then t1\<lparr>status := In_progress\<rparr> else t1
              in (Inr t2, save_data (set_task d k t2) (w0\<lparr>reads := Suc (reads w0)\<rparr>)))"
  using assms by (simp add: mark_progress1_def now_def Let_def)

lemma log_time1_eq:
  assumes "load1 w = (d, w0)" "find_task_by_id d tid = Some k" "py_int ms = Some m"
  shows "log_time1 e tid ms w =
     (let a = get_or (actual_minutes (tasks d ! k)) 0 + m;
          t1 = (tasks d ! k)\<lparr>actual_minutes := Some a, updated_at := Some (stamp e (clock e (reads w0)))\<rparr>;
          t2 = (case estimate_minutes t1 of None \<Rightarrow> t1
                | Some est \<Rightarrow> t1\<lparr>time_variance_percent := Some (variance a est)\<rparr>)
      in (Inr t2, save_data (set_task d k t2) (w0\<lparr>reads := Suc (reads w0)\<rparr>)))"
  using assms by (simp add: log_time1_def now_def Let_def)

lemma mark_blocked1_eq:
  assumes "load1 w = (d, w0)" "find_task_by_id d tid = Some k"
  shows "mark_blocked1 e tid r w =
     (let t1 = (tasks d ! k)\<lparr>status := Blocked, blocked_reason := Has r,
                             updated_at := Some (stamp e (clock e (reads w0)))\<rparr>
      in (Inr t1, save_data (set_task d k t1) (w0\<lparr>reads := Suc (reads w0)\<rparr>)))"
  using assms by (simp add: mark_blocked1_def now_def Let_def)

lemma unblock_task_eq:
  assumes "load1 w = (d, w0)" "find_task_by_id d tid = Some k"
  shows "unblock_task e tid w =
     (let t1 = (tasks d ! k)\<lparr>status := Pending, blocked_reason := JNull,
                             updated_at := Some (stamp e (clock e (reads w0)))\<rparr>
      in (Inr t1, save_data (set_task d k t1) (w0\<lparr>reads := Suc (reads w0)\<rparr>)))"
  using assms by (simp add: unblock_task_def now_def Let_def)

lemma next_recurring_eq:
  assumes "load1 w = (d, w0)" "find_task_by_id d tid = Some k"
    "is_recurring1 (tasks d ! k)" "100 \<le> get_or (progress (tasks d ! k)) 0"
  shows "next_recurring e tid w =
     (let t = tasks d ! k;
          t1 = t\<lparr>status := Completed, completed_at := Some (stamp e (clock e (reads w0))), progress := Some 100\<rparr>;
          n2 = t1\<lparr>t_id := ''task_'' @ take 8 (uuid_hex e (uuids w0)), status := Pending, progress := Some 0,
                  created_at := Some (stamp e (clock e (Suc (reads w0)))), actual_minutes := Some 0,
                  next_due_at := Some (stamp e (clock e (Suc (Suc (reads w0))) + recur_delta (recurring t))),
                  completed_at := None, last_error := None, retry_count := None, blocked_reason := Missing\<rparr>
      in (Inr (t1, n2), save_data (d\<lparr>tasks := (tasks d)[k := t1] @ [n2]\<rparr>)
                          (w0\<lparr>uuids := Suc (uuids w0), reads := Suc (Suc (Suc (reads w0)))\<rparr>)))"
  using assms by (simp add: next_recurring_def now_def generate_id_def Let_def not_less set_task_def)

lemma create_recurring_eq:
  assumes "load1 w = (d, w0)" "find_goal_by_id d gid = Some g" "estimate_arg est = Inr em"
  shows "create_recurring e gid ttl rec prio est w =
     (let t = \<lparr>t_id = ''task_'' @ take 8 (uuid_hex e (uuids w0)), goal_id = Some gid, title = ttl,
               priority = get_or prio ''medium'', status = Pending, progress = Some 0,
               estimate_minutes = em, actual_minutes = None, time_variance_percent = None,
               blocked_reason = Missing, recurring = Has rec,
               next_due_at = Some (stamp e (clock e (reads w0))),
               created_at = Some (stamp e (clock e (Suc (reads w0)))),
               updated_at = None, completed_at = None, t_notes = Some [],
               last_error = None, retry_count = None\<rparr>
      in (Inr t, save_data (d\<lparr>tasks := tasks d @ [t]\<rparr>)
                   (w0\<lparr>uuids := Suc (uuids w0), reads := Suc (Suc (reads w0))\<rparr>)))"
  using assms by (simp add: create_recurring_def now_def generate_id_def Let_def)
text \<open>The early exits: nothing is written after loading.\<close>

lemma phase1_TaskNotFound:
  assumes "find_task_by_id (fst (load1 w)) tid = None"
  shows "mark_progress1 e tid ps w = (Inl (TaskNotFound tid), snd (load1 w))"
    "mark_blocked1 e tid r w = (Inl (TaskNotFound tid), snd (load1 w))"
    "unblock_task e tid w = (Inl (TaskNotFound tid), snd (load1 w))"
    "log_time1 e tid ms w = (Inl (TaskNotFound tid), snd (load1 w))"
    "next_recurring e tid w = (Inl (TaskNotFound tid), snd (load1 w))"
  using assms
  by (cases "load1 w";
      simp add: mark_progress1_def mark_blocked1_def unblock_task_def log_time1_def next_recurring_def)+

lemma mark_progress1_range:
  assumes "find_task_by_id (fst (load1 w)) tid = Some k" "py_int ps = Some p" "\<not> (0 \<le> p \<and> p \<le> 100)"
  shows "mark_progress1 e tid ps w = (Inl ProgressOutOfRange, snd (load1 w))"
  using assms by (cases "load1 w") (simp add: mark_progress1_def)

text \<open>\<open>int()\<close> of an argument that is not an integer raises after the lookup.\<close>

lemma phase1_ValueError:
  assumes "find_task_by_id (fst (load1 w)) tid = Some k"
  shows "py_int ps = None \<Longrightarrow> mark_progress1 e tid ps w = (Inl (ValueError ps), snd (load1 w))"
    "py_int ms = None \<Longrightarrow> log_time1 e tid ms w = (Inl (ValueError ms), snd (load1 w))"
  using assms by (cases "load1 w"; simp add: mark_progress1_def log_time1_def)+

lemma estimate_arg_Inl: "estimate_arg est = Inl err \<Longrightarrow> \<exists>s. est = Some s \<and> py_int s = None \<and> err = ValueError s"
  by (cases est) (auto simp: estimate_arg_def int_of_arg_Inl_iff split: if_splits sum.splits)

lemma create_recurring_ValueError:
  assumes "load1 w = (d, w0)" "find_goal_by_id d gid = Some g" "estimate_arg est = Inl err"
  shows "create_recurring e gid ttl rec prio est w =
     (Inl err, w0\<lparr>uuids := Suc (uuids w0), reads := Suc (Suc (reads w0))\<rparr>)"
  using assms by (simp add: create_recurring_def now_def generate_id_def Let_def)

lemma next_recurring_reject:
  assumes "find_task_by_id (fst (load1 w)) tid = Some k"
    "\<not> (is_recurring1 (tasks (fst (load1 w)) ! k) \<and> 100 \<le> get_or (progress (tasks (fst (load1 w)) ! k)) 0)"
  shows "next_recurring e tid w =
    (Inl (if is_recurring1 (tasks (fst (load1 w)) ! k)
          then IncompleteTask (get_or (progress (tasks (fst (load1 w)) ! k)) 0) else NotRecurring),
     snd (load1 w))"
  using assms by (cases "load1 w") (auto simp: next_recurring_def Let_def not_le)

lemma create_recurring_GoalNotFound:
  assumes "find_goal_by_id (fst (load1 w)) gid = None"
  shows "create_recurring e gid ttl rec prio est w = (Inl (GoalNotFound gid), snd (load1 w))"
  using assms by (cases "load1 w") (simp add: create_recurring_def)

text \<open>The day histogram of \<open>show_velocity\<close>: one entry per date, counts adding up.\<close>

definition completion_days :: "task list \<Rightarrow> string list" where
  "completion_days ts = List.map_filter (\<lambda>t. map_option split_T_head (completed_at t)) ts"

lemma bump_day_keys: "fst ` set (bump_day xs day) = insert day (fst ` set xs)"
  by (induction xs day rule: bump_day.induct) auto

lemma bump_day_distinct: "distinct (map fst xs) \<Longrightarrow> distinct (map fst (bump_day xs day))"
proof (induction xs day rule: bump_day.induct)
  case (2 k n xs day)
  then show ?case using bump_day_keys [of xs day] by auto
qed simp

lemma bump_day_sum: "sum_list (map snd (bump_day xs day)) = Suc (sum_list (map snd xs))"
  by (induction xs day rule: bump_day.induct) auto

lemma tally_day_props:
  "fst ` set (tally_day t acc) = fst ` set acc \<union> set (completion_days [t])"
  "distinct (map fst acc) \<Longrightarrow> distinct (map fst (tally_day t acc))"
  "sum_list (map snd (tally_day t acc)) = sum_list (map snd acc) + length (filter (\<lambda>t. completed_at t \<noteq> None) [t])"
  by (cases "completed_at t";
      simp add: tally_day_def completion_days_def map_filter_simps bump_day_keys bump_day_distinct bump_day_sum)+

lemma completion_days_Cons: "set (completion_days (t # ts)) = set (completion_days [t]) \<union> set (completion_days ts)"
  by (cases "completed_at t") (simp_all add: completion_days_def map_filter_simps)

lemma count_by_day_fold:
  "fst ` set (fold tally_day ts acc) = fst ` set acc \<union> set (completion_days ts) \<and>
    (distinct (map fst acc) \<longrightarrow> distinct (map fst (fold tally_day ts acc))) \<and>
    sum_list (map snd (fold tally_day ts acc)) = sum_list (map snd acc) + length (filter (\<lambda>t. completed_at t \<noteq> None) ts)"
proof (induction ts arbitrary: acc)
  case Nil
  then show ?case by (simp add: completion_days_def map_filter_simps)
next
  case (Cons t ts)
  show ?case
    using Cons.IH [of "tally_day t acc"] completion_days_Cons [of t ts]
    by (auto simp: tally_day_props)
qed

lemma count_by_day_props:
  "fst ` set (count_by_day ts) = set (completion_days ts)"
  "distinct (map fst (count_by_day ts))"
  "sum_list (map snd (count_by_day ts)) = length (filter (\<lambda>t. completed_at t \<noteq> None) ts)"
  using count_by_day_fold [of ts "[]"] by (simp_all add: count_by_day_def)

lemma count_by_day_length: "length (count_by_day ts) = card (set (completion_days ts))"
  using distinct_card [OF count_by_day_props(2)] count_by_day_props(1) by simp


section \<open>Properties of the phase-1 handlers\<close>

text \<open>
  C11. \<open>mark_progress\<close> of phase 1 rejects a progress argument that is not an integer
  in 0..100 before any write: the run ends with an error and \<^verbatim>\<open>tasks.json\<close> is as it
  was.
\<close>

theorem mark_progress1_rejects_out_of_range:
  assumes "\<forall>p. py_int ps = Some p \<longrightarrow> \<not> (0 \<le> p \<and> p \<le> 100)"
  shows "\<exists>err. mark_progress1 e tid ps w = (Inl err, snd (load1 w)) \<and>
     tasks_json (fs (snd (load1 w))) = tasks_json (fs w)"
proof (cases "find_task_by_id (fst (load1 w)) tid")
  case None
  then show ?thesis using phase1_TaskNotFound(1) [OF None] load1_world by blast
next
  case (Some k)
  show ?thesis
  proof (cases "py_int ps")
    case None
    then show ?thesis using phase1_ValueError(1) [OF Some None] load1_world by blast
  next
    case (Some p)
    then show ?thesis using mark_progress1_range [OF \<open>_ = Some k\<close> Some] assms load1_world by blast
  qed
qed

text \<open>
  C17. Progress 100 on a pending task does not complete it, and does not leave its
  status unchanged either: the second transition rule fires and the task becomes
  \<open>in_progress\<close>, with no completion time.
\<close>

theorem mark_progress1_pending_full:
  assumes "load1 w = (d, w0)" and "find_task_by_id d tid = Some k"
    and "status (tasks d ! k) = Pending" and "py_int ps = Some 100"
  shows "\<exists>t' w'. mark_progress1 e tid ps w = (Inr t', w') \<and>
     status t' = In_progress \<and> progress t' = Some 100 \<and> completed_at t' = completed_at (tasks d ! k) \<and>
     tasks_json (fs w') = Valid (set_task d k t')"
  using assms(3) by (simp add: mark_progress1_eq [OF assms(1,2,4)] Let_def)

text \<open>
  C18. On a completed task, \<open>mark_progress\<close> of phase 1 writes any progress in range
  and keeps the status: a completed task with progress below 100 is saved, the state
  the health check reports as impossible.
\<close>

theorem mark_progress1_reopens_completed:
  assumes "load1 w = (d, w0)" and "find_task_by_id d tid = Some k"
    and "status (tasks d ! k) = Completed" and "py_int ps = Some p" and "0 \<le> p" and "p < 100"
  shows "\<exists>t' w'. mark_progress1 e tid ps w = (Inr t', w') \<and>
     status t' = Completed \<and> progress t' = Some p \<and> tasks_json (fs w') = Valid (set_task d k t')"
  using assms(3,5,6) by (simp add: mark_progress1_eq [OF assms(1,2,4)] Let_def)

text \<open>
  C26. The variance \<open>log_time\<close> of phase 1 stores is the relative overrun in percent,
  rounded to one decimal: within 0.05 of \<open>(actual - estimate) / estimate * 100\<close>.
\<close>

theorem log_time1_variance:
  assumes "load1 w = (d, w0)" and "find_task_by_id d tid = Some k" and "py_int ms = Some m"
    and "estimate_minutes (tasks d ! k) = Some est" and "0 < est"
  shows "\<exists>t' v. fst (log_time1 e tid ms w) = Inr t' \<and> time_variance_percent t' = Some v \<and>
     actual_minutes t' = Some (get_or (actual_minutes (tasks d ! k)) 0 + m) \<and>
     \<bar>v - of_int (get_or (actual_minutes (tasks d ! k)) 0 + m - est) / of_int est * 100\<bar> \<le> 1 / 20"
  using assms(4,5) py_round_dist [of 1 "of_int (get_or (actual_minutes (tasks d ! k)) 0 + m - est) / of_int est * 100"]
  by (simp add: log_time1_eq [OF assms(1-3)] Let_def variance_def)

text \<open>
  C27. Logging time in two calls stores the same total and the same variance as
  logging the sum in one call: both depend on the total only.
\<close>

theorem log_time1_additive:
  assumes "load1 w = (d, w0)" and "find_task_by_id d tid = Some k"
    and "py_int sa = Some ma" and "py_int sb = Some mb" and "py_int sab = Some (ma + mb)"
  shows "\<exists>t2 t3. fst (log_time1 e tid sb (snd (log_time1 e tid sa w))) = Inr t2 \<and>
     fst (log_time1 e' tid sab w) = Inr t3 \<and>
     actual_minutes t2 = actual_minutes t3 \<and> time_variance_percent t2 = time_variance_percent t3"
proof -
  have kl: "k < length (tasks d)" and tid: "t_id (tasks d ! k) = tid"
    using find_task_by_id_Some [OF assms(2)] by simp_all
  obtain t1 w1 where r1: "log_time1 e tid sa w = (Inr t1, save_data (set_task d k t1) w1)"
    and f1: "t_id t1 = tid" "actual_minutes t1 = Some (get_or (actual_minutes (tasks d ! k)) 0 + ma)"
      "estimate_minutes t1 = estimate_minutes (tasks d ! k)"
      "estimate_minutes (tasks d ! k) = None \<Longrightarrow> time_variance_percent t1 = time_variance_percent (tasks d ! k)"
    by (simp add: log_time1_eq [OF assms(1-3)] tid Let_def split: option.split)
  have l2: "load1 (save_data (set_task d k t1) w1) = (set_task d k t1, save_data (set_task d k t1) w1)"
    by simp
  have f2: "find_task_by_id (set_task d k t1) tid = Some k"
    using find_task_by_id_set_task [OF assms(2) f1(1)] .
  show ?thesis
    using kl f1 by (simp add: r1 log_time1_eq [OF l2 f2 assms(4)] log_time1_eq [OF assms(1,2,5), where e = e']
        Let_def add.assoc split: option.split)
qed

text \<open>
  C21. \<open>next_recurring\<close> refuses a task below 100\<percent> progress with no write: no
  successor is created and \<^verbatim>\<open>tasks.json\<close> is as it was.
\<close>

theorem next_recurring_rejects_incomplete:
  assumes "load1 w = (d, w0)" and "find_task_by_id d tid = Some k"
    and "get_or (progress (tasks d ! k)) 0 < 100"
  shows "\<exists>err. next_recurring e tid w = (Inl err, w0) \<and> tasks_json (fs w0) = tasks_json (fs w)"
  using next_recurring_reject [of w tid k e] assms load1_world [of w] by auto

text \<open>
  C22. An accepted rollover writes, in one save, the store with the task completed at
  100\<percent> and exactly one new task appended: pending, at 0\<percent> and 0 minutes,
  without completion time or block reason, with a fresh id, carrying the title,
  goal, recurrence, estimate, and also the old variance.
\<close>

theorem next_recurring_rollover:
  assumes "load1 w = (d, w0)" and "find_task_by_id d tid = Some k"
    and "is_recurring1 (tasks d ! k)" and "100 \<le> get_or (progress (tasks d ! k)) 0"
  shows "\<exists>t1 n w'. next_recurring e tid w = (Inr (t1, n), w') \<and>
     tasks_json (fs w') = Valid (d\<lparr>tasks := (tasks d)[k := t1] @ [n]\<rparr>) \<and>
     t_id t1 = tid \<and> status t1 = Completed \<and> progress t1 = Some 100 \<and> completed_at t1 \<noteq> None \<and>
     status n = Pending \<and> progress n = Some 0 \<and> actual_minutes n = Some 0 \<and>
     completed_at n = None \<and> blocked_reason n = Missing \<and>
     t_id n = ''task_'' @ take 8 (uuid_hex e (uuids w0)) \<and>
     title n = title (tasks d ! k) \<and> goal_id n = goal_id (tasks d ! k) \<and>
     recurring n = recurring (tasks d ! k) \<and> estimate_minutes n = estimate_minutes (tasks d ! k) \<and>
     time_variance_percent n = time_variance_percent (tasks d ! k)"
  using find_task_by_id_Some [OF assms(2)]
  by (simp add: next_recurring_eq [OF assms] Let_def)

text \<open>
  C23. The successor's due time is the third clock reading of the rollover plus one
  day (86400 s) for \<open>daily\<close>, seven days for \<open>weekly\<close>, thirty days for
  \<open>monthly\<close> and nothing otherwise, in microseconds.
\<close>

theorem next_recurring_interval:
  assumes "load1 w = (d, w0)" and "find_task_by_id d tid = Some k"
    and "is_recurring1 (tasks d ! k)" and "100 \<le> get_or (progress (tasks d ! k)) 0"
  shows "\<exists>t1 n w'. next_recurring e tid w = (Inr (t1, n), w') \<and>
     next_due_at n = Some (stamp e (clock e (reads w0 + 2) +
       (if recurring (tasks d ! k) = Has ''daily'' then 86400000000
        else if recurring (tasks d ! k) = Has ''weekly'' then 604800000000
        else if recurring (tasks d ! k) = Has ''monthly'' then 2592000000000 else 0)))"
  by (simp add: next_recurring_eq [OF assms] Let_def recur_delta_def day_us_def)

text \<open>
  C24. Identifiers keep 8 hex digits of the uuid. When they equal those of a stored
  task's id, the rollover appends a successor that \<open>find_task_by_id\<close> never returns:
  the lookup of its id still finds the earlier task.
\<close>

theorem next_recurring_id_shadowed:
  assumes "load1 w = (d, w0)" and "find_task_by_id d tid = Some k"
    and "is_recurring1 (tasks d ! k)" and "100 \<le> get_or (progress (tasks d ! k)) 0"
    and "j < length (tasks d)" and "j \<noteq> k" and "t_id (tasks d ! j) = ''task_'' @ take 8 (uuid_hex e (uuids w0))"
  shows "\<exists>t1 n w' d'. next_recurring e tid w = (Inr (t1, n), w') \<and> tasks_json (fs w') = Valid d' \<and>
     tasks d' ! length (tasks d) = n \<and> find_task_by_id d' (t_id n) \<noteq> Some (length (tasks d))"
proof -
  define t1 where "t1 = (tasks d ! k)\<lparr>status := Completed,
    completed_at := Some (stamp e (clock e (reads w0))), progress := Some 100\<rparr>"
  have "t_id ((tasks d)[k := t1] ! j) = ''task_'' @ take 8 (uuid_hex e (uuids w0))"
    using assms(5-7) by simp
  then have "find_first (\<lambda>t. t_id t = ''task_'' @ take 8 (uuid_hex e (uuids w0))) ((tasks d)[k := t1] @ [x])
      \<noteq> Some (length ((tasks d)[k := t1]))" for x
    using assms(5) by (intro find_first_shadowed) simp_all
  then show ?thesis
    by (simp add: next_recurring_eq [OF assms(1-4)] Let_def find_task_by_id_def t1_def [symmetric] nth_append)
qed

text \<open>
  C30. \<open>create_recurring\<close> on a known goal appends one pending task at 0\<percent> with
  the given recurrence, due at the first clock reading, priority \<open>medium\<close> unless
  given; on an unknown goal it ends with \<open>GoalNotFound\<close> before any write.
\<close>

theorem create_recurring_result:
  assumes "load1 w = (d, w0)" and "estimate_arg est = Inr em"
  shows "(find_goal_by_id d gid = None \<longrightarrow> create_recurring e gid ttl rec prio est w = (Inl (GoalNotFound gid), w0)) \<and>
     (find_goal_by_id d gid \<noteq> None \<longrightarrow> (\<exists>t w'. create_recurring e gid ttl rec prio est w = (Inr t, w') \<and>
       tasks_json (fs w') = Valid (d\<lparr>tasks := tasks d @ [t]\<rparr>) \<and> status t = Pending \<and> progress t = Some 0 \<and>
       recurring t = Has rec \<and> goal_id t = Some gid \<and> priority t = get_or prio ''medium'' \<and>
       estimate_minutes t = em \<and> next_due_at t = Some (stamp e (clock e (reads w0)))))"
  using create_recurring_GoalNotFound [of w gid e ttl rec prio est] assms
  by (auto simp: create_recurring_eq [OF assms(1) _ assms(2)] Let_def)

lemma show_velocity_eq:
  assumes "load1 w = (d, w0)" and "find_goal_by_id d gid = Some g"
    and "\<forall>t \<in> set (tasks d). goal_id t \<noteq> None"
  shows "show_velocity gid w =
    (let completed = filter (\<lambda>t. goal_id t = Some gid \<and> status t = Completed) (tasks d);
         by_day = count_by_day completed;
         remaining = filter (\<lambda>t. goal_id t = Some gid \<and> status t \<noteq> Completed) (tasks d);
         vel = (if by_day \<noteq> [] then of_nat (length completed) / of_nat (length by_day) else 0);
         days = (if 0 < vel then of_nat (length remaining) / vel else 0)
     in (Inr \<lparr>v_completed = length completed, v_remaining = length remaining,
              v_days_tracked = length by_day, v_velocity = py_round 2 vel,
              v_days_to_completion = py_round 1 days, v_by_day = sort_key fst by_day\<rparr>, w0))"
proof -
  have "\<not> (\<exists>t \<in> set (tasks d). goal_id t = None)"
    using assms(3) by blast
  then show ?thesis
    using assms(1,2) unfolding show_velocity_def by (simp only: Let_def prod.case option.case if_False)
qed

text \<open>
  C28. \<open>show_velocity\<close> on a known goal whose store gives every task a goal: it counts
  the goal's completed and remaining tasks, its day histogram has one entry per
  distinct completion date, sorted ascending, whose counts add up to the completed
  tasks with a completion time, and it writes nothing.
\<close>

theorem show_velocity_counts:
  assumes "load1 w = (d, w0)" and "find_goal_by_id d gid = Some g"
    and "\<forall>t \<in> set (tasks d). goal_id t \<noteq> None"
  shows "\<exists>r. show_velocity gid w = (Inr r, w0) \<and>
     v_completed r = length (filter (\<lambda>t. goal_id t = Some gid \<and> status t = Completed) (tasks d)) \<and>
     v_remaining r = length (filter (\<lambda>t. goal_id t = Some gid \<and> status t \<noteq> Completed) (tasks d)) \<and>
     v_days_tracked r = card (set (completion_days (filter (\<lambda>t. goal_id t = Some gid \<and> status t = Completed) (tasks d)))) \<and>
     sorted (map fst (v_by_day r)) \<and> distinct (map fst (v_by_day r)) \<and>
     sum_list (map snd (v_by_day r)) =
       length (filter (\<lambda>t. goal_id t = Some gid \<and> status t = Completed \<and> completed_at t \<noteq> None) (tasks d))"
proof -
  let ?c = "filter (\<lambda>t. goal_id t = Some gid \<and> status t = Completed) (tasks d)"
  have "filter (\<lambda>t. completed_at t \<noteq> None) ?c =
      filter (\<lambda>t. goal_id t = Some gid \<and> status t = Completed \<and> completed_at t \<noteq> None) (tasks d)"
    by (simp add: filter_filter conj_assoc)
  then show ?thesis
    using count_by_day_props(2,3) [of ?c] count_by_day_length [of ?c]
    by (simp add: show_velocity_eq [OF assms] Let_def distinct_map_sort_key sum_list_map_sort_key)
qed
text \<open>
  C29. The two rates: with at least one completion date, the velocity is the number of
  completed tasks per date, rounded to two decimals, and the days to completion are
  the remaining tasks over that rate (before its rounding), rounded to one decimal.
\<close>

theorem show_velocity_rates:
  assumes "load1 w = (d, w0)" and "find_goal_by_id d gid = Some g"
    and "\<forall>t \<in> set (tasks d). goal_id t \<noteq> None"
    and "completion_days (filter (\<lambda>t. goal_id t = Some gid \<and> status t = Completed) (tasks d)) \<noteq> []"
  shows "\<exists>r. show_velocity gid w = (Inr r, w0) \<and>
     v_velocity r = py_round 2 (of_nat (v_completed r) / of_nat (v_days_tracked r)) \<and>
     v_days_to_completion r = py_round 1 (of_nat (v_remaining r) * of_nat (v_days_tracked r) / of_nat (v_completed r))"
proof -
  let ?c = "filter (\<lambda>t. goal_id t = Some gid \<and> status t = Completed) (tasks d)"
  have ne: "count_by_day ?c \<noteq> []"
    using assms(4) count_by_day_props(1) [of ?c] by auto
  have "length (completion_days ?c) \<le> length ?c"
    by (simp add: completion_days_def length_map_filter_le)
  with assms(4) have cpos: "0 < length ?c" by (cases ?c) simp_all
  let ?r = "filter (\<lambda>t. goal_id t = Some gid \<and> status t \<noteq> Completed) (tasks d)"
  let ?b = "count_by_day ?c"
  have pos: "0 < (of_nat (length ?c) / of_nat (length ?b) :: rat)"
    using ne cpos by simp
  have "show_velocity gid w = (Inr \<lparr>v_completed = length ?c, v_remaining = length ?r,
      v_days_tracked = length ?b, v_velocity = py_round 2 (of_nat (length ?c) / of_nat (length ?b)),
      v_days_to_completion = py_round 1 (of_nat (length ?r) * of_nat (length ?b) / of_nat (length ?c)),
      v_by_day = sort_key fst ?b\<rparr>, w0)"
    using assms(1-3) ne pos by (simp add: show_velocity_def Let_def)
  then show ?thesis by simp
qed

text \<open>
  C25. A recurrence can always go on: after a rollover whose new id is fresh, marking
  the successor 100\<percent> done (it becomes \<open>in_progress\<close> at 100) lets
  \<open>next_recurring\<close> roll it over in turn.
\<close>

theorem recurrence_continues:
  assumes "load1 w = (d, w0)" and "find_task_by_id d tid = Some k"
    and "is_recurring1 (tasks d ! k)" and "100 \<le> get_or (progress (tasks d ! k)) 0"
    and "\<forall>t \<in> set (tasks d). t_id t \<noteq> ''task_'' @ take 8 (uuid_hex e (uuids w0))"
  shows "\<exists>t1 n w1 t2 w2 r w3. next_recurring e tid w = (Inr (t1, n), w1) \<and>
     mark_progress1 e (t_id n) ''100'' w1 = (Inr t2, w2) \<and> next_recurring e (t_id n) w2 = (Inr r, w3)"
proof -
  let ?i = "''task_'' @ take 8 (uuid_hex e (uuids w0))"
  have k: "k < length (tasks d)" "t_id (tasks d ! k) = tid" using find_task_by_id_Some [OF assms(2)] by simp_all
  obtain t1 n d1 w1' where r1: "next_recurring e tid w = (Inr (t1, n), save_data d1 w1')"
    and d1: "d1 = d\<lparr>tasks := (tasks d)[k := t1] @ [n]\<rparr>" and t1: "t_id t1 = tid"
    and n: "t_id n = ?i" "status n = Pending" "recurring n = recurring (tasks d ! k)"
    using k by (simp add: next_recurring_eq [OF assms(1-4)] Let_def)
  let ?j = "length (tasks d)"
  have f1: "find_task_by_id d1 ?i = Some ?j"
    using assms(5) k t1 n(1) unfolding d1 find_task_by_id_def
    by (auto simp: find_first_Some_iff nth_append nth_list_update)
  have l1: "load1 (save_data d1 w1') = (d1, save_data d1 w1')" by simp
  have nj: "tasks d1 ! ?j = n" by (simp add: d1 nth_append)
  have h: "py_int ''100'' = Some 100" by (simp add: py_simps)
  obtain t2 w2' where r2: "mark_progress1 e ?i ''100'' (save_data d1 w1') = (Inr t2, save_data (set_task d1 ?j t2) w2')"
    and t2: "t_id t2 = ?i" "recurring t2 = recurring n" "progress t2 = Some 100"
    using mark_progress1_eq [OF l1 f1 h, where e = e] n nj by (simp add: Let_def)
  have l2: "load1 (save_data (set_task d1 ?j t2) w2') = (set_task d1 ?j t2, save_data (set_task d1 ?j t2) w2')"
    by simp
  have f2: "find_task_by_id (set_task d1 ?j t2) ?i = Some ?j"
    using find_task_by_id_set_task [OF f1 t2(1)] .
  have j2: "tasks (set_task d1 ?j t2) ! ?j = t2" by (simp add: d1)
  have "is_recurring1 (tasks (set_task d1 ?j t2) ! ?j)" "100 \<le> get_or (progress (tasks (set_task d1 ?j t2) ! ?j)) 0"
    using assms(3) j2 t2 n(3) by (simp_all add: is_recurring1_def)
  from next_recurring_eq [OF l2 f2 this, of e] obtain r w3 where
    "next_recurring e ?i (save_data (set_task d1 ?j t2) w2') = (Inr r, w3)"
    by (simp add: Let_def)
  with r1 r2 n(1) show ?thesis by auto
qed

end
