(* ===== verification/Phase2.thy ===== *)
theory Phase2
  imports World
begin

text \<open>
  The phase-2 commands of \<^verbatim>\<open>src/scripts/task_manager_phase2.py\<close>: \<open>mark_progress\<close>,
  \<open>log_time\<close> and \<open>mark_blocked\<close> with write-ahead logging (lines 158--317),
  \<open>health_check\<close> (lines 320--381) and \<open>flush_working_buffer\<close> (lines 384--412).
  Each command is a function of the environment, its arguments and the world,
  returning its result or the error that ends the process, and the world after it.
  The mutating commands share one shape: load, find the task, append to the WAL,
  change the task, save, then write the session state and the working buffer.
\<close>

section \<open>Shared steps\<close>

text \<open>Appending a note (lines 180--184 and 235--239).\<close>

definition add_note :: "string \<Rightarrow> task \<Rightarrow> task" where
  "add_note n t =
     (if n = [] then t
      else if truthy_str (t_notes t) then t\<lparr>t_notes := Some (the (t_notes t) @ newline @ n)\<rparr>
      else t\<lparr>t_notes := Some n\<rparr>)"

text \<open>\<open>f"{old}% \<rightarrow> {new}%"\<close>.\<close>

definition progress_change :: "int \<Rightarrow> int \<Rightarrow> string" where
  "progress_change old new = show_int old @ ''% '' @ arrow @ '' '' @ show_int new @ ''%''"

text \<open>
  The session state is written only when the task's goal is found
  (\<open>find_goal_by_id(data, task.get("goal_id", ""))\<close>).
\<close>

definition session_for :: "env \<Rightarrow> store \<Rightarrow> task \<Rightarrow> string \<Rightarrow> world \<Rightarrow> world" where
  "session_for e d t action w =
     (case find_goal_by_id d (get_or (goal_id t) []) of
        None \<Rightarrow> w
      | Some g \<Rightarrow> update_session_state e t g action w)"

text \<open>
  The shape the three WAL-logged commands share (lines 158--317): load the store,
  find the task (else exit), read the clock for the content's timestamp, append the
  WAL line, read the clock for \<open>updated_at\<close> and change the task, save, write the
  session state, append to the working buffer. Each command below is defined on its
  own, following its source lines, and shown equal to an instance of this shape.
\<close>

definition wal_mutation ::
  "env \<Rightarrow> string \<Rightarrow> string \<Rightarrow> (task \<Rightarrow> string \<Rightarrow> wal_content) \<Rightarrow> (task \<Rightarrow> string \<Rightarrow> task)
   \<Rightarrow> (task \<Rightarrow> string) \<Rightarrow> string \<Rightarrow> (task \<Rightarrow> string) \<Rightarrow> world \<Rightarrow> (error + task) \<times> world" where
  "wal_mutation e tid ev content change action bev details w =
     (case load2 (tasks_json (fs w)) of
        Inl err \<Rightarrow> (Inl err, w)
      | Inr d \<Rightarrow>
        (case find_task_by_id d tid of
           None \<Rightarrow> (Inl (TaskNotFound tid), w)
         | Some k \<Rightarrow>
             let t = tasks d ! k;
                 (c, w1) = now e w;
                 w2 = log_to_wal e ev (content t (iso e c)) w1;
                 (u, w3) = now e w2;
                 t1 = change t (stamp e u);
                 d' = set_task d k t1;
                 w4 = save_data d' w3;
                 w5 = session_for e d' t1 (action t) w4;
                 w6 = append_to_buffer e bev (details t) w5
             in (Inr t1, w6)))"

section \<open>mark\_progress\<close>

text \<open>
  Lines 186--190: the status rule of phase 2. A progress of 100 or more on a task that
  is not completed sets \<open>in_progress\<close>; nothing in phase 2 completes a task.
\<close>

definition progress_status2 :: "int \<Rightarrow> status \<Rightarrow> status" where
  "progress_status2 p s =
     (if 100 \<le> p \<and> s \<noteq> Completed then In_progress
      else if 0 < p \<and> s = Pending then In_progress
      else s)"

definition mark_progress2 ::
  "env \<Rightarrow> string \<Rightarrow> int \<Rightarrow> string \<Rightarrow> world \<Rightarrow> (error + task) \<times> world" where
  "mark_progress2 e tid p n w =
     (case load2 (tasks_json (fs w)) of
        Inl err \<Rightarrow> (Inl err, w)
      | Inr d \<Rightarrow>
        (case find_task_by_id d tid of
           None \<Rightarrow> (Inl (TaskNotFound tid), w)
         | Some k \<Rightarrow>
             let t = tasks d ! k;
                 old = get_or (progress t) 0;
                 (c, w1) = now e w;
                 w2 = log_to_wal e ''PROGRESS_CHANGE'' (ProgressContent tid old p (iso e c)) w1;
                 (u, w3) = now e w2;
                 t1 = add_note n (t\<lparr>progress := Some p, updated_at := Some (stamp e u)\<rparr>);
                 t2 = t1\<lparr>status := progress_status2 p (status t1)\<rparr>;
                 d' = set_task d k t2;
                 w4 = save_data d' w3;
                 w5 = session_for e d' t2 (''Progress marked: '' @ progress_change old p) w4;
                 w6 = append_to_buffer e ''PROGRESS'' (tid @ '': '' @ progress_change old p) w5
             in (Inr t2, w6)))"

section \<open>log\_time\<close>

definition log_time2 ::
  "env \<Rightarrow> string \<Rightarrow> int \<Rightarrow> string \<Rightarrow> world \<Rightarrow> (error + task) \<times> world" where
  "log_time2 e tid m n w =
     (case load2 (tasks_json (fs w)) of
        Inl err \<Rightarrow> (Inl err, w)
      | Inr d \<Rightarrow>
        (case find_task_by_id d tid of
           None \<Rightarrow> (Inl (TaskNotFound tid), w)
         | Some k \<Rightarrow>
             let t = tasks d ! k;
                 old = get_or (actual_minutes t) 0;
                 new = old + m;
                 (c, w1) = now e w;
                 w2 = log_to_wal e ''TIME_LOG'' (TimeContent tid m old new (iso e c)) w1;
                 (u, w3) = now e w2;
                 t1 = add_note n (t\<lparr>actual_minutes := Some new, updated_at := Some (stamp e u)\<rparr>);
                 t2 = (if status t1 = Pending \<and> 0 < new then t1\<lparr>status := In_progress\<rparr> else t1);
                 d' = set_task d k t2;
                 w4 = save_data d' w3;
                 w5 = session_for e d' t2
                        (''Logged '' @ show_int m @ '' min (total: '' @ show_int new @ '' min)'') w4;
                 w6 = append_to_buffer e ''TIME_LOG''
                        (tid @ '': +'' @ show_int m @ '' min (total: '' @ show_int new @ '' min)'') w5
             in (Inr t2, w6)))"

section \<open>mark\_blocked\<close>

definition mark_blocked2 ::
  "env \<Rightarrow> string \<Rightarrow> string \<Rightarrow> world \<Rightarrow> (error + task) \<times> world" where
  "mark_blocked2 e tid r w =
     (case load2 (tasks_json (fs w)) of
        Inl err \<Rightarrow> (Inl err, w)
      | Inr d \<Rightarrow>
        (case find_task_by_id d tid of
           None \<Rightarrow> (Inl (TaskNotFound tid), w)
         | Some k \<Rightarrow>
             let t = tasks d ! k;
                 (c, w1) = now e w;
                 w2 = log_to_wal e ''STATUS_CHANGE'' (StatusContent tid (status t) Blocked r (iso e c)) w1;
                 (u, w3) = now e w2;
                 t1 = t\<lparr>status := Blocked, blocked_reason := Has r, updated_at := Some (stamp e u)\<rparr>;
                 d' = set_task d k t1;
                 w4 = save_data d' w3;
                 w5 = session_for e d' t1 (''BLOCKED: '' @ r) w4;
                 w6 = append_to_buffer e ''BLOCKED'' (tid @ '': '' @ r) w5
             in (Inr t1, w6)))"

section \<open>The WAL-logged commands\<close>

text \<open>The three task commands of the phase-2 command line (lines 423--447).\<close>

datatype task_cmd =
    MarkProgress string int string
  | LogTime string int string
  | MarkBlocked string string

fun run_task_cmd :: "env \<Rightarrow> task_cmd \<Rightarrow> world \<Rightarrow> (error + task) \<times> world" where
  "run_task_cmd e (MarkProgress tid p n) w = mark_progress2 e tid p n w"
| "run_task_cmd e (LogTime tid m n) w = log_time2 e tid m n w"
| "run_task_cmd e (MarkBlocked tid r) w = mark_blocked2 e tid r w"

section \<open>The shared shape\<close>

lemma session_for_io:
  "\<exists>ios. trace (session_for e d t a w) = trace w @ ios \<and>
     fs (session_for e d t a w) = replay (fs w) ios \<and> list_all (\<lambda>x. \<not> touches_store x) ios"
  by (auto simp: session_for_def update_session_state_def now_def split: option.splits)

lemma wal_mutation_Inl:
  "wal_mutation e tid ev c ch a bev dt w = (Inl err, w') \<Longrightarrow> w' = w"
  by (auto simp: wal_mutation_def Let_def split: sum.splits option.splits prod.splits)

lemma wal_mutation_eq:
  assumes "load2 (tasks_json (fs w)) = Inr d" and "find_task_by_id d tid = Some k"
  shows "wal_mutation e tid ev c ch a bev dt w =
    (let t1 = ch (tasks d ! k) (stamp e (clock e (Suc (Suc (Suc (reads w))))));
         w4 = save_data (set_task d k t1)
                ((log_to_wal e ev (c (tasks d ! k) (iso e (clock e (reads w)))) (w\<lparr>reads := Suc (reads w)\<rparr>))
                   \<lparr>reads := Suc (Suc (Suc (Suc (reads w))))\<rparr>)
     in (Inr t1, append_to_buffer e bev (dt (tasks d ! k)) (session_for e (set_task d k t1) t1 (a (tasks d ! k)) w4)))"
  using assms by (simp add: wal_mutation_def Let_def now_def log_to_wal_eq)

lemma wal_mutation_Inr:
  assumes "wal_mutation e tid ev c ch a bev dt w = (Inr t', w')"
  obtains d k rest where "load2 (tasks_json (fs w)) = Inr d"
    and "find_task_by_id d tid = Some k"
    and "t' = ch (tasks d ! k) (stamp e (clock e (Suc (Suc (Suc (reads w))))))"
    and "new_io w w' = wal_io e ev (c (tasks d ! k) (iso e (clock e (reads w)))) (Suc (reads w))
           # Truncate # WriteStore (set_task d k t') # rest"
    and "list_all (\<lambda>x. \<not> touches_store x) rest"
    and "extends w w'"
proof -
  from assms obtain d k where ld: "load2 (tasks_json (fs w)) = Inr d"
    and fd: "find_task_by_id d tid = Some k"
    by (auto simp: wal_mutation_def split: sum.splits option.splits)
  let ?t = "tasks d ! k"
  let ?r = "reads w"
  define t1 where "t1 = ch ?t (stamp e (clock e (Suc (Suc (Suc ?r)))))"
  define w4 where "w4 = save_data (set_task d k t1)
    (log_to_wal e ev (c ?t (iso e (clock e ?r))) (w\<lparr>reads := Suc ?r\<rparr>)\<lparr>reads := Suc (Suc (Suc (Suc ?r)))\<rparr>)"
  define w5 where "w5 = session_for e (set_task d k t1) t1 (a ?t) w4"
  have res: "wal_mutation e tid ev c ch a bev dt w = (Inr t1, append_to_buffer e bev (dt ?t) w5)"
    by (simp add: wal_mutation_eq [OF ld fd] Let_def t1_def w4_def w5_def)
  with assms have t': "t' = t1" and w': "w' = append_to_buffer e bev (dt ?t) w5"
    by simp_all
  obtain ios where s: "trace w5 = trace w4 @ ios" "fs w5 = replay (fs w4) ios"
    and ns: "list_all (\<lambda>x. \<not> touches_store x) ios"
    using session_for_io unfolding w5_def by blast
  let ?b = "BufferAppend (''- '' @ bev @ '' ('' @ iso e (clock e (reads w5)) @ ''): '' @ dt ?t @ newline)"
  have tr: "trace w' = trace w @ [wal_io e ev (c ?t (iso e (clock e ?r))) (Suc ?r), Truncate,
      WriteStore (set_task d k t1)] @ ios @ [?b]"
    using s by (simp add: w' append_to_buffer_eq w4_def save_data_def log_to_wal_eq)
  have "fs w' = replay (fs w) ([wal_io e ev (c ?t (iso e (clock e ?r))) (Suc ?r), Truncate,
      WriteStore (set_task d k t1)] @ ios @ [?b])"
    using s by (simp add: w' append_to_buffer_eq w4_def save_data_def log_to_wal_eq)
  with tr have "new_io w w' = [wal_io e ev (c ?t (iso e (clock e ?r))) (Suc ?r), Truncate,
      WriteStore (set_task d k t1)] @ ios @ [?b]" and "extends w w'"
    by (auto simp: extends_iff new_io_eq)
  with ns ld fd t' show ?thesis
    using that [of d k "ios @ [?b]"] t1_def by simp
qed

lemma mark_progress2_shape:
  "mark_progress2 e tid p n w =
     wal_mutation e tid ''PROGRESS_CHANGE''
       (\<lambda>t ts. ProgressContent tid (get_or (progress t) 0) p ts)
       (\<lambda>t u. let t1 = add_note n (t\<lparr>progress := Some p, updated_at := Some u\<rparr>)
              in t1\<lparr>status := progress_status2 p (status t1)\<rparr>)
       (\<lambda>t. ''Progress marked: '' @ progress_change (get_or (progress t) 0) p)
       ''PROGRESS'' (\<lambda>t. tid @ '': '' @ progress_change (get_or (progress t) 0) p) w"
  by (simp add: mark_progress2_def wal_mutation_def Let_def split: sum.split option.split)

lemma log_time2_shape:
  "log_time2 e tid m n w =
     wal_mutation e tid ''TIME_LOG''
       (\<lambda>t ts. TimeContent tid m (get_or (actual_minutes t) 0) (get_or (actual_minutes t) 0 + m) ts)
       (\<lambda>t u. let new = get_or (actual_minutes t) 0 + m;
                  t1 = add_note n (t\<lparr>actual_minutes := Some new, updated_at := Some u\<rparr>)
              in if status t1 = Pending \<and> 0 < new then t1\<lparr>status := In_progress\<rparr> else t1)
       (\<lambda>t. ''Logged '' @ show_int m @ '' min (total: '' @ show_int (get_or (actual_minutes t) 0 + m) @ '' min)'')
       ''TIME_LOG''
       (\<lambda>t. tid @ '': +'' @ show_int m @ '' min (total: '' @ show_int (get_or (actual_minutes t) 0 + m) @ '' min)'') w"
  by (simp add: log_time2_def wal_mutation_def Let_def split: sum.split option.split)

lemma mark_blocked2_shape:
  "mark_blocked2 e tid r w =
     wal_mutation e tid ''STATUS_CHANGE''
       (\<lambda>t ts. StatusContent tid (status t) Blocked r ts)
       (\<lambda>t u. t\<lparr>status := Blocked, blocked_reason := Has r, updated_at := Some u\<rparr>)
       (\<lambda>t. ''BLOCKED: '' @ r) ''BLOCKED'' (\<lambda>t. tid @ '': '' @ r) w"
  by (simp add: mark_blocked2_def wal_mutation_def Let_def split: sum.split option.split)

lemma run_task_cmd_shape:
  "\<exists>tid ev c ch a bev dt. run_task_cmd e cmd w = wal_mutation e tid ev c ch a bev dt w"
  by (cases cmd)
    (simp_all only: run_task_cmd.simps mark_progress2_shape log_time2_shape mark_blocked2_shape, blast+)

lemma run_task_cmd_Inl: "run_task_cmd e cmd w = (Inl err, w') \<Longrightarrow> w' = w"
  using run_task_cmd_shape [of e cmd w] by (metis wal_mutation_Inl)

text \<open>
  Every run of a WAL-logged command extends the world by writes that append to the
  WAL before they touch \<^verbatim>\<open>tasks.json\<close>; a failing run writes nothing.
\<close>

lemma run_task_cmd_wal_first:
  assumes "run_task_cmd e cmd w = (r, w')"
  shows "extends w w' \<and> wal_before_save (new_io w w')"
proof (cases r)
  case (Inl err)
  with assms have "w' = w" by (simp add: run_task_cmd_Inl)
  then show ?thesis by (simp add: new_io_def)
next
  case (Inr t')
  from run_task_cmd_shape obtain tid ev c ch a bev dt
    where "run_task_cmd e cmd w = wal_mutation e tid ev c ch a bev dt w" by blast
  with assms Inr have "wal_mutation e tid ev c ch a bev dt w = (Inr t', w')" by simp
  then show ?thesis
    by (rule wal_mutation_Inr) (simp add: wal_io_def)
qed

lemma wal_mutation_succeeds:
  "load2 (tasks_json (fs w)) = Inr d \<Longrightarrow> find_task_by_id d tid = Some k \<Longrightarrow>
     \<exists>t' w'. wal_mutation e tid ev c ch a bev dt w = (Inr t', w')"
  by (simp add: wal_mutation_def Let_def split: prod.split)

lemma wal_mutation_result:
  assumes "load2 (tasks_json (fs w)) = Inr d" "find_task_by_id d tid = Some k"
  shows "fst (wal_mutation e tid ev c ch a bev dt w) =
           Inr (ch (tasks d ! k) (stamp e (clock e (Suc (Suc (Suc (reads w)))))))"
proof -
  obtain t' w' where r: "wal_mutation e tid ev c ch a bev dt w = (Inr t', w')"
    using wal_mutation_succeeds [OF assms] by blast
  then show ?thesis
    by (rule wal_mutation_Inr) (use assms r in simp)
qed

lemma add_note_fields [simp]:
  "status (add_note n t) = status t" "progress (add_note n t) = progress t"
  "t_id (add_note n t) = t_id t" "actual_minutes (add_note n t) = actual_minutes t"
  "blocked_reason (add_note n t) = blocked_reason t" "completed_at (add_note n t) = completed_at t"
  "goal_id (add_note n t) = goal_id t" "recurring (add_note n t) = recurring t"
  by (simp_all add: add_note_def)

lemma mark_progress2_Inr:
  assumes ld: "load2 (tasks_json (fs w)) = Inr d" and fd: "find_task_by_id d tid = Some k"
  shows "\<exists>t' w' rest. mark_progress2 e tid p n w = (Inr t', w') \<and>
     progress t' = Some p \<and> t_id t' = tid \<and> status t' = progress_status2 p (status (tasks d ! k)) \<and>
     new_io w w' = wal_io e ''PROGRESS_CHANGE''
        (ProgressContent tid (get_or (progress (tasks d ! k)) 0) p (iso e (clock e (reads w)))) (Suc (reads w))
        # Truncate # WriteStore (set_task d k t') # rest \<and>
     list_all (\<lambda>x. \<not> touches_store x) rest \<and> extends w w'"
proof -
  from wal_mutation_succeeds [OF ld fd] obtain t' w' where
    r: "mark_progress2 e tid p n w = (Inr t', w')"
    unfolding mark_progress2_shape by blast
  from r [unfolded mark_progress2_shape] show ?thesis
  proof (rule wal_mutation_Inr)
    fix d1 k1 rest
    assume "load2 (tasks_json (fs w)) = Inr d1" "find_task_by_id d1 tid = Some k1"
      and t': "t' = (let t1 = add_note n ((tasks d1 ! k1)\<lparr>progress := Some p,
                   updated_at := Some (stamp e (clock e (Suc (Suc (Suc (reads w))))))\<rparr>)
                 in t1\<lparr>status := progress_status2 p (status t1)\<rparr>)"
      and io: "new_io w w' = wal_io e ''PROGRESS_CHANGE''
        (ProgressContent tid (get_or (progress (tasks d1 ! k1)) 0) p (iso e (clock e (reads w))))
        (Suc (reads w)) # Truncate # WriteStore (set_task d1 k1 t') # rest"
      and "list_all (\<lambda>x. \<not> touches_store x) rest" "extends w w'"
    moreover from this(1,2) ld fd have "d1 = d" "k1 = k" by simp_all
    moreover have "t_id (tasks d ! k) = tid"
      using find_task_by_id_Some [OF fd] by simp
    ultimately show ?thesis
      using r by (auto simp: Let_def)
  qed
qed

text \<open>
  C9. What a successful \<open>mark_progress\<close> of phase 2 writes: its first write is the WAL line
  holding the task id, the old and the new progress, and \<^verbatim>\<open>tasks.json\<close> ends up holding
  the store with the task replaced by one whose progress is the argument.
\<close>

theorem mark_progress2_writes:
  assumes "load2 (tasks_json (fs w)) = Inr d" and "find_task_by_id d tid = Some k"
  shows "\<exists>t' w' day x. mark_progress2 e tid p n w = (Inr t', w') \<and>
     progress t' = Some p \<and> t_id t' = tid \<and>
     hd (new_io w w') = WalAppend day x \<and> w_event x = ''PROGRESS_CHANGE'' \<and>
     w_content x = ProgressContent tid (get_or (progress (tasks d ! k)) 0) p (iso e (clock e (reads w))) \<and>
     tasks_json (fs w') = Valid (set_task d k t')"
proof -
  from mark_progress2_Inr [OF assms] obtain t' w' rest where
    r: "mark_progress2 e tid p n w = (Inr t', w')" and f: "progress t' = Some p" "t_id t' = tid"
    and io: "new_io w w' = wal_io e ''PROGRESS_CHANGE''
        (ProgressContent tid (get_or (progress (tasks d ! k)) 0) p (iso e (clock e (reads w)))) (Suc (reads w))
        # Truncate # WriteStore (set_task d k t') # rest"
    and ns: "list_all (\<lambda>x. \<not> touches_store x) rest" and ex: "extends w w'"
    by blast
  from ex io have "fs w' = replay (fs w) (wal_io e ''PROGRESS_CHANGE''
        (ProgressContent tid (get_or (progress (tasks d ! k)) 0) p (iso e (clock e (reads w)))) (Suc (reads w))
        # Truncate # WriteStore (set_task d k t') # rest)"
    by (simp add: extends_def)
  then have "tasks_json (fs w') = Valid (set_task d k t')"
    using ns by (simp add: replay_no_store_write wal_io_def)
  with r f io show ?thesis
    by (auto simp: wal_io_def)
qed

text \<open>
  C10. Phase 2 never completes a task: a progress of 100 or more on a task that is not
  completed leaves it \<open>in_progress\<close>, and any integer is accepted as progress.
\<close>

theorem mark_progress2_full_stays_in_progress:
  assumes "load2 (tasks_json (fs w)) = Inr d" and "find_task_by_id d tid = Some k"
    and "status (tasks d ! k) \<noteq> Completed" and "100 \<le> p"
  shows "\<exists>t' w'. mark_progress2 e tid p n w = (Inr t', w') \<and>
     status t' = In_progress \<and> progress t' = Some p"
  using mark_progress2_Inr [OF assms(1,2), of e p n] assms(3,4)
  by (auto simp: progress_status2_def)

text \<open>
  C38. The session file mirrors the store: after a successful WAL-logged command whose
  task belongs to a known goal, \<^verbatim>\<open>SESSION-STATE.md\<close> is the rendering of exactly
  the task \<^verbatim>\<open>tasks.json\<close> now holds, stamped with the fifth clock reading of the run.
\<close>

theorem run_task_cmd_session_mirror:
  assumes "load2 (tasks_json (fs w)) = Inr d" and "run_task_cmd e cmd w = (Inr t', w')"
    and "find_goal_by_id d (get_or (goal_id t') []) = Some g"
  shows "\<exists>k act. tasks_json (fs w') = Valid (set_task d k t') \<and>
     session_md (fs w') = Some (render_session (iso e (clock e (Suc (Suc (Suc (Suc (reads w))))))) t' g act)"
proof -
  obtain tid ev c ch a bev dt where sh: "run_task_cmd e cmd w = wal_mutation e tid ev c ch a bev dt w"
    using run_task_cmd_shape by blast
  from assms(2) [unfolded sh] obtain d1 k where ld: "load2 (tasks_json (fs w)) = Inr d1"
    and fd: "find_task_by_id d1 tid = Some k"
    by (rule wal_mutation_Inr)
  from ld assms(1) have "d1 = d" by simp
  with fd assms(2) [unfolded sh] assms(3) show ?thesis
    by (auto simp: wal_mutation_eq [OF assms(1)] Let_def session_for_def update_session_state_def
        append_to_buffer_eq log_to_wal_eq now_def)
qed

end
