(* ===== verification/Contract.thy ===== *)
theory Contract
  imports Phase1 Phase2
begin

text \<open>
  The task state machine of the specification (\<^verbatim>\<open>spec.md\<close> section 4.3) as an
  abstract contract, and how the handlers of the two scripts relate to it. The
  abstract task keeps what the contract speaks of: the status, the progress, the
  logged minutes and whether a completion time is set. \<open>abs_task\<close> reads it off a
  stored task, with the defaults the scripts use for absent keys.
\<close>

section \<open>The contract\<close>

record atask =
  a_status :: status
  a_progress :: int
  a_actual :: int
  a_completed :: bool

definition abs_task :: "task \<Rightarrow> atask" where
  "abs_task t = \<lparr>a_status = status t, a_progress = get_or (progress t) 0,
                 a_actual = get_or (actual_minutes t) 0, a_completed = (completed_at t \<noteq> None)\<rparr>"

text \<open>\<open>SetProgress\<close>: the range check, then the two transition rules.\<close>

definition spec_set_progress :: "int \<Rightarrow> atask \<Rightarrow> error + atask" where
  "spec_set_progress p a =
     (if \<not> (0 \<le> p \<and> p \<le> 100) then Inl ProgressOutOfRange
      else if p = 100 \<and> a_status a = In_progress
      then Inr (a\<lparr>a_progress := p, a_status := Completed, a_completed := True\<rparr>)
      else if 0 < p \<and> a_status a = Pending then Inr (a\<lparr>a_progress := p, a_status := In_progress\<rparr>)
      else Inr (a\<lparr>a_progress := p\<rparr>))"

text \<open>\<open>LogTime\<close>: add the minutes; a pending task with a positive total starts.\<close>

definition spec_log_time :: "int \<Rightarrow> atask \<Rightarrow> atask" where
  "spec_log_time m a =
     (let n = a_actual a + m
      in a\<lparr>a_actual := n, a_status := (if a_status a = Pending \<and> 0 < n then In_progress else a_status a)\<rparr>)"

text \<open>\<open>MarkBlocked\<close> and \<open>Unblock\<close>.\<close>

definition spec_block :: "atask \<Rightarrow> atask" where
  "spec_block a = a\<lparr>a_status := Blocked\<rparr>"

definition spec_unblock :: "atask \<Rightarrow> atask" where
  "spec_unblock a = a\<lparr>a_status := Pending\<rparr>"

section \<open>Refinement\<close>

lemmas contract_defs = abs_task_def spec_set_progress_def spec_log_time_def spec_block_def spec_unblock_def

text \<open>
  C4. Phase 1 implements \<open>SetProgress\<close>: on a store holding the task, the abstract
  view of what \<open>mark_progress\<close> returns, its error included, is what the contract
  computes from the abstract view of the task before.
\<close>

theorem mark_progress1_refines:
  assumes "load1 w = (d, w0)" and "find_task_by_id d tid = Some k" and "py_int ps = Some p"
  shows "map_sum id abs_task (fst (mark_progress1 e tid ps w)) = spec_set_progress p (abs_task (tasks d ! k))"
proof (cases "0 \<le> p \<and> p \<le> 100")
  case True
  then show ?thesis
    using mark_progress1_eq [OF assms, of e] by (simp add: contract_defs Let_def)
next
  case False
  then show ?thesis
    using mark_progress1_range [of w tid k ps p e] assms by (simp add: spec_set_progress_def)
qed


text \<open>
  C20. Phase 1 implements \<open>LogTime\<close> except for the status: the minutes are added,
  but a pending task stays pending whatever the total.
\<close>

theorem log_time1_keeps_status:
  assumes "load1 w = (d, w0)" and "find_task_by_id d tid = Some k" and "py_int ms = Some m"
  shows "\<exists>t'. fst (log_time1 e tid ms w) = Inr t' \<and>
     abs_task t' = (spec_log_time m (abs_task (tasks d ! k)))\<lparr>a_status := status (tasks d ! k)\<rparr>"
  by (simp add: log_time1_eq [OF assms] contract_defs Let_def split: option.split)




end
