(* ===== verification/Health.thy ===== *)
theory Health
  imports World
begin

text \<open>
  The Health/Repair Scanner, \<open>health_check\<close> of \<^verbatim>\<open>task_manager_phase2.py\<close>
  (lines 320--381). One pass over the tasks applies five checks in order, each to the
  task as the previous checks left it; three of them read the clock. The pass writes
  nothing: the repaired store is saved once after it, if any fix was applied, and the
  counts are appended to the WAL after the save. An exception in the pass
  (\<open>ZeroDivisionError\<close> in check 4) ends the process before any write.
  Issues and fixes are kept as the data their messages are formatted from.
\<close>

section \<open>Reports\<close>

datatype issue =
    OrphanedRecurring string
  | ImpossibleState string "int option"
  | InconsistentCompletion string
  | TimeAnomaly string "int option" "int option" rat
  | BadDate string string

datatype repair =
    RemovedRecurring string
  | SetProgress100 string
  | AddedCompletedAt string
  | ResetCompletedAt string

type_synonym report = "issue list \<times> repair list \<times> task"

section \<open>The five checks\<close>

text \<open>Check 1 (lines 332--336): recurring but no goal; the flag is set to \<open>None\<close>.\<close>

definition hc_orphaned :: "task \<Rightarrow> report" where
  "hc_orphaned t =
     (if truthy_str (jget (recurring t)) \<and> \<not> truthy_str (goal_id t)
      then ([OrphanedRecurring (t_id t)], [RemovedRecurring (t_id t)], t\<lparr>recurring := JNull\<rparr>)
      else ([], [], t))"

text \<open>Check 2 (lines 338--342): completed with progress below 100 (absent counts as 100).\<close>

definition hc_progress :: "task \<Rightarrow> report" where
  "hc_progress t =
     (if status t = Completed \<and> get_or (progress t) 100 < 100
      then ([ImpossibleState (t_id t) (progress t)], [SetProgress100 (t_id t)],
            t\<lparr>progress := Some 100\<rparr>)
      else ([], [], t))"

text \<open>Check 3 (lines 344--348): completed without a \<open>completed_at\<close>.\<close>

definition hc_completion :: "env \<Rightarrow> task \<Rightarrow> world \<Rightarrow> report \<times> world" where
  "hc_completion e t w =
     (if status t = Completed \<and> \<not> truthy_str (completed_at t)
      then let (c, w1) = now e w
           in (([InconsistentCompletion (t_id t)], [AddedCompletedAt (t_id t)],
                t\<lparr>completed_at := Some (stamp e c)\<rparr>), w1)
      else (([], [], t), w))"

text \<open>
  Check 4 (lines 350--353): report only. The ratio divides by the estimate, which
  raises when an estimate of 0 is exceeded.
\<close>

definition hc_time :: "task \<Rightarrow> error + issue list" where
  "hc_time t =
     (let a = get_or (actual_minutes t) 0; est = get_or (estimate_minutes t) 1
      in if est * 10 < a
         then (if est = 0 then Inl ZeroDivisionError
               else Inr [TimeAnomaly (t_id t) (actual_minutes t) (estimate_minutes t)
                           (of_int a / of_int est)])
         else Inr [])"

text \<open>
  Check 5 (lines 355--361): a completed task whose \<open>completed_at\<close> string is greater
  than \<open>now.isoformat()\<close>; the comparison is on strings.
\<close>

definition hc_future :: "env \<Rightarrow> task \<Rightarrow> world \<Rightarrow> report \<times> world" where
  "hc_future e t w =
     (if status t = Completed
      then let ca = get_or (completed_at t) [];
               (c, w1) = now e w
           in if iso e c < ca
              then let (c', w2) = now e w1
                   in (([BadDate (t_id t) ca], [ResetCompletedAt (t_id t)],
                        t\<lparr>completed_at := Some (stamp e c')\<rparr>), w2)
              else (([], [], t), w1)
      else (([], [], t), w))"

definition hc_task :: "env \<Rightarrow> task \<Rightarrow> world \<Rightarrow> (error + report) \<times> world" where
  "hc_task e t w =
     (let (i1, f1, t1) = hc_orphaned t;
          (i2, f2, t2) = hc_progress t1;
          ((i3, f3, t3), w1) = hc_completion e t2 w
      in case hc_time t3 of
           Inl err \<Rightarrow> (Inl err, w1)
         | Inr i4 \<Rightarrow>
             let ((i5, f5, t5), w2) = hc_future e t3 w1
             in (Inr (i1 @ i2 @ i3 @ i4 @ i5, f1 @ f2 @ f3 @ f5, t5), w2))"

text \<open>The loop \<open>for task in data["tasks"]\<close> (line 329), mutating each task in place.\<close>

fun hc_loop :: "env \<Rightarrow> task list \<Rightarrow> world \<Rightarrow> (error + issue list \<times> repair list \<times> task list) \<times> world" where
  "hc_loop e [] w = (Inr ([], [], []), w)"
| "hc_loop e (t # ts) w =
     (case hc_task e t w of
        (Inl err, w1) \<Rightarrow> (Inl err, w1)
      | (Inr (i, f, t'), w1) \<Rightarrow>
          (case hc_loop e ts w1 of
             (Inl err, w2) \<Rightarrow> (Inl err, w2)
           | (Inr (is, fxs, ts'), w2) \<Rightarrow> (Inr (i @ is, f @ fxs, t' # ts'), w2)))"

definition health_check :: "env \<Rightarrow> world \<Rightarrow> (error + issue list \<times> repair list) \<times> world" where
  "health_check e w =
     (case load2 (tasks_json (fs w)) of
        Inl err \<Rightarrow> (Inl err, w)
      | Inr d \<Rightarrow>
        (case hc_loop e (tasks d) w of
           (Inl err, w1) \<Rightarrow> (Inl err, w1)
         | (Inr (is, fxs, ts), w1) \<Rightarrow>
             let w2 = (if fxs \<noteq> [] then save_data (d\<lparr>tasks := ts\<rparr>) w1 else w1);
                 (c, w3) = now e w2;
                 w4 = log_to_wal e ''HEALTH_CHECK'' (HealthContent (length is) (length fxs) (iso e c)) w3
             in (Inr (is, fxs), w4)))"

text \<open>
  A task the pass leaves alone when the clock has been read \<open>r\<close> times or more: no
  check fires on it and check 4 does not raise.
\<close>

definition settled :: "env \<Rightarrow> nat \<Rightarrow> task \<Rightarrow> bool" where
  "settled e r t \<longleftrightarrow>
     hc_orphaned t = ([], [], t) \<and> hc_progress t = ([], [], t) \<and>
     (status t = Completed \<longrightarrow> truthy_str (completed_at t) \<and>
        (\<forall>m \<ge> r. \<not> iso e (clock e m) < get_or (completed_at t) [])) \<and>
     (\<exists>is. hc_time t = Inr is)"


text \<open>What one pass does to a task, field by field: only the recurrence, the progress
  and the completion time can change.\<close>

definition hc_rel :: "task \<Rightarrow> task \<Rightarrow> bool" where
  "hc_rel t t' \<longleftrightarrow>
    t' = t\<lparr>recurring := recurring t', progress := progress t', completed_at := completed_at t'\<rparr> \<and>
    recurring t' = (if truthy_str (jget (recurring t)) \<and> \<not> truthy_str (goal_id t) then JNull else recurring t) \<and>
    progress t' = (if status t = Completed \<and> get_or (progress t) 100 < 100 then Some 100 else progress t)"

section \<open>Lemmas\<close>

lemma hc_orphaned_after:
  "hc_orphaned t = (i, f, t1) \<Longrightarrow> hc_orphaned t1 = ([], [], t1) \<and> t1\<lparr>recurring := recurring t\<rparr> = t"
  by (auto simp: hc_orphaned_def split: if_splits)

lemma hc_progress_after:
  "hc_progress t = (i, f, t1) \<Longrightarrow> hc_progress t1 = ([], [], t1) \<and> t1\<lparr>progress := progress t\<rparr> = t"
  by (auto simp: hc_progress_def split: if_splits)

lemma hc_completion_after:
  "hc_completion e t w = ((i, f, t1), w1) \<Longrightarrow>
     (status t1 = Completed \<longrightarrow> truthy_str (completed_at t1)) \<and>
     t1 = t\<lparr>completed_at := completed_at t1\<rparr> \<and> fs w1 = fs w \<and> trace w1 = trace w \<and> reads w \<le> reads w1"
  by (auto simp: hc_completion_def now_def stamp_def split: if_splits)

lemma hc_future_after:
  assumes "clock_sound e" "hc_future e t w = ((i, f, t1), w1)"
    "status t = Completed \<longrightarrow> truthy_str (completed_at t)"
  shows "(status t1 = Completed \<longrightarrow> truthy_str (completed_at t1) \<and>
           (\<forall>m \<ge> reads w1. \<not> iso e (clock e m) < get_or (completed_at t1) [])) \<and>
     t1 = t\<lparr>completed_at := completed_at t1\<rparr> \<and> fs w1 = fs w \<and> trace w1 = trace w \<and> reads w \<le> reads w1"
proof (cases "status t = Completed")
  case False
  with assms(2) show ?thesis by (auto simp: hc_future_def)
next
  case True
  let ?r = "reads w"
  let ?ca = "get_or (completed_at t) []"
  have mono: "\<And>n m. n \<le> m \<Longrightarrow> iso e (clock e n) \<le> iso e (clock e m)"
    and strict: "\<And>n m. n < m \<Longrightarrow> stamp e (clock e n) < iso e (clock e m)"
    using assms(1) by (auto simp: clock_sound_def)
  show ?thesis
  proof (cases "iso e (clock e ?r) < ?ca")
    case fire: True
    with True assms(2) have t1: "t1 = t\<lparr>completed_at := Some (stamp e (clock e (Suc ?r)))\<rparr>"
      and r1: "reads w1 = Suc (Suc ?r)" and "fs w1 = fs w" "trace w1 = trace w"
      by (auto simp: hc_future_def now_def Let_def)
    moreover have "\<not> iso e (clock e m) < stamp e (clock e (Suc ?r))" if "Suc (Suc ?r) \<le> m" for m
      using strict [of "Suc ?r" m] that by auto
    ultimately show ?thesis by (auto simp: stamp_def)
  next
    case calm: False
    with True assms(2) have t1: "t1 = t" and r1: "reads w1 = Suc ?r"
      and "fs w1 = fs w" "trace w1 = trace w"
      by (auto simp: hc_future_def now_def Let_def)
    moreover have "\<not> iso e (clock e m) < ?ca" if "Suc ?r \<le> m" for m
      using mono [of ?r m] that calm by auto
    ultimately show ?thesis using assms(3) True by auto
  qed
qed

lemma hc_orphaned_cases: "hc_orphaned t = (i, f, t1) \<Longrightarrow> t1 = t \<or> t1 = t\<lparr>recurring := JNull\<rparr>"
  by (auto simp: hc_orphaned_def split: if_splits)

lemma hc_progress_cases: "hc_progress t = (i, f, t1) \<Longrightarrow> t1 = t \<or> t1 = t\<lparr>progress := Some 100\<rparr>"
  by (auto simp: hc_progress_def split: if_splits)

lemma hc_orphaned_frame [simp]:
  "hc_orphaned (t\<lparr>progress := x\<rparr>) = (case hc_orphaned t of (i, f, t1) \<Rightarrow> (i, f, t1\<lparr>progress := x\<rparr>))"
  "hc_orphaned (t\<lparr>completed_at := c\<rparr>) = (case hc_orphaned t of (i, f, t1) \<Rightarrow> (i, f, t1\<lparr>completed_at := c\<rparr>))"
  by (simp_all add: hc_orphaned_def)

lemma hc_progress_frame [simp]:
  "hc_progress (t\<lparr>completed_at := c\<rparr>) = (case hc_progress t of (i, f, t1) \<Rightarrow> (i, f, t1\<lparr>completed_at := c\<rparr>))"
  "hc_progress (t\<lparr>recurring := r\<rparr>) = (case hc_progress t of (i, f, t1) \<Rightarrow> (i, f, t1\<lparr>recurring := r\<rparr>))"
  by (simp_all add: hc_progress_def)

lemma hc_time_frame [simp]:
  "hc_time (t\<lparr>completed_at := c\<rparr>) = hc_time t"
  "hc_time (t\<lparr>progress := x\<rparr>) = hc_time t"
  "hc_time (t\<lparr>recurring := r\<rparr>) = hc_time t"
  by (simp_all add: hc_time_def Let_def)

lemma hc_task_Inr:
  assumes cs: "clock_sound e" and h: "hc_task e t w = (Inr (i, f, t'), w')"
  shows "settled e (reads w') t' \<and> fs w' = fs w \<and> trace w' = trace w \<and> reads w \<le> reads w'"
proof -
  obtain i1 f1 t1 where o: "hc_orphaned t = (i1, f1, t1)" by (cases "hc_orphaned t") auto
  obtain i2 f2 t2 where p: "hc_progress t1 = (i2, f2, t2)" by (cases "hc_progress t1") auto
  obtain i3 f3 t3 w1 where c: "hc_completion e t2 w = ((i3, f3, t3), w1)"
    by (cases "hc_completion e t2 w") auto
  obtain i4 where tm: "hc_time t3 = Inr i4"
    using h o p c by (cases "hc_time t3") (auto simp: hc_task_def)
  obtain i5 f5 t5 w2 where fu: "hc_future e t3 w1 = ((i5, f5, t5), w2)"
    by (cases "hc_future e t3 w1") auto
  from h o p c tm fu have t': "t' = t5" and w': "w' = w2"
    by (simp_all add: hc_task_def)
  have o1: "hc_orphaned t1 = ([], [], t1)" using hc_orphaned_after [OF o] by simp
  have p2: "hc_progress t2 = ([], [], t2)" using hc_progress_after [OF p] by simp
  have o2: "hc_orphaned t2 = ([], [], t2)"
    using hc_progress_cases [OF p] o1 by auto
  from hc_completion_after [OF c]
  have c3: "status t3 = Completed \<longrightarrow> truthy_str (completed_at t3)"
    and e3: "t3 = t2\<lparr>completed_at := completed_at t3\<rparr>"
    and w1: "fs w1 = fs w" "trace w1 = trace w" "reads w \<le> reads w1"
    by auto
  from hc_future_after [OF cs fu c3]
  have f5: "status t5 = Completed \<longrightarrow> truthy_str (completed_at t5) \<and>
           (\<forall>m \<ge> reads w2. \<not> iso e (clock e m) < get_or (completed_at t5) [])"
    and e5: "t5 = t3\<lparr>completed_at := completed_at t5\<rparr>"
    and w2: "fs w2 = fs w1" "trace w2 = trace w1" "reads w1 \<le> reads w2"
    by auto
  have e52: "t5 = t2\<lparr>completed_at := completed_at t5\<rparr>"
  proof -
    have "t5 = t2\<lparr>completed_at := completed_at t3\<rparr>\<lparr>completed_at := completed_at t5\<rparr>"
      using e5 e3 by metis
    then show ?thesis by simp
  qed
  have "hc_orphaned t5 = ([], [], t5)" "hc_progress t5 = ([], [], t5)" "hc_time t5 = Inr i4"
    using o2 p2 tm e3 e52 by (metis hc_orphaned_frame(2) hc_progress_frame(1) hc_time_frame(1) case_prod_conv)+
  with f5 w1 w2 t' w' show ?thesis
    by (auto simp: settled_def)
qed

lemma settled_mono: "settled e r t \<Longrightarrow> r \<le> r' \<Longrightarrow> settled e r' t"
  by (auto simp: settled_def)

lemma hc_task_settled_noop:
  assumes "settled e (reads w) t"
  shows "\<exists>i w'. hc_task e t w = (Inr (i, [], t), w') \<and> fs w' = fs w \<and> trace w' = trace w \<and>
           reads w \<le> reads w'"
proof -
  from assms obtain iss where tm: "hc_time t = Inr iss"
    and o: "hc_orphaned t = ([], [], t)" and p: "hc_progress t = ([], [], t)"
    and c: "status t = Completed \<Longrightarrow> truthy_str (completed_at t) \<and>
              \<not> iso e (clock e (reads w)) < get_or (completed_at t) []"
    by (auto simp: settled_def)
  show ?thesis
  proof (cases "status t = Completed")
    case True
    with c have "hc_completion e t w = (([], [], t), w)"
      and "hc_future e t w = (([], [], t), w\<lparr>reads := Suc (reads w)\<rparr>)"
      by (simp_all add: hc_completion_def hc_future_def now_def Let_def)
    with o p tm show ?thesis by (simp add: hc_task_def)
  next
    case False
    then have "hc_completion e t w = (([], [], t), w)" and "hc_future e t w = (([], [], t), w)"
      by (simp_all add: hc_completion_def hc_future_def)
    with o p tm show ?thesis by (simp add: hc_task_def)
  qed
qed

lemma hc_checks_nofix:
  "hc_orphaned t = (i, [], t1) \<Longrightarrow> t1 = t"
  "hc_progress t = (i, [], t1) \<Longrightarrow> t1 = t"
  "hc_completion e t w = ((i, [], t1), w1) \<Longrightarrow> t1 = t"
  "hc_future e t w = ((i, [], t1), w1) \<Longrightarrow> t1 = t"
  by (auto simp: hc_orphaned_def hc_progress_def hc_completion_def hc_future_def now_def Let_def
      split: if_splits)

lemma hc_task_nofix: "hc_task e t w = (Inr (i, [], t'), w') \<Longrightarrow> t' = t"
  by (auto simp: hc_task_def split: prod.splits sum.splits dest!: hc_checks_nofix)

lemma hc_loop_nofix: "hc_loop e ts w = (Inr (iss, [], ts'), w') \<Longrightarrow> ts' = ts"
proof (induction ts arbitrary: w iss ts')
  case Nil
  then show ?case by simp
next
  case (Cons t ts)
  then show ?case
    by (auto split: prod.splits sum.splits dest: hc_task_nofix)
qed

lemma hc_loop_Inr:
  assumes "clock_sound e"
  shows "hc_loop e ts w = (Inr (iss, fx, ts'), w') \<Longrightarrow>
     (\<forall>t \<in> set ts'. settled e (reads w') t) \<and> fs w' = fs w \<and> trace w' = trace w \<and> reads w \<le> reads w'"
proof (induction ts arbitrary: w iss fx ts')
  case Nil
  then show ?case by simp
next
  case (Cons t ts)
  from Cons.prems obtain i f t1 w1 iss' fx' ts1 where
    h: "hc_task e t w = (Inr (i, f, t1), w1)" and l: "hc_loop e ts w1 = (Inr (iss', fx', ts1), w')"
    and ts': "ts' = t1 # ts1"
    by (auto split: prod.splits sum.splits)
  from hc_task_Inr [OF assms h] Cons.IH [OF l] ts' show ?case
    by (auto intro: settled_mono)
qed

lemma hc_loop_settled:
  "\<forall>t \<in> set ts. settled e (reads w) t \<Longrightarrow>
     \<exists>iss w'. hc_loop e ts w = (Inr (iss, [], ts), w') \<and> fs w' = fs w \<and> trace w' = trace w \<and>
       reads w \<le> reads w'"
proof (induction ts arbitrary: w)
  case Nil
  then show ?case by simp
next
  case (Cons t ts)
  from Cons.prems hc_task_settled_noop obtain i w1 where
    h: "hc_task e t w = (Inr (i, [], t), w1)" and w1: "fs w1 = fs w" "trace w1 = trace w"
      "reads w \<le> reads w1"
    by fastforce
  with Cons.prems have "\<forall>t \<in> set ts. settled e (reads w1) t"
    by (auto intro: settled_mono)
  from Cons.IH [OF this] obtain iss w' where
    "hc_loop e ts w1 = (Inr (iss, [], ts), w')" "fs w' = fs w1" "trace w' = trace w1" "reads w1 \<le> reads w'"
    by blast
  with h w1 show ?case by auto
qed

section \<open>Writes and errors of the pass\<close>

lemma hc_future_io: "hc_future e t w = (x, w1) \<Longrightarrow> fs w1 = fs w \<and> trace w1 = trace w"
  by (auto simp: hc_future_def now_def Let_def split: if_splits)

lemma hc_completion_io: "hc_completion e t w = (x, w1) \<Longrightarrow> fs w1 = fs w \<and> trace w1 = trace w"
  by (auto simp: hc_completion_def now_def split: if_splits)

lemma hc_task_io: "hc_task e t w = (r, w1) \<Longrightarrow> fs w1 = fs w \<and> trace w1 = trace w"
  by (auto simp: hc_task_def split: prod.splits sum.splits dest!: hc_future_io hc_completion_io)

lemma hc_loop_io: "hc_loop e ts w = (r, w1) \<Longrightarrow> fs w1 = fs w \<and> trace w1 = trace w"
proof (induction ts arbitrary: w r)
  case Nil
  then show ?case by simp
next
  case (Cons t ts)
  then show ?case
    by (auto split: prod.splits sum.splits dest!: hc_task_io)
qed

lemma hc_time_err: "hc_time t = Inl err \<Longrightarrow> err = ZeroDivisionError"
  by (auto simp: hc_time_def Let_def split: if_splits)

lemma hc_task_err: "hc_task e t w = (Inl err, w1) \<Longrightarrow> err = ZeroDivisionError"
  by (auto simp: hc_task_def split: prod.splits sum.splits dest: hc_time_err)

lemma hc_loop_err: "hc_loop e ts w = (Inl err, w1) \<Longrightarrow> err = ZeroDivisionError"
proof (induction ts arbitrary: w)
  case Nil
  then show ?case by simp
next
  case (Cons t ts)
  then show ?case
    by (auto split: prod.splits sum.splits dest: hc_task_err)
qed

text \<open>Checks 1--3 change neither the id nor the minutes, so check 4 sees the task as loaded.\<close>

lemma hc_task_time_Inl:
  "hc_time t = Inl err \<Longrightarrow> \<exists>w1. hc_task e t w = (Inl err, w1)"
proof -
  assume tm: "hc_time t = Inl err"
  obtain i1 f1 t1 where o: "hc_orphaned t = (i1, f1, t1)" by (cases "hc_orphaned t") auto
  obtain i2 f2 t2 where p: "hc_progress t1 = (i2, f2, t2)" by (cases "hc_progress t1") auto
  obtain i3 f3 t3 w1 where c: "hc_completion e t2 w = ((i3, f3, t3), w1)"
    by (cases "hc_completion e t2 w") auto
  have "hc_time t1 = hc_time t"
    using hc_orphaned_cases [OF o] by auto
  moreover have "hc_time t2 = hc_time t1"
    using hc_progress_cases [OF p] by auto
  moreover have "hc_time t3 = hc_time t2"
    using hc_completion_after [OF c] by (metis hc_time_frame(1))
  ultimately show ?thesis
    using tm o p c by (simp add: hc_task_def)
qed

lemma hc_loop_time_Inl:
  "t \<in> set ts \<Longrightarrow> hc_time t = Inl err \<Longrightarrow> \<exists>err' w1. hc_loop e ts w = (Inl err', w1)"
proof (induction ts arbitrary: w)
  case Nil
  then show ?case by simp
next
  case (Cons u ts)
  show ?case
  proof (cases "t = u")
    case True
    with Cons.prems hc_task_time_Inl obtain w1 where "hc_task e u w = (Inl err, w1)" by blast
    then show ?thesis by simp
  next
    case False
    with Cons.prems have "t \<in> set ts" by simp
    show ?thesis
    proof (cases "hc_task e u w")
      case (Pair r w1)
      then show ?thesis
        using Cons.IH [OF \<open>t \<in> set ts\<close> Cons.prems(2), of w1]
        by (cases r) (auto split: prod.splits sum.splits)
    qed
  qed
qed

section \<open>Fields the pass leaves alone\<close>

lemma hc_future_keeps:
  "hc_future e t w = ((i, f, t1), w1) \<Longrightarrow> (status t = Completed \<longrightarrow> truthy_str (completed_at t)) \<Longrightarrow>
   t1 = t\<lparr>completed_at := completed_at t1\<rparr> \<and> (status t1 = Completed \<longrightarrow> truthy_str (completed_at t1))"
  by (auto simp: hc_future_def now_def stamp_def Let_def split: if_splits)

text \<open>
  The pass never changes a task's status or block reason, and every completed task
  leaves it with a completion time.
\<close>

lemma hc_task_shape:
  assumes h: "hc_task e t w = (Inr (i, f, t'), w')"
  shows "t' = t\<lparr>recurring := recurring t', progress := progress t', completed_at := completed_at t'\<rparr> \<and>
    recurring t' = (if truthy_str (jget (recurring t)) \<and> \<not> truthy_str (goal_id t) then JNull else recurring t) \<and>
    progress t' = (if status t = Completed \<and> get_or (progress t) 100 < 100 then Some 100 else progress t) \<and>
    (status t' = Completed \<longrightarrow> truthy_str (completed_at t')) \<and>
    (truthy_str (jget (recurring t)) \<and> \<not> truthy_str (goal_id t) \<longrightarrow> f \<noteq> [])"
proof -
  obtain i1 f1 t1 where o: "hc_orphaned t = (i1, f1, t1)" by (cases "hc_orphaned t") auto
  obtain i2 f2 t2 where p: "hc_progress t1 = (i2, f2, t2)" by (cases "hc_progress t1") auto
  obtain i3 f3 t3 w1 where c: "hc_completion e t2 w = ((i3, f3, t3), w1)"
    by (cases "hc_completion e t2 w") auto
  obtain i4 where tm: "hc_time t3 = Inr i4"
    using h o p c by (cases "hc_time t3") (auto simp: hc_task_def)
  obtain i5 f5 t5 w2 where fu: "hc_future e t3 w1 = ((i5, f5, t5), w2)"
    by (cases "hc_future e t3 w1") auto
  from h o p c tm fu have t': "t' = t5" and f: "f = f1 @ f2 @ f3 @ f5"
    by (simp_all add: hc_task_def)
  have f1: "truthy_str (jget (recurring t)) \<and> \<not> truthy_str (goal_id t) \<longrightarrow> f1 \<noteq> []"
    using o by (auto simp: hc_orphaned_def)
  have t1: "t1 = (if truthy_str (jget (recurring t)) \<and> \<not> truthy_str (goal_id t) then t\<lparr>recurring := JNull\<rparr> else t)"
    using o by (auto simp: hc_orphaned_def split: if_splits)
  have t2: "t2 = (if status t1 = Completed \<and> get_or (progress t1) 100 < 100 then t1\<lparr>progress := Some 100\<rparr> else t1)"
    using p by (auto simp: hc_progress_def split: if_splits)
  from hc_completion_after [OF c] have e3: "t3 = t2\<lparr>completed_at := completed_at t3\<rparr>"
    and c3: "status t3 = Completed \<longrightarrow> truthy_str (completed_at t3)" by simp_all
  from hc_future_keeps [OF fu c3] have e5: "t5 = t3\<lparr>completed_at := completed_at t5\<rparr>"
    and c5: "status t5 = Completed \<longrightarrow> truthy_str (completed_at t5)" by simp_all
  obtain ca where t5: "t5 = t2\<lparr>completed_at := ca\<rparr>"
    using e3 e5 by (metis task.update_convs(15) task.surjective)
  have "t' = t\<lparr>recurring := recurring t', progress := progress t', completed_at := completed_at t'\<rparr>"
    unfolding t' t5 t2 t1 by auto
  moreover have "recurring t' = (if truthy_str (jget (recurring t)) \<and> \<not> truthy_str (goal_id t) then JNull else recurring t)"
    unfolding t' t5 t2 t1 by auto
  moreover have "progress t' = (if status t = Completed \<and> get_or (progress t) 100 < 100 then Some 100 else progress t)"
    unfolding t' t5 t2 t1 by auto
  ultimately show ?thesis using c5 t' f f1 by simp
qed

lemma hc_task_fields:
  assumes h: "hc_task e t w = (Inr (i, f, t'), w')"
  shows "status t' = status t \<and> blocked_reason t' = blocked_reason t \<and>
    (status t' = Completed \<longrightarrow> truthy_str (completed_at t'))"
proof -
  have e: "t' = t\<lparr>recurring := recurring t', progress := progress t', completed_at := completed_at t'\<rparr>"
    using hc_task_shape [OF h] by (rule conjunct1)
  have c: "status t' = Completed \<longrightarrow> truthy_str (completed_at t')"
    using hc_task_shape [OF h] by blast
  have "status t' = status t" "blocked_reason t' = blocked_reason t"
    using arg_cong [OF e, of status] arg_cong [OF e, of blocked_reason] by simp_all
  with c show ?thesis by simp
qed

lemma hc_loop_fields:
  "hc_loop e ts w = (Inr (iss, fx, ts'), w') \<Longrightarrow>
     list_all2 (\<lambda>t t'. status t' = status t \<and> blocked_reason t' = blocked_reason t \<and>
       (status t' = Completed \<longrightarrow> truthy_str (completed_at t'))) ts ts'"
proof (induction ts arbitrary: w iss fx ts')
  case Nil
  then show ?case by simp
next
  case (Cons t ts)
  from Cons.prems obtain i f t1 w1 iss' fx' ts1 where
    h: "hc_task e t w = (Inr (i, f, t1), w1)" and l: "hc_loop e ts w1 = (Inr (iss', fx', ts1), w')"
    and ts': "ts' = t1 # ts1"
    by (auto split: prod.splits sum.splits)
  from hc_task_fields [OF h] Cons.IH [OF l] ts' show ?case
    by simp
qed

lemma hc_loop_shape:
  "hc_loop e ts w = (Inr (iss, fx, ts'), w') \<Longrightarrow>
     list_all2 hc_rel ts ts' \<and> ((\<exists>t \<in> set ts. truthy_str (jget (recurring t)) \<and> \<not> truthy_str (goal_id t)) \<longrightarrow> fx \<noteq> [])"
proof (induction ts arbitrary: w iss fx ts')
  case Nil
  then show ?case by simp
next
  case (Cons t ts)
  from Cons.prems obtain i f t1 w1 iss' fx' ts1 where
    h: "hc_task e t w = (Inr (i, f, t1), w1)" and l: "hc_loop e ts w1 = (Inr (iss', fx', ts1), w')"
    and ts': "ts' = t1 # ts1" and fx: "fx = f @ fx'"
    by (auto split: prod.splits sum.splits)
  from hc_task_shape [OF h] Cons.IH [OF l] ts' fx show ?case
    by (auto simp: hc_rel_def)
qed

lemma health_check_store:
  assumes "health_check e w = (Inr (iss, fx), w')" and "load2 (tasks_json (fs w)) = Inr d"
  obtains ts where "list_all2 hc_rel (tasks d) ts"
    and "fx \<noteq> [] \<Longrightarrow> tasks_json (fs w') = Valid (d\<lparr>tasks := ts\<rparr>)"
    and "(\<exists>t \<in> set (tasks d). truthy_str (jget (recurring t)) \<and> \<not> truthy_str (goal_id t)) \<Longrightarrow> fx \<noteq> []"
proof -
  from assms obtain ts wl where l: "hc_loop e (tasks d) w = (Inr (iss, fx, ts), wl)"
    by (auto simp: health_check_def split: sum.splits prod.splits)
  have "fx \<noteq> [] \<Longrightarrow> tasks_json (fs w') = Valid (d\<lparr>tasks := ts\<rparr>)"
    using assms l by (auto simp: health_check_def Let_def now_def split: prod.splits)
  with hc_loop_shape [OF l] that show ?thesis by blast
qed

lemma hc_rel_same:
  assumes "hc_rel t t'"
  shows "t_id t' = t_id t" and "goal_id t' = goal_id t" and "status t' = status t"
proof -
  have e: "t' = t\<lparr>recurring := recurring t', progress := progress t', completed_at := completed_at t'\<rparr>"
    using assms unfolding hc_rel_def by (rule conjunct1)
  show "t_id t' = t_id t" using arg_cong [OF e, of t_id] by simp
  show "goal_id t' = goal_id t" using arg_cong [OF e, of goal_id] by simp
  show "status t' = status t" using arg_cong [OF e, of status] by simp
qed

lemma hc_rel_t_id: "list_all2 hc_rel ts ts' \<Longrightarrow> map t_id ts = map t_id ts'"
  by (induction rule: list_all2_induct) (simp_all add: hc_rel_same)


section \<open>Properties of the scan\<close>

text \<open>
  C2. A scan that applies a fix saves the store first and appends its WAL line after:
  the writes are the truncation and rewrite of \<^verbatim>\<open>tasks.json\<close>, then the WAL line.
\<close>

theorem health_check_save_precedes_wal:
  assumes "health_check e w = (Inr (iss, fx), w')" and "fx \<noteq> []"
  shows "\<exists>d' day x. new_io w w' = [Truncate, WriteStore d', WalAppend day x] \<and>
           w_event x = ''HEALTH_CHECK''"
proof -
  from assms(1) obtain d ts wl where ld: "load2 (tasks_json (fs w)) = Inr d"
    and l: "hc_loop e (tasks d) w = (Inr (iss, fx, ts), wl)"
    by (auto simp: health_check_def split: sum.splits prod.splits)
  from hc_loop_io [OF l] have tr: "trace wl = trace w" by simp
  let ?w2 = "save_data (d\<lparr>tasks := ts\<rparr>) wl"
  have "w' = log_to_wal e ''HEALTH_CHECK'' (HealthContent (length iss) (length fx)
              (iso e (clock e (reads ?w2)))) (?w2\<lparr>reads := Suc (reads ?w2)\<rparr>)"
    using assms ld l by (simp add: health_check_def now_def Let_def)
  then have "trace w' = trace w @ [Truncate, WriteStore (d\<lparr>tasks := ts\<rparr>),
      wal_io e ''HEALTH_CHECK'' (HealthContent (length iss) (length fx)
        (iso e (clock e (reads ?w2)))) (Suc (reads ?w2))]"
    using tr by (simp add: log_to_wal_eq save_data_def)
  then show ?thesis
    by (simp add: new_io_eq wal_io_def)
qed

text \<open>
  C8. Check 4 divides by the estimate: a task whose estimate is 0 and whose logged time is
  positive makes every scan raise \<open>ZeroDivisionError\<close>, before any write, so no
  repair of any task is ever saved while the task is in the store.
\<close>

theorem health_check_zero_estimate_crash:
  assumes "tasks_json (fs w) = Valid d" and "t \<in> set (tasks d)"
    and "estimate_minutes t = Some 0" and "0 < get_or (actual_minutes t) 0"
  shows "\<exists>w'. health_check e w = (Inl ZeroDivisionError, w') \<and> fs w' = fs w \<and> trace w' = trace w"
proof -
  have "hc_time t = Inl ZeroDivisionError"
    using assms(3,4) by (simp add: hc_time_def)
  from hc_loop_time_Inl [OF assms(2) this] obtain err w1
    where l: "hc_loop e (tasks d) w = (Inl err, w1)" by blast
  with hc_loop_err [OF l] hc_loop_io [OF l] assms(1) show ?thesis
    by (simp add: health_check_def)
qed

section \<open>Idempotence\<close>

theorem health_check_idempotent:
  assumes cs: "clock_sound e" and h: "health_check e w = (Inr (iss, fx), w1)"
  shows "\<exists>iss2 w2. health_check e w1 = (Inr (iss2, []), w2)"
proof -
  from h obtain d ts wl where ld: "load2 (tasks_json (fs w)) = Inr d"
    and l: "hc_loop e (tasks d) w = (Inr (iss, fx, ts), wl)"
    by (auto simp: health_check_def split: sum.splits prod.splits)
  let ?w2 = "if fx \<noteq> [] then save_data (d\<lparr>tasks := ts\<rparr>) wl else wl"
  have w1: "w1 = log_to_wal e ''HEALTH_CHECK'' (HealthContent (length iss) (length fx)
              (iso e (clock e (reads ?w2)))) (?w2\<lparr>reads := Suc (reads ?w2)\<rparr>)"
    using h ld l by (simp add: health_check_def now_def Let_def)
  from hc_loop_Inr [OF cs l] have st: "\<forall>t \<in> set ts. settled e (reads wl) t"
    and fl: "fs wl = fs w" by auto
  have ld1: "load2 (tasks_json (fs w1)) = Inr (d\<lparr>tasks := ts\<rparr>)"
  proof (cases "fx = []")
    case True
    with l have "ts = tasks d" by (simp add: hc_loop_nofix)
    with True ld fl w1 show ?thesis by simp
  next
    case False
    with w1 show ?thesis by simp
  qed
  have "reads wl \<le> reads w1" using w1 by simp
  with st have "\<forall>t \<in> set ts. settled e (reads w1) t" by (auto intro: settled_mono)
  from hc_loop_settled [OF this] obtain iss2 w' where "hc_loop e ts w1 = (Inr (iss2, [], ts), w')"
    by blast
  with ld1 show ?thesis by (simp add: health_check_def Let_def split: prod.split)
qed

end
