(* ===== verification/Buffer.thy ===== *)
theory Buffer
  imports World
begin

text \<open>
  The working buffer of \<^verbatim>\<open>task_manager_phase2.py\<close>: the WAL-logged commands append
  one line per change to \<^verbatim>\<open>WORKING-BUFFER.md\<close> (\<open>append_to_buffer\<close>, lines 85--100,
  in \<^theory_text>\<open>World\<close>), and \<open>flush_working_buffer\<close> (lines 384--412) moves the whole buffer
  into the day's memory file and empties it, reporting how many lines it flushed.
  \<open>split_nl\<close> is Python's \<open>str.split("\n")\<close>, whose length the report prints.
\<close>

section \<open>Splitting at newlines\<close>

text \<open>\<open>s.split("\n")\<close>: the pieces between newlines, an empty piece at each end
  where \<open>s\<close> starts or ends with a newline, and \<open>[""]\<close> for the empty string.\<close>

fun split_nl :: "string \<Rightarrow> string list" where
  "split_nl [] = [[]]"
| "split_nl (c # s) =
     (if c = CHR 0x0A then [] # split_nl s
      else (case split_nl s of [] \<Rightarrow> [[c]] | x # xs \<Rightarrow> (c # x) # xs))"

section \<open>flush\_working\_buffer\<close>

text \<open>The section appended to the daily file (line 400).\<close>

definition flush_section :: "string \<Rightarrow> string" where
  "flush_section content = newline @ ''## Task Updates'' @ newline @ content @ newline"

text \<open>
  No buffer file: return without output. Otherwise one clock read names the day, the
  section is appended to that day's file, then the buffer is overwritten with the
  empty string; the result is \<open>lines_flushed\<close>.
\<close>

definition flush_working_buffer :: "env \<Rightarrow> world \<Rightarrow> nat option \<times> world" where
  "flush_working_buffer e w =
     (case buffer_md (fs w) of
        None \<Rightarrow> (None, w)
      | Some content \<Rightarrow>
          let (t, w1) = now e w;
              w2 = perform (DailyAppend (ymd e t) (flush_section content)) w1;
              w3 = perform BufferClear w2
          in (Some (length (split_nl content)), w3))"

section \<open>Lemmas\<close>

lemma split_nl_not_Nil [simp]: "split_nl s \<noteq> []"
  by (induction s rule: split_nl.induct) (auto split: list.split)

lemma split_nl_Cons:
  "split_nl (c # s) = (if c = CHR 0x0A then [] # split_nl s else (c # hd (split_nl s)) # tl (split_nl s))"
  using split_nl_not_Nil [of s] by (cases "split_nl s") simp_all

lemma split_nl_append_line:
  "CHR 0x0A \<notin> set x \<Longrightarrow> split_nl (x @ newline @ s) = x # split_nl s"
  by (induction x) (auto simp: newline_def split_nl_Cons)

lemma split_nl_no_newline: "CHR 0x0A \<notin> set x \<Longrightarrow> split_nl x = [x]"
  by (induction x) (auto simp: split_nl_Cons)

text \<open>The writes of a flush: the daily append, then the clearing of the buffer.\<close>

lemma flush_working_buffer_eq:
  "buffer_md (fs w) = Some c \<Longrightarrow>
   flush_working_buffer e w =
     (Some (length (split_nl c)),
      perform BufferClear (perform (DailyAppend (ymd e (clock e (reads w))) (flush_section c))
        (w\<lparr>reads := Suc (reads w)\<rparr>)))"
  by (simp add: flush_working_buffer_def now_def)

lemma flush_working_buffer_new_io:
  "buffer_md (fs w) = Some c \<Longrightarrow> flush_working_buffer e w = (r, w') \<Longrightarrow>
   new_io w w' = [DailyAppend (ymd e (clock e (reads w))) (flush_section c), BufferClear] \<and> extends w w'"
  by (auto simp: flush_working_buffer_eq extends_iff new_io_eq perform_def)

lemma split_nl_pieces: "x \<in> set (split_nl s) \<Longrightarrow> CHR 0x0A \<notin> set x"
proof (induction s arbitrary: x)
  case Nil
  then show ?case by simp
next
  case (Cons c s)
  then show ?case
    using split_nl_not_Nil [of s] by (cases "split_nl s") (auto split: if_splits)
qed

lemma append_to_buffer_content:
  "buffer_md (fs (append_to_buffer e ev dt w)) =
     Some (get_or (buffer_md (fs w)) [] @ ''- '' @ ev @ '' ('' @ iso e (clock e (reads w)) @ ''): '' @ dt @ newline)"
  by (simp add: append_to_buffer_eq)

lemma split_nl_lines:
  "\<forall>x \<in> set xs. CHR 0x0A \<notin> set x \<Longrightarrow> split_nl (concat (map (\<lambda>x. x @ newline) xs)) = xs @ [[]]"
  by (induction xs) (simp_all add: split_nl_append_line)

section \<open>Properties\<close>

text \<open>
  \<open>'\n'.join(s.split('\n')) == s\<close>: joining the pieces of \<open>split_nl\<close> with
  newlines gives the string back, and no piece holds a newline.
\<close>

theorem split_nl_join:
  "concat (map (\<lambda>x. x @ newline) (butlast (split_nl s))) @ last (split_nl s) = s \<and>
   (\<forall>x \<in> set (split_nl s). CHR 0x0A \<notin> set x)"
proof (induction s)
  case Nil
  then show ?case by simp
next
  case (Cons c s)
  then show ?case
    using split_nl_not_Nil [of s]
    by (cases "split_nl s") (auto simp: split_nl_Cons newline_def)
qed

text \<open>
  The count \<open>flush_working_buffer\<close> reports is the number of newlines in the buffer
  plus one.
\<close>

lemma flush_lines_count:
  "buffer_md (fs w) = Some c \<Longrightarrow> fst (flush_working_buffer e w) = Some (Suc (count_list c (CHR 0x0A)))"
proof -
  have "length (split_nl s) = Suc (count_list s (CHR 0x0A))" for s
    by (induction s) (simp_all add: split_nl_Cons del: split_nl.simps(2))
  then show "buffer_md (fs w) = Some c \<Longrightarrow> ?thesis" by (simp add: flush_working_buffer_eq)
qed

text \<open>
  C36. After \<open>n\<close> changes appended to an empty buffer, the flush reports \<open>n + 1\<close> lines
  flushed: every entry ends with a newline, so the split has one empty piece more.
\<close>

theorem flush_after_appends:
  assumes "buffer_md (fs w) = Some []"
    and "\<forall>t. CHR 0x0A \<notin> set (iso e t)"
    and "\<forall>(ev, dt) \<in> set evs. CHR 0x0A \<notin> set ev \<and> CHR 0x0A \<notin> set dt"
  shows "fst (flush_working_buffer e (fold (\<lambda>(ev, dt). append_to_buffer e ev dt) evs w)) = Some (Suc (length evs))"
proof -
  have "\<exists>xs. buffer_md (fs (fold (\<lambda>(ev, dt). append_to_buffer e ev dt) evs w)) =
      Some (c @ concat (map (\<lambda>x. x @ newline) xs)) \<and> length xs = length evs \<and> (\<forall>x \<in> set xs. CHR 0x0A \<notin> set x)"
    if "buffer_md (fs w) = Some c" "\<forall>(ev, dt) \<in> set evs. CHR 0x0A \<notin> set ev \<and> CHR 0x0A \<notin> set dt" for c w
    using that
  proof (induction evs arbitrary: c w)
    case Nil
    then show ?case by simp
  next
    case (Cons a evs)
    obtain ev dt where a: "a = (ev, dt)" by fastforce
    let ?l = "''- '' @ ev @ '' ('' @ iso e (clock e (reads w)) @ ''): '' @ dt"
    from Cons.IH [of "append_to_buffer e ev dt w" "c @ ?l @ newline"] Cons.prems
    obtain xs where "buffer_md (fs (fold (\<lambda>(ev, dt). append_to_buffer e ev dt) evs (append_to_buffer e ev dt w))) =
        Some ((c @ ?l @ newline) @ concat (map (\<lambda>x. x @ newline) xs))" "length xs = length evs"
        "\<forall>x \<in> set xs. CHR 0x0A \<notin> set x"
      by (auto simp: a append_to_buffer_content)
    moreover have "CHR 0x0A \<notin> set ?l" using assms(2) Cons.prems(2) a by auto
    ultimately show ?case
      by (intro exI [of _ "?l # xs"]) (simp add: a)
  qed
  from this [OF assms(1,3)] obtain xs where
    "buffer_md (fs (fold (\<lambda>(ev, dt). append_to_buffer e ev dt) evs w)) = Some (concat (map (\<lambda>x. x @ newline) xs))"
    "length xs = length evs" "\<forall>x \<in> set xs. CHR 0x0A \<notin> set x"
    by auto
  then show ?thesis
    by (simp add: flush_working_buffer_eq split_nl_lines)
qed

text \<open>
  C35. A crash during a flush loses no update: after any prefix of its writes, the
  buffer's content is still in the buffer or already in the day's file. After the
  first write it is in both, and the next flush appends it a second time.
\<close>

theorem flush_crash_no_loss:
  assumes "buffer_md (fs w) = Some c" and "flush_working_buffer e w = (r, w')"
  shows "buffer_md (replay (fs w) (take k (new_io w w'))) = Some c \<or>
     (ymd e (clock e (reads w)), flush_section c) \<in> set (daily_md (replay (fs w) (take k (new_io w w'))))"
  using flush_working_buffer_new_io [OF assms] assms(1)
  by (cases k; cases "k - 1") simp_all

end
