(* ===== verification/Machine.thy ===== *)
theory Machine
  imports Phase1 Phase2 Health Buffer
begin

text \<open>
  The whole program as one state machine over the world: a step runs one command of
  either script to its end, or runs it and crashes after some prefix of its writes.
  The invariant of the store the development proves here is the one the two scripts
  keep between them: a blocked task has a \<open>blocked_reason\<close>, and a completed task has
  a (non-empty) \<open>completed_at\<close>, so that check 3 of the health scan never fires on a
  reachable store. The range \<open>0..100\<close> of the progress is not invariant (phase 2 writes
  any integer), nor is \<open>completed \<Longrightarrow> progress = 100\<close> (phase 1 lowers the progress of a
  completed task); see the theorems of \<^theory_text>\<open>Phase1\<close> and \<^theory_text>\<open>Phase2\<close>.
\<close>

section \<open>Commands\<close>

text \<open>The commands of the two command lines (phase 1 lines 335--351, phase 2 lines 415--457).\<close>

datatype command =
    P1Progress string string
  | P1Blocked string string
  | P1Unblock string
  | P1LogTime string string
  | P1CreateRecurring string string string "string option" "string option"
  | P1NextRecurring string
  | P1Velocity string
  | P2Task task_cmd
  | P2Health
  | P2Flush

text \<open>
  The exit status of a run: \<open>Inr ()\<close> for a normal end, \<open>Inl err\<close> for the
  \<open>sys.exit(1)\<close> or the exception that ended it.
\<close>

definition exit_of :: "(error + 'a) \<times> world \<Rightarrow> (error + unit) \<times> world" where
  "exit_of r = (map_sum id (\<lambda>_. ()) (fst r), snd r)"

fun exec_command :: "env \<Rightarrow> command \<Rightarrow> world \<Rightarrow> (error + unit) \<times> world" where
  "exec_command e (P1Progress tid p) w = exit_of (mark_progress1 e tid p w)"
| "exec_command e (P1Blocked tid r) w = exit_of (mark_blocked1 e tid r w)"
| "exec_command e (P1Unblock tid) w = exit_of (unblock_task e tid w)"
| "exec_command e (P1LogTime tid m) w = exit_of (log_time1 e tid m w)"
| "exec_command e (P1CreateRecurring gid ttl rec prio est) w = exit_of (create_recurring e gid ttl rec prio est w)"
| "exec_command e (P1NextRecurring tid) w = exit_of (next_recurring e tid w)"
| "exec_command e (P1Velocity gid) w = exit_of (show_velocity gid w)"
| "exec_command e (P2Task c) w = exit_of (run_task_cmd e c w)"
| "exec_command e P2Health w = exit_of (health_check e w)"
| "exec_command e P2Flush w = (Inr (), snd (flush_working_buffer e w))"

text \<open>The world a run of a command leaves.\<close>

definition run_command :: "env \<Rightarrow> command \<Rightarrow> world \<Rightarrow> world" where
  "run_command e c w = snd (exec_command e c w)"

text \<open>The world a crash leaves after the first \<open>k\<close> writes of a run.\<close>

definition crash_after :: "nat \<Rightarrow> world \<Rightarrow> world \<Rightarrow> world" where
  "crash_after k w w' = w'\<lparr>fs := replay (fs w) (take k (new_io w w')), trace := trace w @ take k (new_io w w')\<rparr>"

inductive step :: "env \<Rightarrow> world \<Rightarrow> world \<Rightarrow> bool" where
  run: "step e w (run_command e c w)"
| crash: "step e w (crash_after k w (run_command e c w))"

inductive reachable :: "env \<Rightarrow> world \<Rightarrow> world \<Rightarrow> bool" where
  start: "reachable e w0 w0"
| later: "reachable e w0 w \<Longrightarrow> step e w w' \<Longrightarrow> reachable e w0 w'"

section \<open>The invariant\<close>

definition task_inv :: "task \<Rightarrow> bool" where
  "task_inv t \<longleftrightarrow>
     (status t = Blocked \<longrightarrow> jget (blocked_reason t) \<noteq> None) \<and>
     (status t = Completed \<longrightarrow> truthy_str (completed_at t))"

definition store_inv :: "store \<Rightarrow> bool" where
  "store_inv d \<longleftrightarrow> list_all task_inv (tasks d)"

fun file_inv :: "store_file \<Rightarrow> bool" where
  "file_inv (Valid d) = store_inv d"
| "file_inv _ = True"

fun io_ok :: "io \<Rightarrow> bool" where
  "io_ok (WriteStore d) = store_inv d"
| "io_ok _ = True"

text \<open>A run from \<open>w\<close> to \<open>w'\<close> whose writes store only stores that keep the invariant.\<close>

definition writes_ok :: "world \<Rightarrow> world \<Rightarrow> bool" where
  "writes_ok w w' \<longleftrightarrow> extends w w' \<and> list_all io_ok (new_io w w')"

section \<open>Lemmas\<close>

lemma run_command_simps [simp]:
  "run_command e (P1Progress tid p) w = snd (mark_progress1 e tid p w)"
  "run_command e (P1Blocked tid r) w = snd (mark_blocked1 e tid r w)"
  "run_command e (P1Unblock tid) w = snd (unblock_task e tid w)"
  "run_command e (P1LogTime tid m) w = snd (log_time1 e tid m w)"
  "run_command e (P1CreateRecurring gid ttl rec prio est) w = snd (create_recurring e gid ttl rec prio est w)"
  "run_command e (P1NextRecurring tid) w = snd (next_recurring e tid w)"
  "run_command e (P1Velocity gid) w = snd (show_velocity gid w)"
  "run_command e (P2Task c) w = snd (run_task_cmd e c w)"
  "run_command e P2Health w = snd (health_check e w)"
  "run_command e P2Flush w = snd (flush_working_buffer e w)"
  by (simp_all add: run_command_def exit_of_def)

lemma file_inv_replay:
  "file_inv (tasks_json f) \<Longrightarrow> list_all io_ok ios \<Longrightarrow> file_inv (tasks_json (replay f ios))"
proof (induction ios arbitrary: f)
  case Nil
  then show ?case by simp
next
  case (Cons a ios)
  have "file_inv (tasks_json (apply_io a f))"
    using Cons.prems by (cases a) simp_all
  with Cons show ?case by simp
qed

lemma writes_ok_same: "fs w' = fs w \<Longrightarrow> trace w' = trace w \<Longrightarrow> writes_ok w w'"
  by (simp add: writes_ok_def extends_def new_io_def)

lemma writes_ok_trans [trans]: "writes_ok w1 w2 \<Longrightarrow> writes_ok w2 w3 \<Longrightarrow> writes_ok w1 w3"
proof -
  assume a: "writes_ok w1 w2" "writes_ok w2 w3"
  then have "extends w1 w3 \<and> new_io w1 w3 = new_io w1 w2 @ new_io w2 w3"
    by (intro extends_trans) (simp_all add: writes_ok_def)
  with a show ?thesis by (simp add: writes_ok_def)
qed

lemma writes_ok_perform: "io_ok a \<Longrightarrow> writes_ok w (perform a w)"
  by (simp add: writes_ok_def)

lemma writes_ok_save: "store_inv d \<Longrightarrow> writes_ok w (save_data d w)"
  unfolding save_data_def by (rule writes_ok_trans [OF writes_ok_perform writes_ok_perform]) simp_all

lemma io_ok_no_store: "\<not> touches_store a \<Longrightarrow> io_ok a"
  by (cases a) simp_all

lemma writes_ok_load1: "writes_ok w (snd (load1 w))"
  using load1_world [of w] by (auto simp: writes_ok_def list_all_iff io_ok_no_store)

lemma store_inv_load1: "file_inv (tasks_json (fs w)) \<Longrightarrow> store_inv (fst (load1 w))"
  by (cases "tasks_json (fs w)" rule: load_data1.cases) (simp_all add: load1_def empty_store_def store_inv_def)

lemma store_inv_set_task: "store_inv d \<Longrightarrow> task_inv t \<Longrightarrow> store_inv (set_task d k t)"
  by (auto simp: store_inv_def list_all_iff dest: set_update_subset_insert [THEN subsetD])

lemma task_inv_nth: "store_inv d \<Longrightarrow> k < length (tasks d) \<Longrightarrow> task_inv (tasks d ! k)"
  by (simp add: store_inv_def list_all_length)

lemma stamp_not_Nil [simp]: "stamp e c \<noteq> []"
  by (simp add: stamp_def)

lemma writes_ok_phase1:
  "load1 w = (d, w0) \<Longrightarrow> fs w1 = fs w0 \<Longrightarrow> trace w1 = trace w0 \<Longrightarrow> store_inv d' \<Longrightarrow>
   writes_ok w (save_data d' w1)"
proof -
  assume l: "load1 w = (d, w0)" and f: "fs w1 = fs w0" "trace w1 = trace w0" and i: "store_inv d'"
  have "writes_ok w w0" using writes_ok_load1 [of w] l by simp
  also have "writes_ok w0 w1" using f by (rule writes_ok_same)
  also have "writes_ok w1 (save_data d' w1)" using i by (rule writes_ok_save)
  finally show ?thesis .
qed

lemma phase1_load_cases:
  assumes "file_inv (tasks_json (fs w))"
    and "\<And>d w0. load1 w = (d, w0) \<Longrightarrow> store_inv d \<Longrightarrow> writes_ok w w0 \<Longrightarrow> writes_ok w w'"
  shows "writes_ok w w'"
proof -
  obtain d w0 where l: "load1 w = (d, w0)" by (cases "load1 w")
  show ?thesis
    using assms(2) [OF l] store_inv_load1 [OF assms(1)] writes_ok_load1 [of w] l by simp
qed

lemma store_inv_update_append:
  "store_inv d \<Longrightarrow> task_inv t \<Longrightarrow> task_inv n \<Longrightarrow> store_inv (d\<lparr>tasks := (tasks d)[k := t] @ [n]\<rparr>)"
  using store_inv_set_task [of d t k] by (simp add: store_inv_def)

lemma store_inv_append: "store_inv d \<Longrightarrow> task_inv n \<Longrightarrow> store_inv (d\<lparr>tasks := tasks d @ [n]\<rparr>)"
  by (simp add: store_inv_def)

lemmas inv_intros = store_inv_set_task store_inv_update_append store_inv_append

section \<open>Each command keeps the invariant\<close>

lemma mark_progress1_writes_ok:
  "file_inv (tasks_json (fs w)) \<Longrightarrow> writes_ok w (snd (mark_progress1 e tid p w))"
proof (rule phase1_load_cases)
  fix d w0 assume l: "load1 w = (d, w0)" and d: "store_inv d" and w0: "writes_ok w w0"
  show "writes_ok w (snd (mark_progress1 e tid p w))"
  proof (cases "find_task_by_id d tid")
    case None
    then show ?thesis using phase1_TaskNotFound(1) [of w tid e p] l w0 by simp
  next
    case (Some k)
    have t: "task_inv (tasks d ! k)" using task_inv_nth [OF d] find_task_by_id_Some [OF Some] by simp
    show ?thesis
    proof (cases "py_int p")
      case None
      then show ?thesis using phase1_ValueError(1) [of w tid k p e] l Some w0 by simp
    next
      case (Some n)
      show ?thesis
      proof (cases "0 \<le> n \<and> n \<le> 100")
        case True
        then show ?thesis
          using t by (auto simp: mark_progress1_eq [OF l \<open>_ = Some k\<close> Some] Let_def task_inv_def
              intro!: writes_ok_phase1 [OF l] inv_intros d)
      next
        case False
        then show ?thesis using mark_progress1_range [of w tid k p n e] l \<open>_ = Some k\<close> Some w0 by simp
      qed
    qed
  qed
qed

lemma mark_blocked1_writes_ok:
  "file_inv (tasks_json (fs w)) \<Longrightarrow> writes_ok w (snd (mark_blocked1 e tid r w))"
proof (rule phase1_load_cases)
  fix d w0 assume l: "load1 w = (d, w0)" and d: "store_inv d" and w0: "writes_ok w w0"
  show "writes_ok w (snd (mark_blocked1 e tid r w))"
  proof (cases "find_task_by_id d tid")
    case None
    then show ?thesis using phase1_TaskNotFound(2) [of w tid e r] l w0 by simp
  next
    case (Some k)
    then show ?thesis
      by (auto simp: mark_blocked1_eq [OF l Some] Let_def task_inv_def intro!: writes_ok_phase1 [OF l] inv_intros d)
  qed
qed

lemma unblock_task_writes_ok:
  "file_inv (tasks_json (fs w)) \<Longrightarrow> writes_ok w (snd (unblock_task e tid w))"
proof (rule phase1_load_cases)
  fix d w0 assume l: "load1 w = (d, w0)" and d: "store_inv d" and w0: "writes_ok w w0"
  show "writes_ok w (snd (unblock_task e tid w))"
  proof (cases "find_task_by_id d tid")
    case None
    then show ?thesis using phase1_TaskNotFound(3) [of w tid e] l w0 by simp
  next
    case (Some k)
    then show ?thesis
      by (auto simp: unblock_task_eq [OF l Some] Let_def task_inv_def intro!: writes_ok_phase1 [OF l] inv_intros d)
  qed
qed

lemma log_time1_writes_ok:
  "file_inv (tasks_json (fs w)) \<Longrightarrow> writes_ok w (snd (log_time1 e tid m w))"
proof (rule phase1_load_cases)
  fix d w0 assume l: "load1 w = (d, w0)" and d: "store_inv d" and w0: "writes_ok w w0"
  show "writes_ok w (snd (log_time1 e tid m w))"
  proof (cases "find_task_by_id d tid")
    case None
    then show ?thesis using phase1_TaskNotFound(4) [of w tid e m] l w0 by simp
  next
    case (Some k)
    have t: "task_inv (tasks d ! k)" using task_inv_nth [OF d] find_task_by_id_Some [OF Some] by simp
    show ?thesis
    proof (cases "py_int m")
      case None
      then show ?thesis using phase1_ValueError(2) [of w tid k m e] l Some w0 by simp
    next
      case (Some n)
      then show ?thesis
        using t by (auto simp: log_time1_eq [OF l \<open>_ = Some k\<close> Some] Let_def task_inv_def
            intro!: writes_ok_phase1 [OF l] inv_intros d split: option.split)
    qed
  qed
qed

lemma next_recurring_writes_ok:
  "file_inv (tasks_json (fs w)) \<Longrightarrow> writes_ok w (snd (next_recurring e tid w))"
proof (rule phase1_load_cases)
  fix d w0 assume l: "load1 w = (d, w0)" and d: "store_inv d" and w0: "writes_ok w w0"
  show "writes_ok w (snd (next_recurring e tid w))"
  proof (cases "find_task_by_id d tid")
    case None
    then show ?thesis using phase1_TaskNotFound(5) [of w tid e] l w0 by simp
  next
    case (Some k)
    show ?thesis
    proof (cases "is_recurring1 (tasks d ! k) \<and> 100 \<le> get_or (progress (tasks d ! k)) 0")
      case True
      then show ?thesis
        using task_inv_nth [OF d] find_task_by_id_Some [OF Some]
        by (auto simp: next_recurring_eq [OF l Some] Let_def task_inv_def intro!: writes_ok_phase1 [OF l] inv_intros d)
    next
      case False
      then show ?thesis using next_recurring_reject [of w tid k e] l Some w0 by simp
    qed
  qed
qed

lemma create_recurring_writes_ok:
  "file_inv (tasks_json (fs w)) \<Longrightarrow> writes_ok w (snd (create_recurring e gid ttl rec prio est w))"
proof (rule phase1_load_cases)
  fix d w0 assume l: "load1 w = (d, w0)" and d: "store_inv d" and w0: "writes_ok w w0"
  show "writes_ok w (snd (create_recurring e gid ttl rec prio est w))"
  proof (cases "find_goal_by_id d gid")
    case None
    then show ?thesis using create_recurring_GoalNotFound [of w gid e ttl rec prio est] l w0 by simp
  next
    case (Some g)
    show ?thesis
    proof (cases "estimate_arg est")
      case (Inl err)
      have "writes_ok w0 (w0\<lparr>uuids := Suc (uuids w0), reads := Suc (Suc (reads w0))\<rparr>)"
        by (rule writes_ok_same) simp_all
      with w0 show ?thesis using create_recurring_ValueError [OF l Some Inl] by (auto intro: writes_ok_trans)
    next
      case (Inr em)
      then show ?thesis
        by (auto simp: create_recurring_eq [OF l Some Inr] Let_def task_inv_def
            intro!: writes_ok_phase1 [OF l] inv_intros d)
    qed
  qed
qed

lemma show_velocity_world: "snd (show_velocity gid w) = snd (load1 w)"
  by (cases "load1 w") (simp add: show_velocity_def Let_def split: option.split)

lemma show_velocity_writes_ok: "writes_ok w (snd (show_velocity gid w))"
  by (simp add: show_velocity_world writes_ok_load1)

lemma store_inv_load2: "file_inv (tasks_json f) \<Longrightarrow> load2 (tasks_json f) = Inr d \<Longrightarrow> store_inv d"
  by (cases "tasks_json f" rule: load_data1.cases) (auto simp: empty_store_def store_inv_def)

text \<open>The WAL-logged commands: the one store they save replaces one task by what their
  change makes of it.\<close>

lemma writes_ok_log_to_wal: "writes_ok w (log_to_wal e ev c w)"
proof -
  have "writes_ok w (w\<lparr>reads := Suc (Suc (reads w))\<rparr>)" by (rule writes_ok_same) simp_all
  also have "writes_ok (w\<lparr>reads := Suc (Suc (reads w))\<rparr>) (log_to_wal e ev c w)"
    by (simp add: log_to_wal_eq wal_io_def writes_ok_perform)
  finally show ?thesis .
qed

lemma wal_mutation_writes_ok:
  assumes ch: "\<And>t u. task_inv t \<Longrightarrow> task_inv (ch t u)" and fi: "file_inv (tasks_json (fs w))"
  shows "writes_ok w (snd (wal_mutation e tid ev c ch a bev dt w))"
proof (cases "wal_mutation e tid ev c ch a bev dt w")
  case (Pair r w')
  show ?thesis
  proof (cases r)
    case (Inl err)
    then have "w' = w" using wal_mutation_Inl Pair by simp
    then show ?thesis using Pair by (simp add: writes_ok_same)
  next
    case (Inr t')
    from Pair [unfolded Inr] show ?thesis
    proof (rule wal_mutation_Inr)
      fix d k rest
      assume ld: "load2 (tasks_json (fs w)) = Inr d" and fd: "find_task_by_id d tid = Some k"
        and t': "t' = ch (tasks d ! k) (stamp e (clock e (Suc (Suc (Suc (reads w))))))"
        and io: "new_io w w' = wal_io e ev (c (tasks d ! k) (iso e (clock e (reads w)))) (Suc (reads w))
           # Truncate # WriteStore (set_task d k t') # rest"
        and ns: "list_all (\<lambda>x. \<not> touches_store x) rest" and ex: "extends w w'"
      have d: "store_inv d" using store_inv_load2 [OF fi ld] .
      have "task_inv t'"
        using t' ch task_inv_nth [OF d] find_task_by_id_Some [OF fd] by simp
      with d ns have "list_all io_ok (new_io w w')"
        by (simp add: io wal_io_def store_inv_set_task list_all_iff io_ok_no_store)
      with ex Pair show ?thesis by (simp add: writes_ok_def)
    qed
  qed
qed

lemma run_task_cmd_writes_ok:
  "file_inv (tasks_json (fs w)) \<Longrightarrow> writes_ok w (snd (run_task_cmd e c w))"
  by (cases c) (simp_all only: run_task_cmd.simps mark_progress2_shape log_time2_shape mark_blocked2_shape,
      (rule wal_mutation_writes_ok; auto simp: task_inv_def progress_status2_def Let_def)+)

lemma health_check_writes_ok:
  assumes fi: "file_inv (tasks_json (fs w))"
  shows "writes_ok w (snd (health_check e w))"
proof (cases "load2 (tasks_json (fs w))")
  case (Inl err)
  then show ?thesis by (simp add: health_check_def writes_ok_same)
next
  case (Inr d)
  note ld = Inr
  have d: "store_inv d" using store_inv_load2 [OF fi ld] .
  obtain r w1 where l: "hc_loop e (tasks d) w = (r, w1)" by fastforce
  have w1: "writes_ok w w1" using hc_loop_io [OF l] by (simp add: writes_ok_same)
  show ?thesis
  proof (cases r)
    case (Inl err)
    then show ?thesis using ld l w1 by (simp add: health_check_def)
  next
    case (Inr x)
    obtain iss fx ts where x: "x = (iss, fx, ts)" by (cases x) auto
    have "list_all task_inv ts"
      using hc_loop_fields [OF l [unfolded Inr x]] d
      by (auto simp: store_inv_def list_all2_conv_all_nth list_all_length task_inv_def)
    then have s: "store_inv (d\<lparr>tasks := ts\<rparr>)" by (simp add: store_inv_def)
    let ?w2 = "if fx \<noteq> [] then save_data (d\<lparr>tasks := ts\<rparr>) w1 else w1"
    have "writes_ok w ?w2" using w1 writes_ok_save [OF s] by (auto intro: writes_ok_trans)
    also have "writes_ok ?w2 (snd (now e ?w2))" by (simp add: now_def writes_ok_same)
    also have "writes_ok (snd (now e ?w2))
        (log_to_wal e ''HEALTH_CHECK'' (HealthContent (length iss) (length fx) (iso e (fst (now e ?w2))))
          (snd (now e ?w2)))"
      by (rule writes_ok_log_to_wal)
    finally show ?thesis
      using ld l by (cases "fx = []") (simp_all add: health_check_def Inr x Let_def split_def)
  qed
qed

lemma flush_writes_ok: "writes_ok w (snd (flush_working_buffer e w))"
proof (cases "buffer_md (fs w)")
  case None
  then show ?thesis by (simp add: flush_working_buffer_def writes_ok_same)
next
  case (Some c)
  then show ?thesis
    using flush_working_buffer_new_io [OF Some, of e] by (simp add: writes_ok_def prod_eq_iff)
qed

lemma run_command_writes_ok:
  "file_inv (tasks_json (fs w)) \<Longrightarrow> writes_ok w (run_command e c w)"
  by (cases c) (simp_all add: mark_progress1_writes_ok mark_blocked1_writes_ok unblock_task_writes_ok
      log_time1_writes_ok create_recurring_writes_ok next_recurring_writes_ok show_velocity_writes_ok
      run_task_cmd_writes_ok health_check_writes_ok flush_writes_ok)

text \<open>One step, run to its end or cut by a crash, keeps the invariant of \<^verbatim>\<open>tasks.json\<close>.\<close>

lemma step_file_inv:
  assumes "step e w w'" and "file_inv (tasks_json (fs w))"
  shows "file_inv (tasks_json (fs w'))"
  using assms(1)
proof (cases rule: step.cases)
  case (run c)
  from run_command_writes_ok [OF assms(2), of e c] have "extends w w'" "list_all io_ok (new_io w w')"
    by (simp_all add: writes_ok_def run)
  then show ?thesis using file_inv_replay [OF assms(2)] by (simp add: extends_def)
next
  case (crash k c)
  from run_command_writes_ok [OF assms(2), of e c] have "list_all io_ok (take k (new_io w (run_command e c w)))"
    by (auto simp: writes_ok_def list_all_iff dest: in_set_takeD)
  then show ?thesis using file_inv_replay [OF assms(2)] by (simp add: crash crash_after_def)
qed

text \<open>
  On an unreadable or unparseable \<^verbatim>\<open>tasks.json\<close> no command writes the store: phase 2
  raises at its load, phase 1 works on the empty store.
\<close>

lemma find_empty_store [simp]:
  "find_task_by_id empty_store tid = None" "find_goal_by_id empty_store gid = None"
  by (simp_all add: empty_store_def find_task_by_id_def find_goal_by_id_def)

lemma unloadable_run_no_store:
  assumes "tasks_json (fs w) \<in> {Corrupt, Unreadable}"
  shows "extends w (run_command e c w) \<and> list_all (\<lambda>a. \<not> touches_store a) (new_io w (run_command e c w))"
proof -
  have l: "fst (load1 w) = empty_store" using assms by (auto simp: load1_def)
  obtain err where ld: "load2 (tasks_json (fs w)) = Inl err" using assms by auto
  have p2: "run_task_cmd e x w = (Inl err, w)" for x
    using ld by (cases x) (simp_all add: mark_progress2_def log_time2_def mark_blocked2_def)
  have fl: "extends w (snd (flush_working_buffer e w)) \<and>
      list_all (\<lambda>a. \<not> touches_store a) (new_io w (snd (flush_working_buffer e w)))"
  proof (cases "buffer_md (fs w)")
    case None
    then show ?thesis by (simp add: flush_working_buffer_def)
  next
    case (Some b)
    then show ?thesis using flush_working_buffer_new_io [OF Some, of e] by (simp add: prod_eq_iff)
  qed
  show ?thesis
    using l ld fl load1_world [of w] phase1_TaskNotFound [of w] create_recurring_GoalNotFound [of w]
    by (cases c) (simp_all add: p2 show_velocity_world health_check_def)
qed

section \<open>Properties of the whole program\<close>

text \<open>
  C3. Invariant of the reachable states: from a \<^verbatim>\<open>tasks.json\<close> whose blocked tasks
  have a reason and whose completed tasks a completion time, every sequence of
  commands of either script, each run to its end or cut by a crash, keeps it so.
\<close>

theorem reachable_file_inv:
  "reachable e w0 w \<Longrightarrow> file_inv (tasks_json (fs w0)) \<Longrightarrow> file_inv (tasks_json (fs w))"
  by (induction rule: reachable.induct) (auto intro: step_file_inv)


text \<open>
  C6. A crash between the truncation and the write of \<open>save_data\<close> leaves
  \<^verbatim>\<open>tasks.json\<close> unparseable. From then on every phase-2 command ends with
  \<open>JSONDecodeError\<close> and writes nothing, while phase 1 backs the unparseable file up and
  carries on from the empty store.
\<close>

theorem corrupt_store_after_crash:
  assumes "tasks_json (fs w) = Corrupt"
  shows "run_task_cmd e c w = (Inl JSONDecodeError, w) \<and> fst (health_check e w) = Inl JSONDecodeError \<and>
    snd (health_check e w) = w \<and> load1 w = (empty_store, perform Backup w) \<and>
    tasks_bak (fs (perform Backup w)) = Some Corrupt"
  using assms by (cases c) (simp_all add: health_check_def load1_def mark_progress2_def log_time2_def
      mark_blocked2_def)

text \<open>
  C7. Once \<^verbatim>\<open>tasks.json\<close> is unparseable, or unreadable, no command of either script
  ever writes it again, so it stays as it is: phase 2 stops at \<open>JSONDecodeError\<close> or
  \<open>IOError\<close>, and phase 1 works on the empty store, where every command that would save
  fails to find its task or goal first. Each phase-1 command meanwhile copies an
  unparseable file over \<^verbatim>\<open>tasks.json.bak\<close>.
\<close>

theorem corrupt_store_absorbing:
  "reachable e w0 w \<Longrightarrow> tasks_json (fs w0) \<in> {Corrupt, Unreadable} \<Longrightarrow> tasks_json (fs w) = tasks_json (fs w0)"
proof (induction rule: reachable.induct)
  case start
  show ?case by (rule refl)
next
  case (later e w0 w w')
  then have cw: "tasks_json (fs w) = tasks_json (fs w0)" and cu: "tasks_json (fs w) \<in> {Corrupt, Unreadable}"
    by simp_all
  from later.hyps(2) show ?case
  proof (cases rule: step.cases)
    case (run c)
    with unloadable_run_no_store [OF cu, of e c] show ?thesis
      by (simp add: extends_def replay_no_store_write cw)
  next
    case (crash k c)
    from unloadable_run_no_store [OF cu, of e c]
    have "list_all (\<lambda>a. \<not> touches_store a) (take k (new_io w (run_command e c w)))"
      by (auto simp: list_all_iff dest: in_set_takeD)
    with crash show ?thesis by (simp add: crash_after_def replay_no_store_write cw)
  qed
qed

text \<open>
  C37. The health scan's repair of an orphaned recurring task (check 1 sets
  \<open>recurring\<close> to \<open>None\<close>) does not stop the recurrence: phase 1 still counts a task
  whose \<open>recurring\<close> key holds \<open>None\<close> as recurring, so \<open>next_recurring\<close> rolls the
  repaired task over, and the new instance has no interval (\<open>None\<close>), no goal, and is
  due at the moment it is created.
\<close>

theorem orphan_repair_keeps_recurring:
  assumes ld: "load2 (tasks_json (fs w)) = Inr d" and k: "find_task_by_id d tid = Some k"
    and orph: "truthy_str (jget (recurring (tasks d ! k)))" "\<not> truthy_str (goal_id (tasks d ! k))"
    and full: "100 \<le> get_or (progress (tasks d ! k)) 0"
    and hc: "health_check e w = (Inr (iss, fx), w1)"
  shows "\<exists>t1 n w2. next_recurring e tid w1 = (Inr (t1, n), w2) \<and> recurring n = JNull \<and>
     goal_id n = goal_id (tasks d ! k) \<and> next_due_at n = Some (stamp e (clock e (Suc (Suc (reads w1)))))"
proof -
  obtain ts where rel: "list_all2 hc_rel (tasks d) ts"
    and sv: "fx \<noteq> [] \<Longrightarrow> tasks_json (fs w1) = Valid (d\<lparr>tasks := ts\<rparr>)"
    and ne: "(\<exists>t \<in> set (tasks d). truthy_str (jget (recurring t)) \<and> \<not> truthy_str (goal_id t)) \<Longrightarrow> fx \<noteq> []"
    using health_check_store [OF hc ld] by blast
  have kl: "k < length (tasks d)" using find_task_by_id_Some [OF k] by blast
  have "fx \<noteq> []" using ne kl orph nth_mem by blast
  then have l1: "load1 w1 = (d\<lparr>tasks := ts\<rparr>, w1)" using sv by (simp add: load1_def)
  have k1: "find_task_by_id (d\<lparr>tasks := ts\<rparr>) tid = Some k"
    using k find_first_map_eq [OF hc_rel_t_id [OF rel]] by (simp add: find_task_by_id_def)
  have r: "hc_rel (tasks d ! k) (ts ! k)" using rel kl list_all2_nthD by blast
  let ?t = "tasks d ! k" and ?t' = "ts ! k"
  have rec: "recurring ?t' = JNull" and gid: "goal_id ?t' = goal_id ?t"
    and pr: "progress ?t' = progress ?t \<or> progress ?t' = Some 100"
    using r orph hc_rel_same [OF r] unfolding hc_rel_def by auto
  have isr: "is_recurring1 ?t'" using rec by (simp add: is_recurring1_def)
  have dn: "100 \<le> get_or (progress ?t') 0" using pr full by auto
  show ?thesis
    using next_recurring_eq [OF l1 k1, of e] isr dn rec gid
    by (simp add: Let_def recur_delta_def)
qed

end
