(* ===== verification/Cli.thy ===== *)
theory Cli
  imports Machine
begin

text \<open>
  The two command lines. Phase 2 (\<^verbatim>\<open>task_manager_phase2.py\<close> lines 415--457)
  indexes \<open>sys.argv\<close> itself: \<open>main2\<close> follows it branch by branch, with \<open>int()\<close>
  evaluated before the missing-task-id check and the defaults of absent arguments.
  Phase 1 (\<^verbatim>\<open>task_manager_phase1.py\<close> lines 296--353) configures \<open>argparse\<close>:
  \<open>parse_args1\<close> models what \<open>parse_args()\<close> (Python 3.12) does with that
  configuration: classification of each string as positional, option, \<open>--\<close> or
  unknown option (unique abbreviations of long options, \<open>--name=value\<close>, negative
  numbers read as positionals), left-to-right consumption with \<open>choices\<close> checked as
  each option is taken, help printed as soon as \<open>-h\<close> is reached, and errors for
  unknown options and wrong positional counts at the end. \<open>main1\<close> runs the command
  the namespace selects (lines 337--353).
\<close>

section \<open>Phase 2: \<open>sys.argv\<close>\<close>

definition argv_at :: "string list \<Rightarrow> nat \<Rightarrow> string option" where
  "argv_at argv i = (if i < length argv then Some (argv ! i) else None)"

definition main2 :: "env \<Rightarrow> string list \<Rightarrow> world \<Rightarrow> (error + unit) \<times> world" where
  "main2 e argv w =
     (if length argv < 2 then (Inl Usage, w)
      else
        let command = argv ! 1
        in if command = ''mark-progress'' then
             (let task_id = argv_at argv 2
              in case (if 3 < length argv then int_of_arg (argv ! 3) else Inr 0) of
                   Inl err \<Rightarrow> (Inl err, w)
                 | Inr p \<Rightarrow>
                     let notes = get_or (argv_at argv 4) []
                     in if \<not> truthy_str task_id then (Inl Usage, w)
                        else exec_command e (P2Task (MarkProgress (the task_id) p notes)) w)
           else if command = ''log-time'' then
             (let task_id = argv_at argv 2
              in case (if 3 < length argv then int_of_arg (argv ! 3) else Inr 0) of
                   Inl err \<Rightarrow> (Inl err, w)
                 | Inr m \<Rightarrow>
                     let notes = get_or (argv_at argv 4) []
                     in if \<not> truthy_str task_id then (Inl Usage, w)
                        else exec_command e (P2Task (LogTime (the task_id) m notes)) w)
           else if command = ''mark-blocked'' then
             (let task_id = argv_at argv 2;
                  reason = get_or (argv_at argv 3) ''No reason specified''
              in if \<not> truthy_str task_id then (Inl Usage, w)
                 else exec_command e (P2Task (MarkBlocked (the task_id) reason)) w)
           else if command = ''health-check'' then exec_command e P2Health w
           else if command = ''flush-buffer'' then exec_command e P2Flush w
           else (Inl (UnknownCommand command), w))"

section \<open>Phase 1: \<open>argparse\<close>\<close>

datatype arg_class = APos | ASep | AOpt string "string option" | AUnknown | AAmbiguous

definition neg_number :: "string \<Rightarrow> bool" where
  "neg_number s \<longleftrightarrow>
     (case s of
        [] \<Rightarrow> False
      | c # r \<Rightarrow> c = CHR ''-'' \<and>
          ((r \<noteq> [] \<and> list_all (\<lambda>x. digit_val x \<noteq> None) r) \<or>
           (let a = takeWhile (\<lambda>x. x \<noteq> CHR ''.'') r; b = dropWhile (\<lambda>x. x \<noteq> CHR ''.'') r
            in list_all (\<lambda>x. digit_val x \<noteq> None) a \<and> b \<noteq> [] \<and> tl b \<noteq> [] \<and>
               list_all (\<lambda>x. digit_val x \<noteq> None) (tl b))))"

definition split_eq :: "string \<Rightarrow> string \<times> string option" where
  "split_eq s =
     (if CHR ''='' \<in> set s
      then (takeWhile (\<lambda>x. x \<noteq> CHR ''='') s, Some (tl (dropWhile (\<lambda>x. x \<noteq> CHR ''='') s)))
      else (s, None))"

definition classify :: "string list \<Rightarrow> string \<Rightarrow> arg_class" where
  "classify longs s =
     (if s = [] \<or> hd s \<noteq> CHR ''-'' then APos
      else if s = ''--'' then ASep
      else if s = ''-h'' \<or> s \<in> set longs then AOpt s None
      else if length s = 1 then APos
      else
        let (p, x) = split_eq s
        in if x \<noteq> None \<and> (p = ''-h'' \<or> p \<in> set longs) then AOpt p x
           else if s ! 1 = CHR ''-'' then
             (case filter (\<lambda>l. take (length p) l = p) longs of
                [l] \<Rightarrow> AOpt l x
              | [] \<Rightarrow> if CHR '' '' \<in> set s then APos else AUnknown
              | _ \<Rightarrow> AAmbiguous)
           else if take 2 s = ''-h'' then AOpt ''-h'' (Some (drop 2 s))
           else if neg_number s then APos
           else if CHR '' '' \<in> set s then APos
           else AUnknown)"

text \<open>The subcommands (lines 297--334) and the options of \<open>create-recurring\<close>.\<close>

definition p1_commands :: "string list" where
  "p1_commands = [''mark-progress'', ''mark-blocked'', ''unblock-task'', ''log-time'',
                  ''create-recurring'', ''next-recurring'', ''show-velocity'']"

definition recurring_choices :: "string list" where
  "recurring_choices = [''daily'', ''weekly'', ''monthly'', ''after_completion'']"

definition priority_choices :: "string list" where
  "priority_choices = [''low'', ''medium'', ''high'']"

definition sub_options :: "string \<Rightarrow> (string \<times> string list option) list" where
  "sub_options c =
     (if c = ''create-recurring''
      then [(''--recurring'', Some recurring_choices), (''--priority'', Some priority_choices),
            (''--estimate'', None)]
      else [])"

definition sub_longs :: "string \<Rightarrow> string list" where
  "sub_longs c = ''--help'' # map fst (sub_options c)"

definition choice_ok :: "(string \<times> string list option) list \<Rightarrow> string \<Rightarrow> string \<Rightarrow> bool" where
  "choice_ok opts n v \<longleftrightarrow> (case map_of opts n of Some (Some cs) \<Rightarrow> v \<in> set cs | _ \<Rightarrow> True)"

datatype parse_result = PHelp | PErr | POk "string list" "(string \<times> string) list"

fun sub_scan ::
  "string \<Rightarrow> string list \<Rightarrow> string list \<Rightarrow> (string \<times> string) list \<Rightarrow> bool \<Rightarrow> parse_result" where
  "sub_scan c [] ps os x = (if x then PErr else POk ps os)"
| "sub_scan c (a # r) ps os x =
     (case classify (sub_longs c) a of
        APos \<Rightarrow> sub_scan c r (ps @ [a]) os x
      | ASep \<Rightarrow> (if x then PErr else POk (ps @ r) os)
      | AUnknown \<Rightarrow> sub_scan c r ps os True
      | AAmbiguous \<Rightarrow> PErr
      | AOpt n v \<Rightarrow>
          if n = ''-h'' \<or> n = ''--help'' then (if v = None then PHelp else PErr)
          else (case v of
                  Some val \<Rightarrow>
                    if choice_ok (sub_options c) n val then sub_scan c r ps (os @ [(n, val)]) x else PErr
                | None \<Rightarrow>
                    (case r of
                       [] \<Rightarrow> PErr
                     | val # r' \<Rightarrow>
                         if classify (sub_longs c) val = APos \<and> choice_ok (sub_options c) n val
                         then sub_scan c r' ps (os @ [(n, val)]) x else PErr)))"

text \<open>The whole argument list is classified before any of it is consumed: an ambiguous
  abbreviation before \<open>--\<close> is an error wherever it stands.\<close>

fun amb_before_sep :: "string list \<Rightarrow> string list \<Rightarrow> bool" where
  "amb_before_sep longs [] = False"
| "amb_before_sep longs (a # r) =
     (a \<noteq> ''--'' \<and> (classify longs a = AAmbiguous \<or> amb_before_sep longs r))"

definition last_opt :: "(string \<times> string) list \<Rightarrow> string \<Rightarrow> string option" where
  "last_opt os n = map_option snd (find (\<lambda>(k, v). k = n) (rev os))"

text \<open>The namespace a subcommand gets and the branch of lines 337--351 it selects.\<close>

definition build_command :: "string \<Rightarrow> string list \<Rightarrow> (string \<times> string) list \<Rightarrow> command option" where
  "build_command c ps os =
     (if c = ''mark-progress'' then (case ps of [tid, p] \<Rightarrow> Some (P1Progress tid p) | _ \<Rightarrow> None)
      else if c = ''mark-blocked'' then (case ps of [tid, r] \<Rightarrow> Some (P1Blocked tid r) | _ \<Rightarrow> None)
      else if c = ''unblock-task'' then (case ps of [tid] \<Rightarrow> Some (P1Unblock tid) | _ \<Rightarrow> None)
      else if c = ''log-time'' then (case ps of [tid, m] \<Rightarrow> Some (P1LogTime tid m) | _ \<Rightarrow> None)
      else if c = ''create-recurring'' then
        (case ps of
           [gid, ttl] \<Rightarrow> Some (P1CreateRecurring gid ttl (get_or (last_opt os ''--recurring'') ''weekly'')
                                  (last_opt os ''--priority'') (last_opt os ''--estimate''))
         | _ \<Rightarrow> None)
      else if c = ''next-recurring'' then (case ps of [tid] \<Rightarrow> Some (P1NextRecurring tid) | _ \<Rightarrow> None)
      else (case ps of [gid] \<Rightarrow> Some (P1Velocity gid) | _ \<Rightarrow> None))"

definition sub_parse :: "string \<Rightarrow> string list \<Rightarrow> bool \<Rightarrow> error + command option" where
  "sub_parse c r x =
     (if amb_before_sep (sub_longs c) r then Inl ArgparseError
      else case sub_scan c r [] [] x of
             PHelp \<Rightarrow> Inr None
           | PErr \<Rightarrow> Inl ArgparseError
           | POk ps os \<Rightarrow> (case build_command c ps os of None \<Rightarrow> Inl ArgparseError | Some cmd \<Rightarrow> Inr (Some cmd)))"

text \<open>
  The top-level parser up to the subcommand: its own \<open>-h\<close>, unknown options set aside
  as extras (an error at the end unless help is printed first), then the subcommand,
  whose parser takes all the remaining strings.
\<close>

fun top_scan :: "string list \<Rightarrow> bool \<Rightarrow> error + command option" where
  "top_scan [] x = (if x then Inl ArgparseError else Inr None)"
| "top_scan (a # r) x =
     (case classify [''--help''] a of
        APos \<Rightarrow> if a \<in> set p1_commands then sub_parse a r x else Inl ArgparseError
      | ASep \<Rightarrow>
          (case r of
             [] \<Rightarrow> (if x then Inl ArgparseError else Inr None)
           | b # r' \<Rightarrow> if b \<in> set p1_commands then sub_parse b r' x else Inl ArgparseError)
      | AOpt n v \<Rightarrow> if v = None then Inr None else Inl ArgparseError
      | AUnknown \<Rightarrow> top_scan r True
      | AAmbiguous \<Rightarrow> Inl ArgparseError)"

text \<open>
  \<open>parser.parse_args()\<close> on \<open>sys.argv[1:]\<close>: \<open>Inr None\<close> when help is printed or no
  subcommand is given (both end with exit status 0), \<open>Inl ArgparseError\<close> for a usage
  error (exit status 2).
\<close>

definition parse_args1 :: "string list \<Rightarrow> error + command option" where
  "parse_args1 args = top_scan args False"


section \<open>Rendering commands as argument lists\<close>

definition plain :: "string \<Rightarrow> bool" where
  "plain s \<longleftrightarrow> s = [] \<or> hd s \<noteq> CHR ''-''"

text \<open>An option with its value in one string, \<open>--name=value\<close>.\<close>

definition opt_arg :: "string \<Rightarrow> string \<Rightarrow> string" where
  "opt_arg n v = n @ ''='' @ v"

fun p1_argv :: "command \<Rightarrow> string list" where
  "p1_argv (P1Progress tid p) = [''mark-progress'', tid, p]"
| "p1_argv (P1Blocked tid r) = [''mark-blocked'', tid, r]"
| "p1_argv (P1Unblock tid) = [''unblock-task'', tid]"
| "p1_argv (P1LogTime tid m) = [''log-time'', tid, m]"
| "p1_argv (P1CreateRecurring gid ttl rec prio est) =
     [''create-recurring'', gid, ttl, opt_arg ''--recurring'' rec] @
     (case prio of None \<Rightarrow> [] | Some q \<Rightarrow> [opt_arg ''--priority'' q]) @
     (case est of None \<Rightarrow> [] | Some v \<Rightarrow> [opt_arg ''--estimate'' v])"
| "p1_argv (P1NextRecurring tid) = [''next-recurring'', tid]"
| "p1_argv (P1Velocity gid) = [''show-velocity'', gid]"
| "p1_argv _ = []"

fun cli1_ok :: "command \<Rightarrow> bool" where
  "cli1_ok (P1Progress tid p) = (plain tid \<and> plain p)"
| "cli1_ok (P1Blocked tid r) = (plain tid \<and> plain r)"
| "cli1_ok (P1Unblock tid) = plain tid"
| "cli1_ok (P1LogTime tid m) = (plain tid \<and> plain m)"
| "cli1_ok (P1CreateRecurring gid ttl rec prio est) =
     (plain gid \<and> plain ttl \<and> rec \<in> set recurring_choices \<and> set_option prio \<subseteq> set priority_choices)"
| "cli1_ok (P1NextRecurring tid) = plain tid"
| "cli1_ok (P1Velocity gid) = plain gid"
| "cli1_ok _ = False"

fun p2_argv :: "command \<Rightarrow> string list" where
  "p2_argv (P2Task (MarkProgress tid p n)) = [''mark-progress'', tid, show_int p, n]"
| "p2_argv (P2Task (LogTime tid m n)) = [''log-time'', tid, show_int m, n]"
| "p2_argv (P2Task (MarkBlocked tid r)) = [''mark-blocked'', tid, r]"
| "p2_argv P2Health = [''health-check'']"
| "p2_argv P2Flush = [''flush-buffer'']"
| "p2_argv _ = []"

fun cli2_ok :: "command \<Rightarrow> bool" where
  "cli2_ok (P2Task (MarkProgress tid p n)) = (tid \<noteq> [])"
| "cli2_ok (P2Task (LogTime tid m n)) = (tid \<noteq> [])"
| "cli2_ok (P2Task (MarkBlocked tid r)) = (tid \<noteq> [])"
| "cli2_ok P2Health = True"
| "cli2_ok P2Flush = True"
| "cli2_ok _ = False"

section \<open>Invocations\<close>


section \<open>Lemmas\<close>

lemma classify_plain [simp]: "plain s \<Longrightarrow> classify longs s = APos"
  by (auto simp: plain_def classify_def)

lemma split_eq_opt: "CHR ''='' \<notin> set n \<Longrightarrow> split_eq (n @ CHR ''='' # v) = (n, Some v)"
  by (simp add: split_eq_def takeWhile_append dropWhile_append)

lemma classify_opt_eq:
  assumes "n \<in> set longs" "\<forall>l \<in> set longs. CHR ''='' \<notin> set l" "take 2 n = ''--''" "length n > 2"
  shows "classify longs (n @ ''='' @ v) = AOpt n (Some v)"
proof -
  have ne: "CHR ''='' \<notin> set n" using assms(1,2) by blast
  have sp: "split_eq (n @ ''='' @ v) = (n, Some v)" using split_eq_opt [OF ne] by simp
  have "n @ ''='' @ v \<notin> set longs" using assms(2) by auto
  moreover have "hd (n @ ''='' @ v) = CHR ''-''" using assms(3,4) by (cases n) auto
  moreover have "n @ ''='' @ v \<noteq> ''--''" "n @ ''='' @ v \<noteq> ''-h''" "n @ ''='' @ v \<noteq> []"
    "length (n @ ''='' @ v) \<noteq> 1"
    using assms(4) by (auto dest: arg_cong [of _ _ length])
  ultimately show ?thesis using assms(1) unfolding classify_def Let_def sp by simp
qed

lemma plain_not_sep: "plain s \<Longrightarrow> s \<noteq> ''--''"
  by (auto simp: plain_def)

lemma cr_classify:
  "n \<in> {''--recurring'', ''--priority'', ''--estimate''} \<Longrightarrow>
   classify (sub_longs ''create-recurring'') (opt_arg n v) = AOpt n (Some v)"
  unfolding opt_arg_def by (rule classify_opt_eq) (auto simp: sub_longs_def sub_options_def)

lemma opt_arg_not_sep: "opt_arg n v \<noteq> ''--''"
proof
  have "CHR ''='' \<in> set (opt_arg n v)" by (simp add: opt_arg_def)
  moreover assume "opt_arg n v = ''--''"
  ultimately show False by simp
qed

lemma sub_scan_plain:
  "list_all plain r \<Longrightarrow> sub_scan c r ps os x = (if x then PErr else POk (ps @ r) os)"
  by (induction r arbitrary: ps) simp_all

lemma sub_scan_opt:
  "n \<in> {''--recurring'', ''--priority'', ''--estimate''} \<Longrightarrow>
   sub_scan ''create-recurring'' (opt_arg n v # r) ps os x =
     (if choice_ok (sub_options ''create-recurring'') n v
      then sub_scan ''create-recurring'' r ps (os @ [(n, v)]) x else PErr)"
  by (auto simp: cr_classify)

lemma amb_plain: "list_all plain r \<Longrightarrow> \<not> amb_before_sep longs r"
  by (induction r) (auto simp: plain_not_sep)

lemma p1_commands_plain: "c \<in> set p1_commands \<Longrightarrow> plain c"
  by (auto simp: p1_commands_def plain_def)

lemma parse_args1_sub: "c \<in> set p1_commands \<Longrightarrow> parse_args1 (c # r) = sub_parse c r False"
  using p1_commands_plain [of c] by (simp add: parse_args1_def)

lemma build_plain:
  "build_command ''mark-progress'' [tid, p] [] = Some (P1Progress tid p)"
  "build_command ''mark-blocked'' [tid, r] [] = Some (P1Blocked tid r)"
  "build_command ''unblock-task'' [tid] [] = Some (P1Unblock tid)"
  "build_command ''log-time'' [tid, m] [] = Some (P1LogTime tid m)"
  "build_command ''next-recurring'' [tid] [] = Some (P1NextRecurring tid)"
  "build_command ''show-velocity'' [gid] [] = Some (P1Velocity gid)"
  by (simp_all add: build_command_def)

lemma sub_scan_choices:
  "sub_scan c r ps os x = POk ps' os' \<Longrightarrow> \<forall>(n, v) \<in> set os. choice_ok (sub_options c) n v \<Longrightarrow>
   \<forall>(n, v) \<in> set os'. choice_ok (sub_options c) n v"
proof (induction c r ps os x rule: sub_scan.induct)
  case (1 c ps os x)
  then show ?case by (simp split: if_splits)
next
  case (2 c a r ps os x)
  then show ?case
    by (auto split: arg_class.splits if_splits option.splits list.splits simp del: sub_scan.simps(1))
qed

lemma top_scan_sub: "top_scan args x = Inr (Some cmd) \<Longrightarrow> \<exists>c r y. sub_parse c r y = Inr (Some cmd)"
  by (induction args x rule: top_scan.induct) (auto split: arg_class.splits if_splits list.splits)

lemma sub_parse_Some:
  "sub_parse c r x = Inr (Some cmd) \<Longrightarrow> \<exists>ps os. sub_scan c r [] [] x = POk ps os \<and> build_command c ps os = Some cmd"
  by (auto simp: sub_parse_def split: if_splits parse_result.splits option.splits)

lemma build_create:
  "build_command c ps os = Some (P1CreateRecurring gid ttl rec prio est) \<Longrightarrow>
   c = ''create-recurring'' \<and> rec = get_or (last_opt os ''--recurring'') ''weekly'' \<and> prio = last_opt os ''--priority''"
  by (auto simp: build_command_def split: if_splits list.splits)

lemma find_Some_in: "find P xs = Some x \<Longrightarrow> x \<in> set xs \<and> P x"
  by (induction xs) (auto split: if_splits)

lemma last_opt_in: "last_opt os n = Some v \<Longrightarrow> (n, v) \<in> set os"
  by (auto simp: last_opt_def dest!: find_Some_in)




lemma crash_after_same [simp]: "crash_after k w w = w"
  by (simp add: crash_after_def new_io_def)


section \<open>Properties\<close>

text \<open>
  C15. \<open>parse_args()\<close> gives back every phase-1 command written out as its argument
  list: positionals that do not start with \<open>-\<close>, a \<open>--recurring\<close> and a
  \<open>--priority\<close> among their choices, any \<open>--estimate\<close>.
\<close>

theorem parse_args1_p1_argv:
  "cli1_ok c \<Longrightarrow> parse_args1 (p1_argv c) = Inr (Some c)"
proof (cases c)
  case (P1CreateRecurring gid ttl rec prio est)
  assume ok: "cli1_ok c"
  then have g: "plain gid" "plain ttl" "rec \<in> set recurring_choices" "set_option prio \<subseteq> set priority_choices"
    by (simp_all add: P1CreateRecurring)
  let ?os = "[(''--recurring'', rec)] @ (case prio of None \<Rightarrow> [] | Some q \<Rightarrow> [(''--priority'', q)]) @
      (case est of None \<Rightarrow> [] | Some v \<Rightarrow> [(''--estimate'', v)])"
  have sc: "sub_scan ''create-recurring'' (tl (tl (tl (p1_argv c)))) [gid, ttl] [] False = POk [gid, ttl] ?os"
    using g(3,4) by (cases prio; cases est)
      (simp_all add: P1CreateRecurring sub_scan_opt choice_ok_def sub_options_def del: sub_scan.simps(2))
  have am: "\<not> amb_before_sep (sub_longs ''create-recurring'') (tl (p1_argv c))"
    using g(1,2) by (cases prio; cases est) (simp_all add: P1CreateRecurring cr_classify plain_not_sep opt_arg_not_sep)
  have "sub_scan ''create-recurring'' (tl (p1_argv c)) [] [] False = POk [gid, ttl] ?os"
    using g(1,2) sc by (simp add: P1CreateRecurring)
  moreover have "build_command ''create-recurring'' [gid, ttl] ?os = Some c"
    by (cases prio; cases est) (simp_all add: P1CreateRecurring build_command_def last_opt_def)
  ultimately show ?thesis
    using am by (simp add: P1CreateRecurring parse_args1_sub p1_commands_def sub_parse_def)
qed (simp_all add: parse_args1_sub p1_commands_def sub_parse_def amb_plain sub_scan_plain build_plain)

text \<open>
  C14. Whatever the argument list, a \<open>create-recurring\<close> that \<open>argparse\<close> accepts has a
  recurrence among \<open>daily\<close>, \<open>weekly\<close>, \<open>monthly\<close>, \<open>after_completion\<close> and a
  priority, if any, among \<open>low\<close>, \<open>medium\<close>, \<open>high\<close>.
\<close>

theorem parse_args1_choices:
  assumes "parse_args1 args = Inr (Some (P1CreateRecurring gid ttl rec prio est))"
  shows "rec \<in> set recurring_choices \<and> set_option prio \<subseteq> set priority_choices"
proof -
  obtain c r y where "sub_parse c r y = Inr (Some (P1CreateRecurring gid ttl rec prio est))"
    using top_scan_sub assms unfolding parse_args1_def by blast
  then obtain ps os where sc: "sub_scan c r [] [] y = POk ps os"
    and b: "build_command c ps os = Some (P1CreateRecurring gid ttl rec prio est)"
    using sub_parse_Some by blast
  have c: "c = ''create-recurring''" and rp: "rec = get_or (last_opt os ''--recurring'') ''weekly''"
    "prio = last_opt os ''--priority''" using build_create [OF b] by simp_all
  have ok: "choice_ok (sub_options ''create-recurring'') n v" if "(n, v) \<in> set os" for n v
    using sub_scan_choices [OF sc] that c by fastforce
  have "rec \<in> set recurring_choices"
  proof (cases "last_opt os ''--recurring''")
    case None
    then show ?thesis using rp by (simp add: recurring_choices_def)
  next
    case (Some v)
    then show ?thesis
      using ok [OF last_opt_in [OF Some]] rp by (simp add: choice_ok_def sub_options_def)
  qed
  moreover have "set_option prio \<subseteq> set priority_choices"
  proof
    fix q assume "q \<in> set_option prio"
    then have "last_opt os ''--priority'' = Some q" using rp by simp
    from ok [OF last_opt_in [OF this]] show "q \<in> set priority_choices"
      by (simp add: choice_ok_def sub_options_def)
  qed
  ultimately show ?thesis ..
qed

text \<open>
  C16. The phase-2 command line runs every WAL-logged command, the scan and the flush
  it is given in the documented form (task id, integer in decimal, notes or reason).
\<close>

theorem main2_p2_argv:
  "cli2_ok c \<Longrightarrow> main2 e (prog # p2_argv c) w = exec_command e c w"
proof (cases c)
  case (P2Task x)
  assume "cli2_ok c"
  then show ?thesis
    by (cases x) (simp_all add: P2Task main2_def argv_at_def int_of_arg_def py_int_show_int)
qed (simp_all add: main2_def)

text \<open>
  C13. \<open>mark-progress <task_id>\<close> of phase 2 without a progress argument does not stop
  with a usage message: the progress defaults to 0, the WAL records the change to 0
  and the task is saved with progress 0.
\<close>

theorem main2_progress_defaults_to_zero:
  assumes "load2 (tasks_json (fs w)) = Inr d" and "find_task_by_id d tid = Some k" and "tid \<noteq> []"
  shows "\<exists>t' w' rest. main2 e [prog, ''mark-progress'', tid] w = (Inr (), w') \<and> progress t' = Some 0 \<and>
     new_io w w' = wal_io e ''PROGRESS_CHANGE''
        (ProgressContent tid (get_or (progress (tasks d ! k)) 0) 0 (iso e (clock e (reads w)))) (Suc (reads w))
        # Truncate # WriteStore (set_task d k t') # rest"
proof -
  have m: "main2 e [prog, ''mark-progress'', tid] w = exit_of (mark_progress2 e tid 0 [] w)"
    using assms(3) by (simp add: main2_def argv_at_def)
  from mark_progress2_Inr [OF assms(1,2), of e 0 "[]"] show ?thesis
    unfolding m by (auto simp: exit_of_def)
qed


end
