(* ===== verification/Spec2Isabelle.thy ===== *)
theory Spec2Isabelle
  imports Contract Cli
begin

text \<open>
  \<^bold>\<open>A verification development of the proactive task manager.\<close>

  The program is two Python scripts that share one JSON store of goals and tasks,
  \<^verbatim>\<open>data/tasks.json\<close>. \<^verbatim>\<open>src/scripts/task_manager_phase1.py\<close> holds the task
  commands of the first phase (progress, blocking, time logging, recurring tasks,
  velocity); \<^verbatim>\<open>src/scripts/task_manager_phase2.py\<close> re-implements progress, time
  logging and blocking with a write-ahead log (WAL), adds the health/repair scan, and
  mirrors every change into a session file and a working buffer that is flushed into a
  daily memory file. Each command loads the whole store, changes it in memory and
  saves it back; the scripts never run a command concurrently with another.

  \<^bold>\<open>Theories and what they model.\<close>
  \<^item> \<^theory_text>\<open>Prelude\<close>: the Python values the scripts use: JSON keys that may be absent or
    \<open>null\<close> (\<open>jfield\<close>), the linear search of \<open>find_task_by_id\<close>, \<open>round\<close> (half to
    even, on exact rationals), \<open>str(int)\<close> and \<open>int(str)\<close> (\<open>py_int\<close>, with the
    round trip \<open>py_int_show_int\<close>), \<open>split("T")[0]\<close>; shared list lemmas.
  \<^item> \<^theory_text>\<open>Store\<close>: the task and goal dicts as records, the file \<^verbatim>\<open>tasks.json\<close> as
    \<open>store_file\<close> (absent, unreadable, unparseable, or parsed to a \<open>json_top\<close>: not an object, an
    object without \<open>tasks\<close>, a store), the error values that end a run, \<open>int()\<close> of an
    argument (\<open>int_of_arg\<close>), the two \<open>load_data\<close> (phase 1 recovers; phase 2 returns
    the parsed value and its callers' first \<open>data["tasks"]\<close> raises, \<open>load2\<close>) and the
    lookups.
  \<^item> \<^theory_text>\<open>World\<close>: the files as a \<open>disk\<close> record and every write as an \<open>io\<close> value;
    a run is a function on a \<open>world\<close> holding the disk, the number of clock reads and
    uuid draws so far, and the trace of writes. The clock \<open>datetime.now\<close> is the
    environment's \<open>clock\<close> applied to the read count, so each call is one read in
    the order the source makes them; \<open>isoformat\<close> and \<open>uuid4().hex\<close> are environment
    functions too. \<open>save_data\<close> is two writes (truncation, then the new content), as
    \<open>open(..., "w")\<close> and \<open>json.dump\<close> are. \<open>log_to_wal\<close>, \<open>append_to_buffer\<close>,
    \<open>update_session_state\<close> with the text of \<^verbatim>\<open>SESSION-STATE.md\<close> it renders
    (\<open>render_session\<close>, \<open>session_velocity\<close>); \<open>extends\<close>/\<open>new_io\<close> relate a world to a later one by the
    writes in between, and \<open>wal_before_save\<close> is the WAL discipline on a sequence of
    writes.
  \<^item> \<^theory_text>\<open>Phase1\<close>: \<open>mark_progress1\<close>, \<open>mark_blocked1\<close>, \<open>unblock_task\<close>, \<open>log_time1\<close>,
    \<open>create_recurring\<close>, \<open>next_recurring\<close> and \<open>show_velocity\<close> of phase 1, each the
    whole handler with its early exits; \<open>_eq\<close> lemmas give each run in closed form.
  \<^item> \<^theory_text>\<open>Phase2\<close>: \<open>mark_progress2\<close>, \<open>log_time2\<close>, \<open>mark_blocked2\<close>, each shown to be
    an instance of one shape \<open>wal_mutation\<close> (load, WAL append, change, save, session,
    buffer), and \<open>run_task_cmd\<close> over the three.
  \<^item> \<^theory_text>\<open>Health\<close>: the five checks of \<open>health_check\<close>, the loop over the tasks and
    the save-then-WAL ending.
  \<^item> \<^theory_text>\<open>Buffer\<close>: \<open>flush_working_buffer\<close> and Python's \<open>split("\n")\<close>.
  \<^item> \<^theory_text>\<open>Contract\<close>: the task state machine of \<^verbatim>\<open>spec.md\<close> section 4.3 as abstract
    operations on an abstract task, and which handlers refine which operation.
  \<^item> \<^theory_text>\<open>Machine\<close>: both command lines as one \<open>command\<close> datatype, a \<open>step\<close> relation
    that runs a command to its end or crashes it after any prefix of its writes, and
    \<open>reachable\<close> worlds; \<open>exec_command\<close> gives the exit status of each command; the
    store invariant and its preservation by every command.
  \<^item> \<^theory_text>\<open>Cli\<close>: the two command lines. \<open>main2\<close> is the \<open>sys.argv\<close> dispatch of
    phase 2 (lines 415--457); \<open>parse_args1\<close> is \<open>parse_args()\<close> of Python 3.12's
    \<open>argparse\<close> under the parser phase 1 configures (lines 296--336) and \<open>main1\<close> the
    dispatch after it (lines 337--353); \<open>invoke\<close> is one invocation of either script,
    possibly cut by a crash.
  \<^item> This theory: concrete worlds (\<open>ex_\<close> definitions) at which every theorem with
    hypotheses is applied (the \<open>_witness\<close> theorems), and the WAL crash theorem.

  \<^bold>\<open>What the theorems show.\<close>
  Durability: every phase-2 mutation appends its WAL line before it touches
  \<^verbatim>\<open>tasks.json\<close>, so any crash that changed the store left a WAL record
  (\<open>wal_crash_consistency\<close>); the health scan does the opposite, saving before its WAL
  line. The state machine keeps its invariant (a blocked task has a reason, a completed
  task a completion time) across any run of commands of either script and any crash,
  so check 3 of the scan never fires; but a crash inside \<open>save_data\<close> leaves an
  unparseable file that stops phase 2 and makes phase 1 start from the empty store.
  Refinement: phase-1 \<open>mark_progress\<close>, both \<open>mark_blocked\<close>, \<open>unblock_task\<close> and
  phase-2 \<open>log_time\<close> implement the specification's operations; phase-2
  \<open>mark_progress\<close> (no range check, never completes) and phase-1 \<open>log_time\<close> (never
  starts a task) do not, and phase 1 lowers the progress of completed tasks. The scan
  is idempotent for a clock whose readings increase, and raises on a zero estimate.
  Once a crash has left \<^verbatim>\<open>tasks.json\<close> unparseable, or it cannot be read, no
  command of either script ever writes it again. The session file mirrors the task each WAL-logged command
  saved. A recurring task keeps recurring: once its successor is marked done it rolls
  over again (\<open>recurrence_continues\<close>, a liveness theorem), and the scan's repair of
  an orphaned recurring task does not stop it: check 1 sets \<open>recurring\<close> to \<open>None\<close>,
  which phase 1 still counts as recurring, so the repaired task rolls over into a
  goal-less successor due at once (\<open>orphan_repair_keeps_recurring\<close> in \<open>Machine\<close>,
  which composes the scan's loop lemmas with the rollover). Command lines: every
  sequence of invocations of the scripts with any arguments and crashes is a run of
  the state machine (\<open>invocations_reachable\<close>), so its invariants hold of what the
  command lines produce; \<open>argparse\<close> parses every phase-1 command's argument list
  back to it, and only accepts recurrences and priorities among the choices; phase 2
  runs each command written in its documented form, but an omitted progress argument
  resets the task to 0 instead of printing usage. Rollover, intervals, identifier
  collisions, the variance bound, velocity counts and rates, the session velocity
  phrase, and the buffer's line count and crash behaviour are functional, bounds and
  equivalence theorems of their theories.

  \<^bold>\<open>Environment and bounds.\<close> No fuel is needed and there is no termination
  theorem to state: every loop of the scripts and of the modelled library calls runs
  over a finite list (the tasks, the buffer's characters, the argument strings) and is
  structural recursion or a \<open>fold\<close>, so every model function is total. The clock is arbitrary unless a theorem assumes \<open>clock_sound\<close>: ISO strings
  of later readings compare greater, which holds for \<open>isoformat()\<close> of distinct
  instants and fails when two reads return the same instant. Integers are Python's
  unbounded ints; floats are exact rationals, so binary rounding of floats is not
  modelled.

  \<^bold>\<open>Not modelled.\<close> The text of help, usage and error messages (only the exit
  status is kept). Of \<open>int()\<close>, non-ASCII digits and whitespace; of \<open>argparse\<close>,
  \<open>-hh\<close> (read as help) and a \<open>--\<close> directly after an option that takes a value
  (both give an error in the model). The JSON text of \<^verbatim>\<open>tasks.json\<close>, of the WAL
  lines and of the printed results: files hold the values they serialise (the Markdown
  files hold their text); a store object is assumed to hold a \<open>goals\<close> key and fields
  of the types the scripts write. I/O errors other than a crash and an unreadable
  \<^verbatim>\<open>tasks.json\<close>: failing writes (an unreadable file is never written by any command,
  so the model needs no rule for writing one). Concurrent runs of
  two commands.
\<close>

section \<open>Example worlds\<close>

text \<open>
  Concrete inputs at which the theorems below are applied. The clock returns its read
  count in microseconds; its ISO form is a run of \<open>a\<close>s as long as the reading, so that
  later readings compare greater, as real \<open>isoformat()\<close> strings do.
\<close>

definition ex_env :: env where
  "ex_env = \<lparr>clock = int, iso = (\<lambda>t. replicate (nat t) CHR ''a''),
     uuid_hex = (\<lambda>n. ''0123456789abcdef'')\<rparr>"

definition ex_task :: task where
  "ex_task = \<lparr>t_id = ''task_1'', goal_id = Some ''goal_1'', title = ''Write report'',
     priority = ''medium'', status = Pending, progress = Some 0, estimate_minutes = Some 60,
     actual_minutes = None, time_variance_percent = None, blocked_reason = Missing,
     recurring = Missing, next_due_at = None, created_at = None, updated_at = None,
     completed_at = None, t_notes = None, last_error = None, retry_count = None\<rparr>"

definition ex_goal :: goal where
  "ex_goal = \<lparr>g_id = ''goal_1'', g_title = ''Ship'', g_priority = Some ''high''\<rparr>"

definition ex_world :: "store \<Rightarrow> world" where
  "ex_world d = \<lparr>fs = \<lparr>tasks_json = Valid d, tasks_bak = None, wal_log = [], buffer_md = None,
     daily_md = [], session_md = None\<rparr>, reads = 0, uuids = 0, trace = []\<rparr>"

definition ex_store :: "task list \<Rightarrow> store" where
  "ex_store ts = \<lparr>goals = [ex_goal], tasks = ts\<rparr>"

definition ex_done_task :: task where
  "ex_done_task = ex_task\<lparr>status := Completed, progress := Some 40\<rparr>"

definition ex_zero_task :: task where
  "ex_zero_task = ex_task\<lparr>t_id := ''task_2'', estimate_minutes := Some 0, actual_minutes := Some 5\<rparr>"

definition ex_rec_task :: task where
  "ex_rec_task = ex_task\<lparr>t_id := ''task_3'', status := In_progress, progress := Some 100,
     recurring := Has ''daily''\<rparr>"

definition ex_orphan_task :: task where
  "ex_orphan_task = ex_rec_task\<lparr>t_id := ''task_4'', goal_id := None\<rparr>"

definition ex_done_on :: "string \<Rightarrow> string \<Rightarrow> task" where
  "ex_done_on i day = ex_task\<lparr>t_id := i, status := Completed, progress := Some 100,
     completed_at := Some (day @ ''T10:00:00+00:00Z'')\<rparr>"

text \<open>The store of the velocity example of the specification: four tasks of the goal
  completed on two dates, two remaining.\<close>

definition ex_velocity_store :: store where
  "ex_velocity_store = ex_store [ex_done_on ''task_a'' ''2024-01-01'', ex_done_on ''task_b'' ''2024-01-01'',
     ex_done_on ''task_c'' ''2024-01-02'', ex_done_on ''task_d'' ''2024-01-02'',
     ex_task\<lparr>t_id := ''task_e''\<rparr>, ex_task\<lparr>t_id := ''task_f''\<rparr>]"

lemmas ex_defs = ex_orphan_task_def ex_rec_task_def ex_done_on_def ex_velocity_store_def ex_done_task_def ex_zero_task_def ex_env_def ex_task_def ex_goal_def ex_world_def ex_store_def

section \<open>The example clock\<close>

lemma replicate_le_replicate: "n \<le> m \<Longrightarrow> replicate n c \<le> replicate m (c :: char)"
proof (induction n arbitrary: m)
  case 0
  then show ?case by (cases m) simp_all
next
  case (Suc n)
  then obtain m' where "m = Suc m'" "n \<le> m'" by (cases m) auto
  with Suc.IH show ?case by simp
qed

lemma replicate_Z_less: "n < m \<Longrightarrow> replicate n (CHR ''a'') @ ''Z'' < replicate m (CHR ''a'')"
proof (induction n arbitrary: m)
  case 0
  then obtain m' where "m = Suc m'" by (cases m) auto
  then show ?case by (simp add: less_char_def)
next
  case (Suc n)
  then obtain m' where "m = Suc m'" "n < m'" by (cases m) auto
  with Suc.IH show ?case by simp
qed

lemma ex_env_clock_sound: "clock_sound ex_env"
  by (simp add: clock_sound_def ex_env_def stamp_def replicate_le_replicate replicate_Z_less)

section \<open>Write-ahead logging\<close>

text \<open>
  C1. The durability contract of the WAL-logged commands (\<open>mark_progress\<close>,
  \<open>log_time\<close>, \<open>mark_blocked\<close> of phase 2): whatever prefix of a command's writes a
  crash lets through, if \<^verbatim>\<open>tasks.json\<close> differs from before the command, a WAL line
  written by the command is on disk.
\<close>

theorem wal_crash_consistency:
  assumes "run_task_cmd e cmd w = (r, w')"
    and "tasks_json (replay (fs w) (take k (new_io w w'))) \<noteq> tasks_json (fs w)"
  shows "\<exists>day x. WalAppend day x \<in> set (take k (new_io w w')) \<and>
           (day, x) \<in> set (wal_log (replay (fs w) (take k (new_io w w'))))"
  using run_task_cmd_wal_first [OF assms(1)] wal_before_save_crash assms(2) by blast

theorem wal_crash_consistency_witness:
  "\<exists>r w'. run_task_cmd ex_env (MarkProgress ''task_1'' 50 []) (ex_world (ex_store [ex_task])) = (r, w') \<and>
     tasks_json (replay (fs (ex_world (ex_store [ex_task]))) (take 2 (new_io (ex_world (ex_store [ex_task])) w')))
       \<noteq> tasks_json (fs (ex_world (ex_store [ex_task]))) \<and>
     (\<exists>day x. WalAppend day x \<in> set (take 2 (new_io (ex_world (ex_store [ex_task])) w')) \<and>
        (day, x) \<in> set (wal_log (replay (fs (ex_world (ex_store [ex_task])))
                                   (take 2 (new_io (ex_world (ex_store [ex_task])) w')))))"
proof -
  let ?w = "ex_world (ex_store [ex_task])"
  obtain r w' where rw: "run_task_cmd ex_env (MarkProgress ''task_1'' 50 []) ?w = (r, w')"
    by (cases "run_task_cmd ex_env (MarkProgress ''task_1'' 50 []) ?w") auto
  have "trace ?w = []" by (simp add: ex_world_def)
  moreover have "w' = snd (run_task_cmd ex_env (MarkProgress ''task_1'' 50 []) ?w)"
    using rw by simp
  moreover have "take 2 (trace (snd (run_task_cmd ex_env (MarkProgress ''task_1'' 50 []) ?w))) =
      [wal_io ex_env ''PROGRESS_CHANGE''
      (ProgressContent ''task_1'' 0 50 (iso ex_env (clock ex_env 0))) 1, Truncate]"
    by (simp add: mark_progress2_def ex_defs find_task_by_id_def Let_def now_def
        log_to_wal_eq save_data_def session_for_def update_session_state_def append_to_buffer_eq
        find_goal_by_id_def wal_io_def)
  ultimately have t: "take 2 (new_io ?w w') = [wal_io ex_env ''PROGRESS_CHANGE''
      (ProgressContent ''task_1'' 0 50 (iso ex_env (clock ex_env 0))) 1, Truncate]"
    by (simp add: new_io_def)
  have "tasks_json (replay (fs ?w) (take 2 (new_io ?w w'))) \<noteq> tasks_json (fs ?w)"
    unfolding t by (simp add: ex_world_def wal_io_def)
  with wal_crash_consistency [OF rw this] rw show ?thesis by blast
qed

section \<open>Witnesses of the component theorems\<close>

theorem health_check_save_precedes_wal_witness:
  "\<exists>iss fx w' d' day x. health_check ex_env (ex_world (ex_store [ex_done_task])) = (Inr (iss, fx), w') \<and>
     fx \<noteq> [] \<and> new_io (ex_world (ex_store [ex_done_task])) w' = [Truncate, WriteStore d', WalAppend day x] \<and>
     w_event x = ''HEALTH_CHECK''"
proof -
  let ?w = "ex_world (ex_store [ex_done_task])"
  have r: "fst (health_check ex_env ?w) =
      Inr ([ImpossibleState ''task_1'' (Some 40), InconsistentCompletion ''task_1''],
           [SetProgress100 ''task_1'', AddedCompletedAt ''task_1''])"
    by (simp add: health_check_def ex_defs hc_task_def hc_orphaned_def hc_progress_def
        hc_completion_def hc_time_def hc_future_def now_def Let_def stamp_def log_to_wal_eq save_data_def)
  then obtain w' where h: "health_check ex_env ?w =
      (Inr ([ImpossibleState ''task_1'' (Some 40), InconsistentCompletion ''task_1''],
            [SetProgress100 ''task_1'', AddedCompletedAt ''task_1'']), w')"
    by (metis prod.collapse)
  from Health.health_check_save_precedes_wal [OF h] h show ?thesis by blast
qed

theorem health_check_idempotent_witness:
  "clock_sound ex_env \<and>
   (\<exists>iss fx w1 iss2 w2. health_check ex_env (ex_world (ex_store [ex_done_task])) = (Inr (iss, fx), w1) \<and>
      fx \<noteq> [] \<and> health_check ex_env w1 = (Inr (iss2, []), w2))"
proof -
  let ?w = "ex_world (ex_store [ex_done_task])"
  have r: "fst (health_check ex_env ?w) =
      Inr ([ImpossibleState ''task_1'' (Some 40), InconsistentCompletion ''task_1''],
           [SetProgress100 ''task_1'', AddedCompletedAt ''task_1''])"
    by (simp add: health_check_def ex_defs hc_task_def hc_orphaned_def hc_progress_def
        hc_completion_def hc_time_def hc_future_def now_def Let_def stamp_def log_to_wal_eq save_data_def)
  then obtain w1 where h: "health_check ex_env ?w =
      (Inr ([ImpossibleState ''task_1'' (Some 40), InconsistentCompletion ''task_1''],
            [SetProgress100 ''task_1'', AddedCompletedAt ''task_1'']), w1)"
    by (metis prod.collapse)
  from Health.health_check_idempotent [OF ex_env_clock_sound h] h ex_env_clock_sound
  show ?thesis by blast
qed

theorem health_check_zero_estimate_crash_witness:
  "tasks_json (fs (ex_world (ex_store [ex_task, ex_zero_task]))) = Valid (ex_store [ex_task, ex_zero_task]) \<and>
   ex_zero_task \<in> set (tasks (ex_store [ex_task, ex_zero_task])) \<and>
   estimate_minutes ex_zero_task = Some 0 \<and> 0 < get_or (actual_minutes ex_zero_task) 0 \<and>
   (\<exists>w'. health_check ex_env (ex_world (ex_store [ex_task, ex_zero_task])) = (Inl ZeroDivisionError, w') \<and>
      fs w' = fs (ex_world (ex_store [ex_task, ex_zero_task])) \<and>
      trace w' = trace (ex_world (ex_store [ex_task, ex_zero_task])))"
proof -
  have h: "tasks_json (fs (ex_world (ex_store [ex_task, ex_zero_task]))) = Valid (ex_store [ex_task, ex_zero_task])"
    "ex_zero_task \<in> set (tasks (ex_store [ex_task, ex_zero_task]))"
    "estimate_minutes ex_zero_task = Some 0" "0 < get_or (actual_minutes ex_zero_task) 0"
    by (simp_all add: ex_world_def ex_store_def ex_zero_task_def)
  from Health.health_check_zero_estimate_crash [OF h, of ex_env] h show ?thesis by blast
qed

theorem mark_progress2_writes_witness:
  "load2 (tasks_json (fs (ex_world (ex_store [ex_task])))) = Inr (ex_store [ex_task]) \<and>
   find_task_by_id (ex_store [ex_task]) ''task_1'' = Some 0 \<and>
   (\<exists>t' w' day x. mark_progress2 ex_env ''task_1'' 150 [] (ex_world (ex_store [ex_task])) = (Inr t', w') \<and>
     progress t' = Some 150 \<and> t_id t' = ''task_1'' \<and>
     hd (new_io (ex_world (ex_store [ex_task])) w') = WalAppend day x \<and> w_event x = ''PROGRESS_CHANGE'' \<and>
     w_content x = ProgressContent ''task_1'' (get_or (progress (tasks (ex_store [ex_task]) ! 0)) 0) 150
       (iso ex_env (clock ex_env (reads (ex_world (ex_store [ex_task]))))) \<and>
     tasks_json (fs w') = Valid (set_task (ex_store [ex_task]) 0 t'))"
proof -
  have h: "load2 (tasks_json (fs (ex_world (ex_store [ex_task])))) = Inr (ex_store [ex_task])"
    "find_task_by_id (ex_store [ex_task]) ''task_1'' = Some 0"
    by (simp_all add: ex_world_def ex_store_def ex_task_def find_task_by_id_def)
  from Phase2.mark_progress2_writes [OF h, of ex_env 150 "[]"] h show ?thesis by blast
qed

theorem mark_progress2_full_stays_in_progress_witness:
  "load2 (tasks_json (fs (ex_world (ex_store [ex_task])))) = Inr (ex_store [ex_task]) \<and>
   find_task_by_id (ex_store [ex_task]) ''task_1'' = Some 0 \<and>
   status (tasks (ex_store [ex_task]) ! 0) \<noteq> Completed \<and> (100 :: int) \<le> 100 \<and>
   (\<exists>t' w'. mark_progress2 ex_env ''task_1'' 100 [] (ex_world (ex_store [ex_task])) = (Inr t', w') \<and>
      status t' = In_progress \<and> progress t' = Some 100)"
proof -
  have h: "load2 (tasks_json (fs (ex_world (ex_store [ex_task])))) = Inr (ex_store [ex_task])"
    "find_task_by_id (ex_store [ex_task]) ''task_1'' = Some 0"
    "status (tasks (ex_store [ex_task]) ! 0) \<noteq> Completed" "(100 :: int) \<le> 100"
    by (simp_all add: ex_world_def ex_store_def ex_task_def find_task_by_id_def)
  from Phase2.mark_progress2_full_stays_in_progress [OF h, of ex_env "[]"] h show ?thesis by blast
qed

section \<open>Witnesses of the phase-1 and contract theorems\<close>

lemma ex_load1 [simp]: "load1 (ex_world d) = (d, ex_world d)"
  by (simp add: ex_world_def)

lemma ex_load2 [simp]: "load2 (tasks_json (fs (ex_world d))) = Inr d"
  by (simp add: ex_world_def)

lemma ex_find_task_1 [simp]: "find_task_by_id (ex_store (ex_task # ts)) ''task_1'' = Some 0"
  by (simp add: find_task_by_id_def ex_store_def ex_task_def)

lemma ex_ints [simp]:
  "py_int ''120'' = Some 120" "py_int ''150'' = Some 150" "py_int ''100'' = Some 100"
  "py_int ''90'' = Some 90" "py_int ''50'' = Some 50" "py_int ''45'' = Some 45"
  "py_int ''30'' = Some 30" "py_int ''75'' = Some 75"
  by (simp_all add: py_simps)

theorem mark_progress1_refines_witness:
  "load1 (ex_world (ex_store [ex_task])) = (ex_store [ex_task], ex_world (ex_store [ex_task])) \<and>
   find_task_by_id (ex_store [ex_task]) ''task_1'' = Some 0 \<and>
   py_int ''120'' = Some 120 \<and>
   map_sum id abs_task (fst (mark_progress1 ex_env ''task_1'' ''120'' (ex_world (ex_store [ex_task])))) =
     spec_set_progress 120 (abs_task (tasks (ex_store [ex_task]) ! 0))"
  using Contract.mark_progress1_refines [OF ex_load1 ex_find_task_1 ex_ints(1), of ex_env] by simp


theorem log_time1_keeps_status_witness:
  "load1 (ex_world (ex_store [ex_task])) = (ex_store [ex_task], ex_world (ex_store [ex_task])) \<and>
   find_task_by_id (ex_store [ex_task]) ''task_1'' = Some 0 \<and>
   py_int ''30'' = Some 30 \<and>
   (\<exists>t'. fst (log_time1 ex_env ''task_1'' ''30'' (ex_world (ex_store [ex_task]))) = Inr t' \<and>
     abs_task t' = (spec_log_time 30 (abs_task (tasks (ex_store [ex_task]) ! 0)))\<lparr>a_status := status (tasks (ex_store [ex_task]) ! 0)\<rparr>)"
  using Contract.log_time1_keeps_status [OF ex_load1 ex_find_task_1 ex_ints(7), of ex_env] by simp




theorem mark_progress1_rejects_out_of_range_witness:
  "py_int ''150'' = Some 150 \<and>
   (\<exists>err. mark_progress1 ex_env ''task_1'' ''150'' (ex_world (ex_store [ex_task])) =
        (Inl err, snd (load1 (ex_world (ex_store [ex_task])))) \<and>
      tasks_json (fs (snd (load1 (ex_world (ex_store [ex_task]))))) = tasks_json (fs (ex_world (ex_store [ex_task]))))"
proof -
  have h: "\<forall>p. py_int ''150'' = Some p \<longrightarrow> \<not> (0 \<le> p \<and> p \<le> 100)" by simp
  from Phase1.mark_progress1_rejects_out_of_range [OF h, where e = ex_env and tid = "''task_1''"
      and w = "ex_world (ex_store [ex_task])"]
  show ?thesis by simp
qed

theorem mark_progress1_pending_full_witness:
  "status (tasks (ex_store [ex_task]) ! 0) = Pending \<and>
   py_int ''100'' = Some 100 \<and>
   (\<exists>t' w'. mark_progress1 ex_env ''task_1'' ''100'' (ex_world (ex_store [ex_task])) = (Inr t', w') \<and>
     status t' = In_progress \<and> progress t' = Some 100 \<and>
     completed_at t' = completed_at (tasks (ex_store [ex_task]) ! 0) \<and>
     tasks_json (fs w') = Valid (set_task (ex_store [ex_task]) 0 t'))"
proof -
  have h: "status (tasks (ex_store [ex_task]) ! 0) = Pending"
    by (simp add: ex_store_def ex_task_def)
  from Phase1.mark_progress1_pending_full [OF ex_load1 ex_find_task_1 h ex_ints(3), where e = ex_env] h
  show ?thesis by simp
qed

theorem mark_progress1_reopens_completed_witness:
  "find_task_by_id (ex_store [ex_done_task]) ''task_1'' = Some 0 \<and>
   status (tasks (ex_store [ex_done_task]) ! 0) = Completed \<and>
   py_int ''50'' = Some 50 \<and>
   (\<exists>t' w'. mark_progress1 ex_env ''task_1'' ''50'' (ex_world (ex_store [ex_done_task])) = (Inr t', w') \<and>
     status t' = Completed \<and> progress t' = Some 50 \<and>
     tasks_json (fs w') = Valid (set_task (ex_store [ex_done_task]) 0 t'))"
proof -
  have h: "find_task_by_id (ex_store [ex_done_task]) ''task_1'' = Some 0"
    "status (tasks (ex_store [ex_done_task]) ! 0) = Completed" "py_int ''50'' = Some 50"
    "0 \<le> (50::int)" "(50::int) < 100"
    by (simp_all add: ex_store_def ex_done_task_def ex_task_def find_task_by_id_def)
  from Phase1.mark_progress1_reopens_completed [OF ex_load1 h, where e = ex_env] h
  show ?thesis by simp
qed

theorem log_time1_variance_witness:
  "estimate_minutes (tasks (ex_store [ex_task]) ! 0) = Some 60 \<and>
   py_int ''90'' = Some 90 \<and>
   (\<exists>t' v. fst (log_time1 ex_env ''task_1'' ''90'' (ex_world (ex_store [ex_task]))) = Inr t' \<and>
     time_variance_percent t' = Some v \<and>
     actual_minutes t' = Some (get_or (actual_minutes (tasks (ex_store [ex_task]) ! 0)) 0 + 90) \<and>
     \<bar>v - of_int (get_or (actual_minutes (tasks (ex_store [ex_task]) ! 0)) 0 + 90 - 60) / of_int 60 * 100\<bar> \<le> 1 / 20)"
proof -
  have h: "estimate_minutes (tasks (ex_store [ex_task]) ! 0) = Some 60" "(0::int) < 60"
    by (simp_all add: ex_store_def ex_task_def)
  from Phase1.log_time1_variance [OF ex_load1 ex_find_task_1 ex_ints(4) h, where e = ex_env] h
  show ?thesis by simp
qed

theorem log_time1_additive_witness:
  "load1 (ex_world (ex_store [ex_task])) = (ex_store [ex_task], ex_world (ex_store [ex_task])) \<and>
   py_int ''30'' = Some 30 \<and> py_int ''45'' = Some 45 \<and> py_int ''75'' = Some (30 + 45) \<and>
   (\<exists>t2 t3. fst (log_time1 ex_env ''task_1'' ''45'' (snd (log_time1 ex_env ''task_1'' ''30'' (ex_world (ex_store [ex_task]))))) = Inr t2 \<and>
     fst (log_time1 ex_env ''task_1'' ''75'' (ex_world (ex_store [ex_task]))) = Inr t3 \<and>
     actual_minutes t2 = actual_minutes t3 \<and> time_variance_percent t2 = time_variance_percent t3)"
proof -
  have h: "py_int ''75'' = Some (30 + 45)" by simp
  from Phase1.log_time1_additive [OF ex_load1 ex_find_task_1 ex_ints(7) ex_ints(6) h, where e = ex_env and e' = ex_env]
  show ?thesis by simp
qed

theorem next_recurring_rejects_incomplete_witness:
  "find_task_by_id (ex_store [ex_rec_task\<lparr>progress := Some 40\<rparr>]) ''task_3'' = Some 0 \<and>
   get_or (progress (tasks (ex_store [ex_rec_task\<lparr>progress := Some 40\<rparr>]) ! 0)) 0 < 100 \<and>
   (\<exists>err. next_recurring ex_env ''task_3'' (ex_world (ex_store [ex_rec_task\<lparr>progress := Some 40\<rparr>])) =
       (Inl err, ex_world (ex_store [ex_rec_task\<lparr>progress := Some 40\<rparr>])) \<and>
     tasks_json (fs (ex_world (ex_store [ex_rec_task\<lparr>progress := Some 40\<rparr>]))) =
       tasks_json (fs (ex_world (ex_store [ex_rec_task\<lparr>progress := Some 40\<rparr>]))))"
proof -
  have h: "find_task_by_id (ex_store [ex_rec_task\<lparr>progress := Some 40\<rparr>]) ''task_3'' = Some 0"
    "get_or (progress (tasks (ex_store [ex_rec_task\<lparr>progress := Some 40\<rparr>]) ! 0)) 0 < 100"
    by (simp_all add: ex_store_def ex_rec_task_def ex_task_def find_task_by_id_def)
  from Phase1.next_recurring_rejects_incomplete [OF ex_load1 h, where e = ex_env] h
  show ?thesis by blast
qed

lemma ex_rec_hyps:
  "find_task_by_id (ex_store [ex_rec_task]) ''task_3'' = Some 0"
  "is_recurring1 (tasks (ex_store [ex_rec_task]) ! 0)"
  "100 \<le> get_or (progress (tasks (ex_store [ex_rec_task]) ! 0)) 0"
  by (simp_all add: ex_store_def ex_rec_task_def ex_task_def find_task_by_id_def is_recurring1_def)

theorem next_recurring_rollover_witness:
  "find_task_by_id (ex_store [ex_rec_task]) ''task_3'' = Some 0 \<and> is_recurring1 (tasks (ex_store [ex_rec_task]) ! 0) \<and>
   (\<exists>t1 n w'. next_recurring ex_env ''task_3'' (ex_world (ex_store [ex_rec_task])) = (Inr (t1, n), w') \<and>
     tasks_json (fs w') = Valid ((ex_store [ex_rec_task])\<lparr>tasks := (tasks (ex_store [ex_rec_task]))[0 := t1] @ [n]\<rparr>) \<and>
     t_id t1 = ''task_3'' \<and> status t1 = Completed \<and> progress t1 = Some 100 \<and> completed_at t1 \<noteq> None \<and>
     status n = Pending \<and> progress n = Some 0 \<and> actual_minutes n = Some 0 \<and>
     completed_at n = None \<and> blocked_reason n = Missing \<and>
     t_id n = ''task_'' @ take 8 (uuid_hex ex_env (uuids (ex_world (ex_store [ex_rec_task])))) \<and>
     title n = title (tasks (ex_store [ex_rec_task]) ! 0) \<and> goal_id n = goal_id (tasks (ex_store [ex_rec_task]) ! 0) \<and>
     recurring n = recurring (tasks (ex_store [ex_rec_task]) ! 0) \<and>
     estimate_minutes n = estimate_minutes (tasks (ex_store [ex_rec_task]) ! 0) \<and>
     time_variance_percent n = time_variance_percent (tasks (ex_store [ex_rec_task]) ! 0))"
  using Phase1.next_recurring_rollover [OF ex_load1 ex_rec_hyps, where e = ex_env] ex_rec_hyps by blast

theorem next_recurring_interval_witness:
  "recurring (tasks (ex_store [ex_rec_task]) ! 0) = Has ''daily'' \<and> is_recurring1 (tasks (ex_store [ex_rec_task]) ! 0) \<and>
   (\<exists>t1 n w'. next_recurring ex_env ''task_3'' (ex_world (ex_store [ex_rec_task])) = (Inr (t1, n), w') \<and>
     next_due_at n = Some (stamp ex_env (clock ex_env (reads (ex_world (ex_store [ex_rec_task])) + 2) + 86400000000)))"
proof -
  have r: "recurring (tasks (ex_store [ex_rec_task]) ! 0) = Has ''daily''"
    by (simp add: ex_store_def ex_rec_task_def)
  from Phase1.next_recurring_interval [OF ex_load1 ex_rec_hyps, where e = ex_env] r ex_rec_hyps(2)
  show ?thesis by simp
qed

theorem next_recurring_id_shadowed_witness:
  "find_task_by_id (ex_store [ex_rec_task, ex_task\<lparr>t_id := ''task_01234567''\<rparr>]) ''task_3'' = Some 0 \<and>
   t_id (tasks (ex_store [ex_rec_task, ex_task\<lparr>t_id := ''task_01234567''\<rparr>]) ! 1) =
     ''task_'' @ take 8 (uuid_hex ex_env (uuids (ex_world (ex_store [ex_rec_task, ex_task\<lparr>t_id := ''task_01234567''\<rparr>])))) \<and>
   (\<exists>t1 n w' d'. next_recurring ex_env ''task_3'' (ex_world (ex_store [ex_rec_task, ex_task\<lparr>t_id := ''task_01234567''\<rparr>])) =
       (Inr (t1, n), w') \<and> tasks_json (fs w') = Valid d' \<and>
     tasks d' ! length (tasks (ex_store [ex_rec_task, ex_task\<lparr>t_id := ''task_01234567''\<rparr>])) = n \<and>
     find_task_by_id d' (t_id n) \<noteq> Some (length (tasks (ex_store [ex_rec_task, ex_task\<lparr>t_id := ''task_01234567''\<rparr>]))))"
proof -
  let ?s = "ex_store [ex_rec_task, ex_task\<lparr>t_id := ''task_01234567''\<rparr>]"
  have h: "find_task_by_id ?s ''task_3'' = Some 0" "is_recurring1 (tasks ?s ! 0)"
    "100 \<le> get_or (progress (tasks ?s ! 0)) 0" "1 < length (tasks ?s)" "(1::nat) \<noteq> 0"
    "t_id (tasks ?s ! 1) = ''task_'' @ take 8 (uuid_hex ex_env (uuids (ex_world ?s)))"
    by (simp_all add: ex_store_def ex_rec_task_def ex_task_def find_task_by_id_def is_recurring1_def
        ex_env_def ex_world_def)
  from Phase1.next_recurring_id_shadowed [OF ex_load1 h] h
  show ?thesis by blast
qed

lemma ex_velocity_hyps:
  "find_goal_by_id ex_velocity_store ''goal_1'' = Some ex_goal"
  "\<forall>t \<in> set (tasks ex_velocity_store). goal_id t \<noteq> None"
  by (simp_all add: ex_velocity_store_def ex_store_def ex_goal_def ex_done_on_def ex_task_def find_goal_by_id_def)

theorem show_velocity_counts_witness:
  "find_goal_by_id ex_velocity_store ''goal_1'' = Some ex_goal \<and>
   (\<exists>r. show_velocity ''goal_1'' (ex_world ex_velocity_store) = (Inr r, ex_world ex_velocity_store) \<and>
     v_completed r = 4 \<and> v_remaining r = 2 \<and> v_days_tracked r = 2 \<and>
     sorted (map fst (v_by_day r)) \<and> distinct (map fst (v_by_day r)) \<and> sum_list (map snd (v_by_day r)) = 4)"
proof -
  let ?c = "filter (\<lambda>t. goal_id t = Some ''goal_1'' \<and> status t = Completed) (tasks ex_velocity_store)"
  obtain r where r: "show_velocity ''goal_1'' (ex_world ex_velocity_store) = (Inr r, ex_world ex_velocity_store)"
    and f: "v_completed r = length ?c"
      "v_remaining r = length (filter (\<lambda>t. goal_id t = Some ''goal_1'' \<and> status t \<noteq> Completed) (tasks ex_velocity_store))"
      "v_days_tracked r = card (set (completion_days ?c))"
      "sorted (map fst (v_by_day r))" "distinct (map fst (v_by_day r))"
      "sum_list (map snd (v_by_day r)) =
         length (filter (\<lambda>t. goal_id t = Some ''goal_1'' \<and> status t = Completed \<and> completed_at t \<noteq> None) (tasks ex_velocity_store))"
    using Phase1.show_velocity_counts [OF ex_load1 ex_velocity_hyps] by blast
  have c: "?c = [ex_done_on ''task_a'' ''2024-01-01'', ex_done_on ''task_b'' ''2024-01-01'',
       ex_done_on ''task_c'' ''2024-01-02'', ex_done_on ''task_d'' ''2024-01-02'']"
    by (simp add: ex_velocity_store_def ex_store_def ex_done_on_def ex_task_def)
  have "card (set (completion_days ?c)) = 2"
    unfolding c by (simp add: completion_days_def map_filter_simps ex_done_on_def ex_task_def split_T_head_def)
  moreover have "length (filter (\<lambda>t. goal_id t = Some ''goal_1'' \<and> status t \<noteq> Completed) (tasks ex_velocity_store)) = 2"
    by (simp add: ex_velocity_store_def ex_store_def ex_done_on_def ex_task_def)
  moreover have "length (filter (\<lambda>t. goal_id t = Some ''goal_1'' \<and> status t = Completed \<and> completed_at t \<noteq> None)
      (tasks ex_velocity_store)) = 4"
    by (simp add: ex_velocity_store_def ex_store_def ex_done_on_def ex_task_def)
  ultimately show ?thesis
    using r f ex_velocity_hyps by (simp add: c)
qed

lemma ex_velocity_filters:
  "filter (\<lambda>t. goal_id t = Some ''goal_1'' \<and> status t = Completed) (tasks ex_velocity_store) =
     [ex_done_on ''task_a'' ''2024-01-01'', ex_done_on ''task_b'' ''2024-01-01'',
      ex_done_on ''task_c'' ''2024-01-02'', ex_done_on ''task_d'' ''2024-01-02'']"
  "filter (\<lambda>t. goal_id t = Some ''goal_1'' \<and> status t \<noteq> Completed) (tasks ex_velocity_store) =
     [ex_task\<lparr>t_id := ''task_e''\<rparr>, ex_task\<lparr>t_id := ''task_f''\<rparr>]"
  by (simp_all add: ex_velocity_store_def ex_store_def ex_done_on_def ex_task_def)

text \<open>The velocity example of the specification, computed: 2 tasks a day, one day to go.\<close>

theorem show_velocity_rates_witness:
  "completion_days (filter (\<lambda>t. goal_id t = Some ''goal_1'' \<and> status t = Completed) (tasks ex_velocity_store)) \<noteq> [] \<and>
   (\<exists>r. show_velocity ''goal_1'' (ex_world ex_velocity_store) = (Inr r, ex_world ex_velocity_store) \<and>
     v_velocity r = py_round 2 (of_nat (v_completed r) / of_nat (v_days_tracked r)) \<and>
     v_days_to_completion r = py_round 1 (of_nat (v_remaining r) * of_nat (v_days_tracked r) / of_nat (v_completed r)) \<and>
     v_velocity r = 2 \<and> v_days_to_completion r = 1)"
proof -
  have ne: "completion_days (filter (\<lambda>t. goal_id t = Some ''goal_1'' \<and> status t = Completed) (tasks ex_velocity_store)) \<noteq> []"
    by (simp add: ex_velocity_filters completion_days_def map_filter_simps ex_done_on_def)
  have cbd: "count_by_day [ex_done_on ''task_a'' ''2024-01-01'', ex_done_on ''task_b'' ''2024-01-01'',
      ex_done_on ''task_c'' ''2024-01-02'', ex_done_on ''task_d'' ''2024-01-02''] =
      [(''2024-01-01'', 2), (''2024-01-02'', 2)]"
    by (simp add: count_by_day_def tally_day_def ex_done_on_def ex_task_def split_T_head_def numeral_2_eq_2)
  have r: "fst (show_velocity ''goal_1'' (ex_world ex_velocity_store)) =
      Inr \<lparr>v_completed = 4, v_remaining = 2, v_days_tracked = 2, v_velocity = 2, v_days_to_completion = 1,
           v_by_day = [(''2024-01-01'', 2), (''2024-01-02'', 2)]\<rparr>"
    by (simp add: show_velocity_eq [OF ex_load1 ex_velocity_hyps] ex_velocity_filters cbd py_round_def
        round_half_even_def)
  from Phase1.show_velocity_rates [OF ex_load1 ex_velocity_hyps ne] ne r show ?thesis
    by auto
qed

theorem create_recurring_result_witness:
  "find_goal_by_id (ex_store [ex_task]) ''goal_1'' \<noteq> None \<and>
   (\<exists>t w'. create_recurring ex_env ''goal_1'' ''Review'' ''weekly'' None None (ex_world (ex_store [ex_task])) = (Inr t, w') \<and>
     tasks_json (fs w') = Valid ((ex_store [ex_task])\<lparr>tasks := tasks (ex_store [ex_task]) @ [t]\<rparr>) \<and>
     status t = Pending \<and> progress t = Some 0 \<and> recurring t = Has ''weekly'' \<and> goal_id t = Some ''goal_1'' \<and>
     priority t = ''medium'' \<and> estimate_minutes t = None \<and>
     next_due_at t = Some (stamp ex_env (clock ex_env (reads (ex_world (ex_store [ex_task]))))))"
proof -
  have h: "find_goal_by_id (ex_store [ex_task]) ''goal_1'' \<noteq> None"
    by (simp add: ex_store_def ex_goal_def find_goal_by_id_def)
  have e: "estimate_arg None = Inr None" by (simp add: estimate_arg_def)
  from Phase1.create_recurring_result [OF ex_load1 e, where e = ex_env and gid = "''goal_1''" and ttl = "''Review''"
      and rec = "''weekly''" and prio = None] h
  show ?thesis by simp
qed

section \<open>Witnesses of the buffer and whole-program theorems\<close>

definition ex_buffer_world :: world where
  "ex_buffer_world = (ex_world (ex_store [ex_task]))\<lparr>fs := (fs (ex_world (ex_store [ex_task])))\<lparr>buffer_md := Some []\<rparr>\<rparr>"

theorem flush_after_appends_witness:
  "buffer_md (fs ex_buffer_world) = Some [] \<and>
   fst (flush_working_buffer ex_env
     (fold (\<lambda>(ev, dt). append_to_buffer ex_env ev dt) [(''PROGRESS'', ''task_1: 0%''), (''BLOCKED'', ''task_1: waiting'')]
       ex_buffer_world)) = Some 3"
proof -
  have h: "buffer_md (fs ex_buffer_world) = Some []" "\<forall>t. CHR 0x0A \<notin> set (iso ex_env t)"
    "\<forall>(ev, dt) \<in> set [(''PROGRESS'', ''task_1: 0%''), (''BLOCKED'', ''task_1: waiting'')].
       CHR 0x0A \<notin> set ev \<and> CHR 0x0A \<notin> set dt"
    by (simp_all add: ex_buffer_world_def ex_world_def ex_env_def)
  from Buffer.flush_after_appends [OF h] h(1) show ?thesis by (simp add: numeral_3_eq_3)
qed

theorem flush_crash_no_loss_witness:
  "buffer_md (fs ex_buffer_world) = Some [] \<and>
   (buffer_md (replay (fs ex_buffer_world) (take 1 (new_io ex_buffer_world (snd (flush_working_buffer ex_env ex_buffer_world))))) = Some [] \<or>
    (ymd ex_env (clock ex_env (reads ex_buffer_world)), flush_section []) \<in>
      set (daily_md (replay (fs ex_buffer_world) (take 1 (new_io ex_buffer_world (snd (flush_working_buffer ex_env ex_buffer_world)))))))"
proof -
  have h: "buffer_md (fs ex_buffer_world) = Some []" by (simp add: ex_buffer_world_def)
  have f: "flush_working_buffer ex_env ex_buffer_world =
      (fst (flush_working_buffer ex_env ex_buffer_world), snd (flush_working_buffer ex_env ex_buffer_world))" by simp
  from Buffer.flush_crash_no_loss [OF h f, of 1] h show ?thesis by blast
qed

lemma ex_file_inv: "file_inv (tasks_json (fs (ex_world (ex_store [ex_task]))))"
  by (simp add: ex_world_def ex_store_def ex_task_def store_inv_def task_inv_def)

theorem reachable_file_inv_witness:
  "reachable ex_env (ex_world (ex_store [ex_task]))
     (crash_after 1 (run_command ex_env (P1Blocked ''task_1'' ''waiting'') (ex_world (ex_store [ex_task])))
        (run_command ex_env P2Health (run_command ex_env (P1Blocked ''task_1'' ''waiting'') (ex_world (ex_store [ex_task]))))) \<and>
   file_inv (tasks_json (fs (crash_after 1 (run_command ex_env (P1Blocked ''task_1'' ''waiting'') (ex_world (ex_store [ex_task])))
        (run_command ex_env P2Health (run_command ex_env (P1Blocked ''task_1'' ''waiting'') (ex_world (ex_store [ex_task])))))))"
proof -
  let ?w0 = "ex_world (ex_store [ex_task])"
  let ?w1 = "run_command ex_env (P1Blocked ''task_1'' ''waiting'') ?w0"
  have r: "reachable ex_env ?w0 (crash_after 1 ?w1 (run_command ex_env P2Health ?w1))"
    by (rule reachable.later [OF reachable.later [OF reachable.start step.run] step.crash])
  from Machine.reachable_file_inv [OF r ex_file_inv] r show ?thesis by blast
qed


definition ex_crashed_world :: world where
  "ex_crashed_world = crash_after 1 (ex_world (ex_store [ex_task]))
     (run_command ex_env (P1Progress ''task_1'' ''50'') (ex_world (ex_store [ex_task])))"

lemma ex_crashed_corrupt: "tasks_json (fs ex_crashed_world) = Corrupt"
proof -
  obtain t' w' where m: "mark_progress1 ex_env ''task_1'' ''50'' (ex_world (ex_store [ex_task])) =
      (Inr t', save_data (set_task (ex_store [ex_task]) 0 t') w')" and "trace w' = []"
    using mark_progress1_eq [OF ex_load1 ex_find_task_1 ex_ints(5), of ex_env] by (simp add: Let_def ex_world_def)
  then show ?thesis
    by (simp add: ex_crashed_world_def crash_after_def new_io_def save_data_def perform_def ex_world_def)
qed

theorem corrupt_store_after_crash_witness:
  "tasks_json (fs ex_crashed_world) = Corrupt \<and>
   run_task_cmd ex_env (MarkProgress ''task_1'' 50 []) ex_crashed_world = (Inl JSONDecodeError, ex_crashed_world) \<and>
   fst (health_check ex_env ex_crashed_world) = Inl JSONDecodeError \<and>
   load1 ex_crashed_world = (empty_store, perform Backup ex_crashed_world)"
  using Machine.corrupt_store_after_crash [OF ex_crashed_corrupt, of ex_env "MarkProgress ''task_1'' 50 []"]
    ex_crashed_corrupt by simp

theorem corrupt_store_absorbing_witness:
  "reachable ex_env ex_crashed_world
     (run_command ex_env (P1CreateRecurring ''goal_1'' ''Review'' ''weekly'' None None) ex_crashed_world) \<and>
   tasks_json (fs (run_command ex_env (P1CreateRecurring ''goal_1'' ''Review'' ''weekly'' None None) ex_crashed_world)) =
     Corrupt"
proof -
  have r: "reachable ex_env ex_crashed_world
      (run_command ex_env (P1CreateRecurring ''goal_1'' ''Review'' ''weekly'' None None) ex_crashed_world)"
    by (rule reachable.later [OF reachable.start step.run])
  from Machine.corrupt_store_absorbing [OF r] r ex_crashed_corrupt show ?thesis by simp
qed

section \<open>Witnesses of the session theorems\<close>


theorem session_velocity_faster_bounds_witness:
  "(\<exists>n. session_velocity 995 1000 = show_int n @ ''% faster than estimate'' \<and> 0 \<le> n \<and> n \<le> 100 \<and>
     (n = 0 \<longleftrightarrow> (1000 - 995) * 100 < (1000::int))) \<and>
   session_velocity 995 1000 = ''0% faster than estimate''"
proof -
  from World.session_velocity_faster_bounds [of 1000 995] obtain n where
    n: "session_velocity 995 1000 = show_int n @ ''% faster than estimate''" "0 \<le> n" "n \<le> 100"
      "n = 0 \<longleftrightarrow> (1000 - 995) * 100 < (1000::int)"
    by auto
  then have "n = 0" by simp
  with n show ?thesis by (auto simp: show_int_def digits_nat.simps digit_char_def)
qed

theorem run_task_cmd_session_mirror_witness:
  "\<exists>t' w'. run_task_cmd ex_env (MarkBlocked ''task_1'' ''waiting'') (ex_world (ex_store [ex_task])) = (Inr t', w') \<and>
     find_goal_by_id (ex_store [ex_task]) (get_or (goal_id t') []) = Some ex_goal \<and>
     (\<exists>k act. tasks_json (fs w') = Valid (set_task (ex_store [ex_task]) k t') \<and>
       session_md (fs w') = Some (render_session (iso ex_env (clock ex_env (Suc (Suc (Suc (Suc
         (reads (ex_world (ex_store [ex_task]))))))))) t' ex_goal act))"
proof -
  let ?w = "ex_world (ex_store [ex_task])"
  obtain t' w' where r: "run_task_cmd ex_env (MarkBlocked ''task_1'' ''waiting'') ?w = (Inr t', w')"
    using wal_mutation_succeeds [OF ex_load2 ex_find_task_1] by (simp add: mark_blocked2_shape) blast
  have "goal_id t' = Some ''goal_1''"
    using r [unfolded run_task_cmd.simps mark_blocked2_shape]
    by (rule wal_mutation_Inr) (auto simp: ex_store_def ex_task_def find_task_by_id_def)
  then have g: "find_goal_by_id (ex_store [ex_task]) (get_or (goal_id t') []) = Some ex_goal"
    by (simp add: ex_store_def ex_goal_def find_goal_by_id_def)
  from Phase2.run_task_cmd_session_mirror [OF ex_load2 r g] r g show ?thesis by blast
qed

theorem recurrence_continues_witness:
  "\<exists>t1 n w1 t2 w2 r w3. next_recurring ex_env ''task_3'' (ex_world (ex_store [ex_rec_task])) = (Inr (t1, n), w1) \<and>
     mark_progress1 ex_env (t_id n) ''100'' w1 = (Inr t2, w2) \<and> next_recurring ex_env (t_id n) w2 = (Inr r, w3)"
proof -
  have h: "\<forall>t \<in> set (tasks (ex_store [ex_rec_task])). t_id t \<noteq> ''task_'' @ take 8 (uuid_hex ex_env (uuids (ex_world (ex_store [ex_rec_task]))))"
    by (simp add: ex_store_def ex_rec_task_def ex_task_def ex_env_def ex_world_def)
  from Phase1.recurrence_continues [OF ex_load1 ex_rec_hyps h] show ?thesis .
qed

section \<open>Witnesses of the command-line theorems\<close>

theorem parse_args1_p1_argv_witness:
  "cli1_ok (P1CreateRecurring ''goal_1'' ''Review'' ''daily'' (Some ''high'') (Some ''30'')) \<and>
   parse_args1 (p1_argv (P1CreateRecurring ''goal_1'' ''Review'' ''daily'' (Some ''high'') (Some ''30''))) =
     Inr (Some (P1CreateRecurring ''goal_1'' ''Review'' ''daily'' (Some ''high'') (Some ''30'')))"
proof -
  have h: "cli1_ok (P1CreateRecurring ''goal_1'' ''Review'' ''daily'' (Some ''high'') (Some ''30''))"
    by (simp add: plain_def recurring_choices_def priority_choices_def)
  from Cli.parse_args1_p1_argv [OF h] h show ?thesis by simp
qed

theorem parse_args1_choices_witness:
  "parse_args1 [''create-recurring'', ''goal_1'', ''Review'', ''--rec'', ''monthly'', ''--priority=low''] =
     Inr (Some (P1CreateRecurring ''goal_1'' ''Review'' ''monthly'' (Some ''low'') None)) \<and>
   ''monthly'' \<in> set recurring_choices \<and> set_option (Some ''low'') \<subseteq> set priority_choices"
proof -
  have h: "parse_args1 [''create-recurring'', ''goal_1'', ''Review'', ''--rec'', ''monthly'', ''--priority=low''] =
     Inr (Some (P1CreateRecurring ''goal_1'' ''Review'' ''monthly'' (Some ''low'') None))"
    by (simp add: parse_args1_def p1_commands_def sub_parse_def classify_def split_eq_def sub_longs_def
        sub_options_def choice_ok_def recurring_choices_def priority_choices_def build_command_def
        last_opt_def neg_number_def)
  from Cli.parse_args1_choices [OF h] h show ?thesis by simp
qed

theorem main2_p2_argv_witness:
  "cli2_ok (P2Task (MarkProgress ''task_1'' 40 ''halfway'')) \<and>
   main2 ex_env (''task_manager_phase2.py'' # p2_argv (P2Task (MarkProgress ''task_1'' 40 ''halfway'')))
     (ex_world (ex_store [ex_task])) =
   exec_command ex_env (P2Task (MarkProgress ''task_1'' 40 ''halfway'')) (ex_world (ex_store [ex_task]))"
proof -
  have h: "cli2_ok (P2Task (MarkProgress ''task_1'' 40 ''halfway''))" by simp
  from Cli.main2_p2_argv [OF h] h show ?thesis by simp
qed

theorem main2_progress_defaults_to_zero_witness:
  "''task_1'' \<noteq> [] \<and>
   (\<exists>t' w' rest. main2 ex_env [''task_manager_phase2.py'', ''mark-progress'', ''task_1''] (ex_world (ex_store [ex_task])) =
      (Inr (), w') \<and> progress t' = Some 0 \<and>
    new_io (ex_world (ex_store [ex_task])) w' = wal_io ex_env ''PROGRESS_CHANGE''
       (ProgressContent ''task_1'' (get_or (progress (tasks (ex_store [ex_task]) ! 0)) 0) 0
          (iso ex_env (clock ex_env (reads (ex_world (ex_store [ex_task])))))) (Suc (reads (ex_world (ex_store [ex_task]))))
       # Truncate # WriteStore (set_task (ex_store [ex_task]) 0 t') # rest)"
proof -
  have h: "''task_1'' \<noteq> []" by simp
  from Cli.main2_progress_defaults_to_zero [OF ex_load2 ex_find_task_1 h, of ex_env "''task_manager_phase2.py''"]
  show ?thesis by simp
qed


lemma ex_orphan_hyps:
  "find_task_by_id (ex_store [ex_orphan_task]) ''task_4'' = Some 0"
  "truthy_str (jget (recurring (tasks (ex_store [ex_orphan_task]) ! 0)))"
  "\<not> truthy_str (goal_id (tasks (ex_store [ex_orphan_task]) ! 0))"
  "100 \<le> get_or (progress (tasks (ex_store [ex_orphan_task]) ! 0)) 0"
  by (simp_all add: ex_store_def ex_orphan_task_def ex_rec_task_def ex_task_def find_task_by_id_def)

theorem orphan_repair_keeps_recurring_witness:
  "\<exists>iss fx w1 t1 n w2. health_check ex_env (ex_world (ex_store [ex_orphan_task])) = (Inr (iss, fx), w1) \<and>
     fx = [RemovedRecurring ''task_4''] \<and>
     next_recurring ex_env ''task_4'' w1 = (Inr (t1, n), w2) \<and> recurring n = JNull \<and> goal_id n = None"
proof -
  let ?w = "ex_world (ex_store [ex_orphan_task])"
  have r: "fst (health_check ex_env ?w) = Inr ([OrphanedRecurring ''task_4''], [RemovedRecurring ''task_4''])"
    by (simp add: health_check_def ex_defs hc_task_def hc_orphaned_def hc_progress_def
        hc_completion_def hc_time_def hc_future_def now_def Let_def stamp_def log_to_wal_eq save_data_def)
  then obtain w1 where h: "health_check ex_env ?w =
      (Inr ([OrphanedRecurring ''task_4''], [RemovedRecurring ''task_4'']), w1)"
    by (metis prod.collapse)
  from Machine.orphan_repair_keeps_recurring [OF ex_load2 ex_orphan_hyps h] h ex_orphan_hyps(3)
  show ?thesis by (auto simp: ex_store_def ex_orphan_task_def)
qed

end
